(* ===== verification/Prelude.thy ===== *)
theory Prelude
  imports Main "HOL-Library.Sublist" "HOL-Library.Multiset"
begin

text \<open>
  Shared vocabulary of the development: the JavaScript array operations the dialog
  code relies on (\<open>indexOf\<close>, reading an index that may be out of range, \<open>splice\<close>),
  the error a JavaScript call can raise, and the lemma collections the component
  theories feed their proofs from. Array indices are \<open>int\<close>, because \<open>indexOf\<close>
  answers \<open>-1\<close> and \<open>length - 1\<close> is \<open>-1\<close> on an empty array.
\<close>

named_theorems js_simps "evaluation rules of the JavaScript array helpers"
named_theorems cta_simps "what each cta-modal operation leaves unchanged or how it changes a field"

subsection \<open>Errors\<close>

text \<open>
  A JavaScript \<open>TypeError\<close>: calling a method (\<open>.focus()\<close>) on \<open>undefined\<close>.
  Inside an event listener the browser reports it and goes on with the next listener.
\<close>

datatype js_error = TypeError

subsection \<open>Array.prototype.indexOf\<close>

fun js_indexOf :: "'a list \<Rightarrow> 'a \<Rightarrow> int" where
  "js_indexOf [] x = -1"
| "js_indexOf (y # ys) x =
     (if y = x then 0 else (let i = js_indexOf ys x in if i < 0 then -1 else i + 1))"

subsection \<open>Reading arr[i]: undefined out of range\<close>

definition js_get :: "'a list \<Rightarrow> int \<Rightarrow> 'a option" where
  "js_get xs i = (if 0 \<le> i \<and> nat i < length xs then Some (xs ! nat i) else None)"

subsection \<open>arr.splice(i, 1)\<close>

definition js_splice1 :: "'a list \<Rightarrow> nat \<Rightarrow> 'a list" where
  "js_splice1 xs i = take i xs @ drop (Suc i) xs"

subsection \<open>White space: the regular-expression class \<open>\s\<close>\<close>

text \<open>
  The characters \<open>\s\<close> and \<open>String.prototype.trim\<close> treat as white space, among the
  8-bit characters: space, tab, line feed, vertical tab, form feed, carriage return and
  the no-break space.
\<close>

definition is_ws :: "char \<Rightarrow> bool" where
  "is_ws c = (c \<in> set [CHR '' '', CHR 0x09, CHR 0x0A, CHR 0x0B, CHR 0x0C, CHR 0x0D, CHR 0xA0])"

subsection \<open>Every second element\<close>

text \<open>The elements at odd positions (the second, the fourth, ...).\<close>

fun every_second :: "'a list \<Rightarrow> 'a list" where
  "every_second [] = []"
| "every_second [x] = []"
| "every_second (x # y # zs) = y # every_second zs"

subsection \<open>Lemmas on indexOf\<close>

lemma js_indexOf_ge: "-1 \<le> js_indexOf xs x"
  by (induction xs) (auto simp: Let_def)

lemma js_indexOf_neg_iff: "js_indexOf xs x < 0 \<longleftrightarrow> x \<notin> set xs"
  by (induction xs) (auto simp: Let_def)

lemma js_indexOf_minus1_iff: "js_indexOf xs x = -1 \<longleftrightarrow> x \<notin> set xs"
  using js_indexOf_ge [of xs x] js_indexOf_neg_iff [of xs x] by linarith

lemma js_indexOf_found:
  "x \<in> set xs \<Longrightarrow> 0 \<le> js_indexOf xs x \<and> nat (js_indexOf xs x) < length xs
     \<and> xs ! nat (js_indexOf xs x) = x"
proof (induction xs)
  case Nil
  then show ?case by simp
next
  case (Cons y ys)
  show ?case
  proof (cases "y = x")
    case True
    then show ?thesis by simp
  next
    case False
    with Cons.prems have xs: "x \<in> set ys" by simp
    with Cons.IH have ih: "0 \<le> js_indexOf ys x \<and> nat (js_indexOf ys x) < length ys
        \<and> ys ! nat (js_indexOf ys x) = x" by blast
    then have "nat (js_indexOf ys x + 1) = Suc (nat (js_indexOf ys x))" by (simp add: nat_add_distrib)
    with ih xs False show ?thesis by (simp add: Let_def)
  qed
qed

lemma js_indexOf_nth_distinct:
  "distinct xs \<Longrightarrow> i < length xs \<Longrightarrow> js_indexOf xs (xs ! i) = int i"
proof (induction xs arbitrary: i)
  case Nil
  then show ?case by simp
next
  case (Cons y ys)
  show ?case
  proof (cases i)
    case 0
    then show ?thesis by simp
  next
    case (Suc j)
    with Cons.prems have "j < length ys" and "ys ! j \<noteq> y" and "distinct ys"
      by (auto simp: nth_mem)
    with Cons.IH [of j] Suc show ?thesis by (simp add: Let_def)
  qed
qed

lemma js_indexOf_eq_nat:
  "js_indexOf xs a = int i \<longleftrightarrow> i < length xs \<and> xs ! i = a \<and> a \<notin> set (take i xs)"
proof (induction xs arbitrary: i)
  case Nil
  then show ?case by simp
next
  case (Cons y ys)
  show ?case
  proof (cases i)
    case 0
    then show ?thesis using js_indexOf_found [of a ys] by (auto simp: Let_def)
  next
    case (Suc j)
    have "js_indexOf (y # ys) a = int (Suc j) \<longleftrightarrow> y \<noteq> a \<and> js_indexOf ys a = int j"
    proof (cases "a \<in> set ys")
      case True
      with js_indexOf_found [of a ys] show ?thesis by (auto simp: Let_def)
    next
      case False
      then have "js_indexOf ys a = -1" by (simp add: js_indexOf_minus1_iff)
      then show ?thesis by (simp add: Let_def)
    qed
    with Cons.IH [of j] Suc show ?thesis by auto
  qed
qed

lemma js_indexOf_zero_iff: "js_indexOf xs a = 0 \<longleftrightarrow> xs \<noteq> [] \<and> a = hd xs"
proof (cases xs)
  case (Cons y ys)
  have "-1 \<le> js_indexOf ys a" by (rule js_indexOf_ge)
  with Cons show ?thesis by (auto simp: Let_def)
qed simp

lemma js_indexOf_last_iff:
  assumes "distinct xs" "xs \<noteq> []"
  shows "js_indexOf xs a = int (length xs) - 1 \<longleftrightarrow> a = last xs"
proof -
  obtain ys y where xs: "xs = ys @ [y]" using assms(2) by (metis rev_exhaust)
  then have "int (length xs) - 1 = int (length ys)" by simp
  moreover have "js_indexOf xs a = int (length ys) \<longleftrightarrow> a = y"
    using js_indexOf_eq_nat [of xs a "length ys"] assms(1) xs by auto
  ultimately show ?thesis using xs by simp
qed

lemma js_get_last [js_simps]: "xs \<noteq> [] \<Longrightarrow> js_get xs (int (length xs) - 1) = Some (last xs)"
  by (cases xs) (auto simp: js_get_def last_conv_nth)

lemma js_get_zero [js_simps]: "xs \<noteq> [] \<Longrightarrow> js_get xs 0 = Some (hd xs)"
  by (simp add: js_get_def hd_conv_nth)

lemma js_indexOf_hd [simp]: "js_indexOf (x # xs) x = 0"
  by simp

subsection \<open>Generic list lemmas\<close>

lemma distinct_concat_map_disjoint:
  "distinct (concat (map f xs)) \<Longrightarrow> x \<in> set xs \<Longrightarrow> y \<in> set xs \<Longrightarrow> x \<noteq> y \<Longrightarrow>
     set (f x) \<inter> set (f y) = {}"
  by (induction xs) auto

lemma nth_last_iff:
  "distinct xs \<Longrightarrow> i < length xs \<Longrightarrow> xs ! i = last xs \<longleftrightarrow> Suc i = length xs"
  by (cases xs rule: rev_cases) (auto simp: nth_append nth_eq_iff_index_eq)

lemma nth_hd_iff: "distinct xs \<Longrightarrow> i < length xs \<Longrightarrow> xs ! i = hd xs \<longleftrightarrow> i = 0"
  using nth_eq_iff_index_eq [of xs i 0] by (cases xs) (auto simp: hd_conv_nth)

lemma js_get_int: "js_get xs (int i) = (if i < length xs then Some (xs ! i) else None)"
  by (simp add: js_get_def)

subsection \<open>Lemmas on reads and splice\<close>

lemma js_get_Some [js_simps]:
  "i < length xs \<Longrightarrow> js_get xs (int i) = Some (xs ! i)"
  by (simp add: js_get_def)

lemma js_get_neg [js_simps]: "js_get xs (-1) = None"
  by (simp add: js_get_def)

lemma js_get_Nil [js_simps]: "js_get [] i = None"
  by (simp add: js_get_def)

lemma length_js_splice1 [simp]:
  "i < length xs \<Longrightarrow> length (js_splice1 xs i) = length xs - 1"
  by (simp add: js_splice1_def)

lemma mset_js_splice1:
  "i < length xs \<Longrightarrow> mset (js_splice1 xs i) = mset xs - {#xs ! i#}"
proof -
  assume i: "i < length xs"
  then have "xs = take i xs @ xs ! i # drop (Suc i) xs"
    by (simp add: id_take_nth_drop)
  then have "mset xs = mset (take i xs @ drop (Suc i) xs) + {#xs ! i#}"
    by (metis add_mset_add_single mset.simps(2) mset_append union_mset_add_mset_right)
  then show ?thesis by (simp add: js_splice1_def)
qed

lemma length_every_second [simp]: "length (every_second xs) = length xs div 2"
  by (induction xs rule: every_second.induct) auto

lemma js_indexOf_append_notin:
  "x \<notin> set ys \<Longrightarrow> js_indexOf (ys @ x # zs) x = int (length ys)"
  by (simp add: js_indexOf_eq_nat nth_append)

lemma js_splice1_append [simp]: "js_splice1 (ys @ x # zs) (length ys) = ys @ zs"
  by (simp add: js_splice1_def)

lemma js_splice1_indexOf_Cons [simp]:
  "js_splice1 (x # xs) (nat (js_indexOf (x # xs) x)) = xs"
  by (simp add: js_splice1_def)

subsection \<open>Folds and list surgery\<close>

lemma fold_preserves:
  "(\<And>x s. x \<in> set xs \<Longrightarrow> P s \<Longrightarrow> P (f x s)) \<Longrightarrow> P s \<Longrightarrow> P (fold f xs s)"
  by (induction xs arbitrary: s) auto

lemma fold_remove1_distinct:
  "distinct ys \<Longrightarrow> fold remove1 xs ys = filter (\<lambda>y. y \<notin> set xs) ys"
proof (induction xs arbitrary: ys)
  case (Cons x xs)
  then have "fold remove1 xs (remove1 x ys) = filter (\<lambda>y. y \<notin> set xs) (remove1 x ys)"
    by simp
  then show ?case using Cons.prems
    by (auto simp: distinct_remove1_removeAll removeAll_filter_not_eq filter_filter intro!: filter_cong)
qed simp

lemma fold_add_new:
  "set ys \<inter> set xs = {} \<Longrightarrow> distinct xs \<Longrightarrow>
     fold (\<lambda>x ys. if x \<in> set ys then ys else ys @ [x]) xs ys = ys @ xs"
  by (induction xs arbitrary: ys) auto

lemma hd_dropWhile_not: "dropWhile P xs \<noteq> [] \<Longrightarrow> \<not> P (hd (dropWhile P xs))"
  by (induction xs) auto

lemma last_dropWhile: "dropWhile P xs \<noteq> [] \<Longrightarrow> last (dropWhile P xs) = last xs"
  by (induction xs) auto

lemma dropWhile_last_not:
  "xs \<noteq> [] \<Longrightarrow> \<not> P (last xs) \<Longrightarrow> dropWhile P xs \<noteq> []"
  by (auto simp: dropWhile_eq_Nil_conv)


lemma last_filter_upt:
  assumes "k < n" "P k" "\<forall>j. k < j \<and> j < n \<longrightarrow> \<not> P j"
  shows "filter P [0..<n] \<noteq> [] \<and> last (filter P [0..<n]) = k"
proof -
  have "[0..<n] = [0..<k] @ k # [Suc k..<n]"
    using assms(1) upt_add_eq_append [of 0 k "n - k"] upt_conv_Cons [of k n] by simp
  moreover have "filter P [Suc k..<n] = []" using assms(3) by (auto simp: filter_empty_conv)
  ultimately show ?thesis using assms(2) by simp
qed

lemma map_update_self: "(map f xs)[i := f (xs ! i)] = map f xs"
  by (induction xs arbitrary: i) (auto split: nat.split)

subsection \<open>Options: a list of results that all have to be there\<close>

lemma those_eq_None: "those xs = None \<longleftrightarrow> None \<in> set xs"
  by (induction xs) (auto split: option.splits)

end
