(* ===== verification/Dom.thy ===== *)
theory Dom
  imports Prelude
begin

text \<open>
  The part of the browser DOM that the dialog code reads: elements with a tag, attributes,
  classes, a checked state and a layout box; the document as a tree of element ids in
  document order; the CSS selectors the code passes to \<open>querySelectorAll\<close>,
  \<open>querySelector\<close> and \<open>closest\<close>; and \<open>Node.contains\<close>. An element is rendered
  when neither it nor an ancestor carries the \<open>hidden\<close> attribute and it is attached
  to the document; the offset sizes and client rectangles of an element that is not
  rendered read as zero, as they do in a browser for \<open>display: none\<close>.
\<close>

subsection \<open>Elements\<close>

datatype tag = A | Area | Input | Select | Textarea | Button | Iframe | Audio | Video
  | Summary | Span | Div | Slot | Heading nat | Other string

record element =
  tag :: tag
  attrs :: "string \<rightharpoonup> string"
  classes :: "string list"
  checked :: bool
  offset_width :: nat   \<comment> \<open>layout box when rendered\<close>
  offset_height :: nat
  client_rects :: nat

type_synonym eid = nat
type_synonym dom = "eid \<Rightarrow> element"

datatype tree = Node eid "tree list"

subsection \<open>Selectors\<close>

text \<open>
  A selector list (\<open>a, b, c\<close>) is a list of compound selectors; a compound selector
  (\<open>input:not([disabled])[type="radio"]\<close>) is a list of simple ones, all of which
  must hold.
\<close>

datatype simple_sel =
    Tag tag
  | HasAttr string               \<comment> \<open>\<open>[a]\<close>\<close>
  | AttrEq string string         \<comment> \<open>\<open>[a="v"]\<close>\<close>
  | AttrPrefix string string     \<comment> \<open>\<open>[a^="v"]\<close>\<close>
  | HasClass string              \<comment> \<open>\<open>.c\<close>\<close>
  | IsChecked                    \<comment> \<open>\<open>:checked\<close>\<close>
  | Not simple_sel               \<comment> \<open>\<open>:not(s)\<close>\<close>

type_synonym compound_sel = "simple_sel list"
type_synonym selector = "compound_sel list"

fun sel_simple :: "simple_sel \<Rightarrow> element \<Rightarrow> bool" where
  "sel_simple (Tag t) el = (tag el = t)"
| "sel_simple (HasAttr a) el = (attrs el a \<noteq> None)"
| "sel_simple (AttrEq a v) el = (attrs el a = Some v)"
| "sel_simple (AttrPrefix a p) el = (case attrs el a of None \<Rightarrow> False | Some v \<Rightarrow> prefix p v)"
| "sel_simple (HasClass c) el = (c \<in> set (classes el))"
| "sel_simple IsChecked el = checked el"
| "sel_simple (Not s) el = (\<not> sel_simple s el)"

definition sel_compound :: "compound_sel \<Rightarrow> element \<Rightarrow> bool" where
  "sel_compound c el = list_all (\<lambda>s. sel_simple s el) c"

definition sel_matches :: "selector \<Rightarrow> element \<Rightarrow> bool" where
  "sel_matches sl el = list_ex (\<lambda>c. sel_compound c el) sl"

subsection \<open>The tree\<close>

fun preorder :: "tree \<Rightarrow> eid list" where
  "preorder (Node e ts) = e # concat (map preorder ts)"

fun first_some :: "'a option list \<Rightarrow> 'a option" where
  "first_some [] = None"
| "first_some (Some x # _) = Some x"
| "first_some (None # xs) = first_some xs"

text \<open>The subtree rooted at an element, and the path from the root down to an element.\<close>

fun subtree :: "eid \<Rightarrow> tree \<Rightarrow> tree option" where
  "subtree x (Node e ts) = (if e = x then Some (Node e ts) else first_some (map (subtree x) ts))"

fun path_to :: "eid \<Rightarrow> tree \<Rightarrow> eid list option" where
  "path_to x (Node e ts) =
     (if e = x then Some [e] else map_option (Cons e) (first_some (map (path_to x) ts)))"

definition wf_tree :: "tree \<Rightarrow> bool" where
  "wf_tree t = distinct (preorder t)"

subsection \<open>Queries\<close>

text \<open>
  \<open>root.querySelectorAll(sel)\<close>: the descendants of \<open>root\<close> (not \<open>root\<close> itself)
  that match, in document order. \<open>root.querySelector(sel)\<close>: the first of them, or
  \<open>null\<close>.
\<close>

definition descendants :: "tree \<Rightarrow> eid \<Rightarrow> eid list" where
  "descendants doc root = (case subtree root doc of None \<Rightarrow> [] | Some t \<Rightarrow> tl (preorder t))"

definition querySelectorAll :: "dom \<Rightarrow> tree \<Rightarrow> eid \<Rightarrow> selector \<Rightarrow> eid list" where
  "querySelectorAll dm doc root sl = filter (\<lambda>e. sel_matches sl (dm e)) (descendants doc root)"

definition querySelector :: "dom \<Rightarrow> tree \<Rightarrow> eid \<Rightarrow> selector \<Rightarrow> eid option" where
  "querySelector dm doc root sl =
     (case querySelectorAll dm doc root sl of [] \<Rightarrow> None | e # _ \<Rightarrow> Some e)"

text \<open>\<open>x.closest(sel)\<close>: the nearest inclusive ancestor of \<open>x\<close> that matches.\<close>

definition closest :: "dom \<Rightarrow> tree \<Rightarrow> selector \<Rightarrow> eid \<Rightarrow> eid option" where
  "closest dm doc sl x =
     (case path_to x doc of
        None \<Rightarrow> (if sel_matches sl (dm x) then Some x else None)
      | Some p \<Rightarrow> find (\<lambda>e. sel_matches sl (dm e)) (rev p))"

text \<open>\<open>a.contains(x)\<close>: \<open>x\<close> is an inclusive descendant of \<open>a\<close>.\<close>

definition contains :: "tree \<Rightarrow> eid \<Rightarrow> eid \<Rightarrow> bool" where
  "contains doc a x = (a = x \<or> x \<in> set (descendants doc a))"

subsection \<open>Rendering\<close>

definition rendered :: "dom \<Rightarrow> tree \<Rightarrow> eid \<Rightarrow> bool" where
  "rendered dm doc x =
     (case path_to x doc of
        None \<Rightarrow> False
      | Some p \<Rightarrow> list_all (\<lambda>a. attrs (dm a) ''hidden'' = None) p)"

definition offsetWidth :: "dom \<Rightarrow> tree \<Rightarrow> eid \<Rightarrow> nat" where
  "offsetWidth dm doc x = (if rendered dm doc x then offset_width (dm x) else 0)"

definition offsetHeight :: "dom \<Rightarrow> tree \<Rightarrow> eid \<Rightarrow> nat" where
  "offsetHeight dm doc x = (if rendered dm doc x then offset_height (dm x) else 0)"

definition clientRectsLength :: "dom \<Rightarrow> tree \<Rightarrow> eid \<Rightarrow> nat" where
  "clientRectsLength dm doc x = (if rendered dm doc x then client_rects (dm x) else 0)"

subsection \<open>Attribute updates\<close>

definition set_attr :: "eid \<Rightarrow> string \<Rightarrow> string \<Rightarrow> dom \<Rightarrow> dom" where
  "set_attr x a v dm = dm(x := (dm x)\<lparr>attrs := (attrs (dm x))(a \<mapsto> v)\<rparr>)"

definition remove_attr :: "eid \<Rightarrow> string \<Rightarrow> dom \<Rightarrow> dom" where
  "remove_attr x a dm = dm(x := (dm x)\<lparr>attrs := (attrs (dm x))(a := None)\<rparr>)"

subsection \<open>Lemmas\<close>

lemma sel_matches_iff: "sel_matches sl el \<longleftrightarrow> (\<exists>c \<in> set sl. \<forall>s \<in> set c. sel_simple s el)"
  by (simp add: sel_matches_def sel_compound_def list_ex_iff list_all_iff)

lemma mem_querySelectorAll [simp]:
  "x \<in> set (querySelectorAll dm doc root sl) \<longleftrightarrow>
     x \<in> set (descendants doc root) \<and> sel_matches sl (dm x)"
  by (auto simp: querySelectorAll_def)

lemma querySelectorAll_subseq: "subseq (querySelectorAll dm doc root sl) (descendants doc root)"
  by (simp add: querySelectorAll_def)

lemma querySelector_first:
  assumes "querySelector dm doc root sl = Some x"
  shows "x \<in> set (descendants doc root) \<and> sel_matches sl (dm x)"
proof -
  from assms obtain r where "querySelectorAll dm doc root sl = x # r"
    by (auto simp: querySelector_def split: list.splits)
  then have "x \<in> set (querySelectorAll dm doc root sl)" by simp
  then show ?thesis by simp
qed

lemma first_some_Some: "first_some xs = Some y \<Longrightarrow> Some y \<in> set xs"
  by (induction xs rule: first_some.induct) auto

lemma subtree_preorder:
  "subtree x t = Some s \<Longrightarrow> set (preorder s) \<subseteq> set (preorder t)"
proof (induction x t arbitrary: s rule: subtree.induct)
  case (1 x e ts)
  show ?case
  proof (cases "e = x")
    case True
    with "1.prems" show ?thesis by simp
  next
    case False
    have "Some s \<in> set (map (subtree x) ts)"
      using "1.prems" False by (intro first_some_Some) simp
    then obtain t where t: "t \<in> set ts" "subtree x t = Some s" by auto
    with "1.IH" False have "set (preorder s) \<subseteq> set (preorder t)" by blast
    with t show ?thesis by auto
  qed
qed

lemma descendants_sub: "set (descendants doc root) \<subseteq> set (preorder doc)"
proof (cases "subtree root doc")
  case None
  then show ?thesis by (simp add: descendants_def)
next
  case (Some t)
  then have "set (preorder t) \<subseteq> set (preorder doc)" by (rule subtree_preorder)
  moreover have "set (tl (preorder t)) \<subseteq> set (preorder t)" by (cases "preorder t") auto
  ultimately show ?thesis using Some by (auto simp: descendants_def)
qed

lemma subtree_root: "subtree x t = Some s \<Longrightarrow> \<exists>ts. s = Node x ts"
proof (induction x t arbitrary: s rule: subtree.induct)
  case (1 x e ts)
  show ?case
  proof (cases "e = x")
    case True
    with "1.prems" have "s = Node x ts" by simp
    then show ?thesis by blast
  next
    case False
    have "Some s \<in> set (map (subtree x) ts)"
      using "1.prems" False by (intro first_some_Some) simp
    with "1.IH" False show ?thesis by auto
  qed
qed

lemma first_some_None: "first_some xs = None \<longleftrightarrow> (\<forall>y \<in> set xs. y = None)"
  by (induction xs rule: first_some.induct) auto

lemma path_to_preorder: "path_to x t = Some p \<Longrightarrow> x \<in> set (preorder t)"
proof (induction x t arbitrary: p rule: path_to.induct)
  case (1 x e ts)
  show ?case
  proof (cases "e = x")
    case False
    with "1.prems" obtain q where "first_some (map (path_to x) ts) = Some q" by auto
    then have "Some q \<in> set (map (path_to x) ts)" by (rule first_some_Some)
    then obtain t where "t \<in> set ts" "path_to x t = Some q" by auto
    with "1.IH" False show ?thesis by auto
  qed simp
qed

lemma path_to_exists: "x \<in> set (preorder t) \<Longrightarrow> \<exists>p. path_to x t = Some p"
proof (induction x t rule: path_to.induct)
  case (1 x e ts)
  show ?case
  proof (cases "e = x")
    case False
    with "1.prems" obtain t where t: "t \<in> set ts" "x \<in> set (preorder t)" by auto
    with "1.IH" False obtain q where "path_to x t = Some q" by blast
    with t(1) have "first_some (map (path_to x) ts) \<noteq> None" by (auto simp: first_some_None)
    with False show ?thesis by auto
  qed simp
qed

lemma path_to_root: "path_to x (Node e ts) = Some p \<Longrightarrow> e \<in> set p"
  by (auto split: if_splits)

lemma path_to_last: "path_to x t = Some p \<Longrightarrow> x \<in> set p"
proof (induction x t arbitrary: p rule: path_to.induct)
  case (1 x e ts)
  show ?case
  proof (cases "e = x")
    case False
    with "1.prems" obtain q where q: "first_some (map (path_to x) ts) = Some q" "p = e # q" by auto
    from q(1) have "Some q \<in> set (map (path_to x) ts)" by (rule first_some_Some)
    then obtain t where "t \<in> set ts" "path_to x t = Some q" by auto
    with "1.IH" False q(2) show ?thesis by auto
  qed (use "1.prems" in \<open>auto dest: sym\<close>)
qed

text \<open>
  In a tree with distinct ids, the path to an element below \<open>r\<close> passes through \<open>r\<close>.
\<close>

lemma subtree_path:
  "distinct (preorder t) \<Longrightarrow> subtree r t = Some s \<Longrightarrow> x \<in> set (preorder s) \<Longrightarrow>
     \<exists>p. path_to x t = Some p \<and> r \<in> set p"
proof (induction r t arbitrary: s rule: subtree.induct)
  case (1 r e ts)
  show ?case
  proof (cases "e = r")
    case True
    with "1.prems"(2,3) have "x \<in> set (preorder (Node e ts))" by simp
    then obtain p where "path_to x (Node e ts) = Some p" using path_to_exists by blast
    with True show ?thesis using path_to_root by blast
  next
    case False
    have "Some s \<in> set (map (subtree r) ts)"
      using "1.prems" False by (intro first_some_Some) simp
    then obtain t where t: "t \<in> set ts" "subtree r t = Some s" by auto
    from "1.prems"(1) t(1) have dt: "distinct (preorder t)" by (auto simp: distinct_concat_iff)
    from "1.IH" [OF False t(1) dt t(2) "1.prems"(3)]
    obtain q where q: "path_to x t = Some q" "r \<in> set q" by blast
    have xt: "x \<in> set (preorder t)" using q(1) by (rule path_to_preorder)
    with "1.prems"(1) t(1) have xe: "x \<noteq> e" by auto
    from t(1) q(1) have "first_some (map (path_to x) ts) \<noteq> None" by (auto simp: first_some_None)
    then obtain q' where q': "first_some (map (path_to x) ts) = Some q'" by auto
    then have "Some q' \<in> set (map (path_to x) ts)" by (rule first_some_Some)
    then obtain t' where t': "t' \<in> set ts" "path_to x t' = Some q'" by auto
    have "t' = t"
    proof (rule ccontr)
      assume "t' \<noteq> t"
      with "1.prems"(1) t(1) t'(1) have "set (preorder t) \<inter> set (preorder t') = {}"
        by (intro distinct_concat_map_disjoint) auto
      with xt path_to_preorder [OF t'(2)] show False by blast
    qed
    with t'(2) q(1) have "q' = q" by simp
    with xe q' q(2) show ?thesis by auto
  qed
qed

lemma hidden_root_descendants_not_rendered:
  assumes "wf_tree doc" "attrs (dm r) ''hidden'' \<noteq> None" "x \<in> set (descendants doc r)"
  shows "\<not> rendered dm doc x"
proof -
  from assms(3) obtain s where s: "subtree r doc = Some s" and x: "x \<in> set (tl (preorder s))"
    by (auto simp: descendants_def split: option.splits dest: sym)
  from x have "x \<in> set (preorder s)" by (cases "preorder s") auto
  with subtree_path [OF assms(1) [unfolded wf_tree_def] s] obtain p
    where "path_to x doc = Some p" "r \<in> set p" by blast
  with assms(2) show ?thesis by (auto simp: rendered_def list_all_iff)
qed

text \<open>
  Changing the attributes of an element that is not on the path to \<open>y\<close> does not
  change whether \<open>y\<close> is rendered.
\<close>

lemma rendered_frame:
  "path_to y doc = Some q \<Longrightarrow> x \<notin> set q \<Longrightarrow> rendered (dm(x := el)) doc y = rendered dm doc y"
  by (auto simp: rendered_def list_all_iff)

lemma rendered_rendered_box:
  "\<not> rendered dm doc x \<Longrightarrow>
     offsetWidth dm doc x = 0 \<and> offsetHeight dm doc x = 0 \<and> clientRectsLength dm doc x = 0"
  by (simp add: offsetWidth_def offsetHeight_def clientRectsLength_def)

lemma set_attr_other [simp]: "y \<noteq> x \<Longrightarrow> set_attr x a v dm y = dm y"
  by (simp add: set_attr_def)

lemma remove_attr_other [simp]: "y \<noteq> x \<Longrightarrow> remove_attr x a dm y = dm y"
  by (simp add: remove_attr_def)

lemma attrs_set_attr [simp]:
  "attrs (set_attr x a v dm x) = (attrs (dm x))(a \<mapsto> v)"
  by (simp add: set_attr_def)

lemma attrs_remove_attr [simp]:
  "attrs (remove_attr x a dm x) = (attrs (dm x))(a := None)"
  by (simp add: remove_attr_def)

lemma set_attr_idem [simp]: "set_attr x a v (set_attr x a v dm) = set_attr x a v dm"
  by (simp add: set_attr_def)

lemma set_attr_same_attr [simp]:
  "attrs (dm x) a = Some v \<Longrightarrow> set_attr x a v dm = dm"
proof -
  assume "attrs (dm x) a = Some v"
  then have "(dm x)\<lparr>attrs := (attrs (dm x))(a \<mapsto> v)\<rparr> = dm x" by (simp add: map_upd_triv)
  then show ?thesis by (simp add: set_attr_def)
qed

lemma set_attr_fields [simp]:
  "tag (set_attr x a v dm y) = tag (dm y)" "classes (set_attr x a v dm y) = classes (dm y)"
  by (simp_all add: set_attr_def)

lemma remove_attr_fields [simp]:
  "tag (remove_attr x a dm y) = tag (dm y)" "classes (remove_attr x a dm y) = classes (dm y)"
  by (simp_all add: remove_attr_def)

lemma attrs_set_attr_other_name [simp]:
  "b \<noteq> a \<Longrightarrow> attrs (set_attr x a v dm y) b = attrs (dm y) b"
  by (simp add: set_attr_def)

lemma attrs_remove_attr_other_name [simp]:
  "b \<noteq> a \<Longrightarrow> attrs (remove_attr x a dm y) b = attrs (dm y) b"
  by (simp add: remove_attr_def)

end
