(* ===== verification/Focus_Trap.thy ===== *)
theory Focus_Trap
  imports Dom
begin

text \<open>
  The focusable-set scanner and the boundary-cycle focus trap of the accessible dialog,
  \<^verbatim>\<open>src/accessible-dialog/src/scripts/dialog/functions.ts\<close>:
  \<open>FOCUSABLE_SELECTORS\<close>, \<open>isVisible\<close>, \<open>getFocusableChildren\<close> and
  \<open>trapTabKey\<close>. The trap's effect on the page is returned as a value: nothing, or
  "\<open>e.focus()\<close> and \<open>event.preventDefault()\<close>"; calling \<open>.focus()\<close> on
  \<open>undefined\<close> is the error \<open>TypeError\<close>.
\<close>

subsection \<open>The scanner\<close>

definition neg_tabindex :: simple_sel where
  "neg_tabindex = AttrPrefix ''tabindex'' ''-''"

definition FOCUSABLE_SELECTORS :: selector where
  "FOCUSABLE_SELECTORS = [
     [Tag A, HasAttr ''href'', Not neg_tabindex],
     [Tag Area, HasAttr ''href'', Not neg_tabindex],
     [Tag Input, Not (AttrEq ''type'' ''hidden''), Not (AttrEq ''type'' ''radio''),
        Not (HasAttr ''disabled''), Not neg_tabindex],
     [Tag Input, AttrEq ''type'' ''radio'', Not (HasAttr ''disabled''), Not neg_tabindex, IsChecked],
     [Tag Select, Not (HasAttr ''disabled''), Not neg_tabindex],
     [Tag Textarea, Not (HasAttr ''disabled''), Not neg_tabindex],
     [Tag Button, Not (HasAttr ''disabled''), Not neg_tabindex],
     [Tag Iframe, Not neg_tabindex],
     [Tag Audio, HasAttr ''controls'', Not neg_tabindex],
     [Tag Video, HasAttr ''controls'', Not neg_tabindex],
     [HasAttr ''contenteditable'', Not neg_tabindex],
     [HasAttr ''tabindex'', Not neg_tabindex]]"

definition isVisible :: "dom \<Rightarrow> tree \<Rightarrow> eid \<Rightarrow> bool" where
  "isVisible dm doc x =
     (offsetWidth dm doc x \<noteq> 0 \<or> offsetHeight dm doc x \<noteq> 0 \<or> clientRectsLength dm doc x \<noteq> 0)"

definition getFocusableChildren :: "dom \<Rightarrow> tree \<Rightarrow> eid \<Rightarrow> eid list" where
  "getFocusableChildren dm doc root =
     filter (isVisible dm doc) (querySelectorAll dm doc root FOCUSABLE_SELECTORS)"

subsection \<open>The trap\<close>

datatype trap_action = NoAction | FocusAndPrevent eid

text \<open>
  The body of \<open>trapTabKey\<close> on the scanned list: \<open>indexOf\<close> of the active element,
  \<open>lastIndex = length - 1\<close> (which is \<open>-1\<close> on an empty list), and the two guarded
  branches, each reading an array slot that may be \<open>undefined\<close>.
\<close>

definition trap_list :: "eid list \<Rightarrow> eid \<Rightarrow> bool \<Rightarrow> js_error + trap_action" where
  "trap_list fc active withShift =
     (let focusedItemIndex = js_indexOf fc active;
          lastIndex = int (length fc) - 1
      in if withShift \<and> focusedItemIndex = 0 then
           (case js_get fc lastIndex of None \<Rightarrow> Inl TypeError | Some e \<Rightarrow> Inr (FocusAndPrevent e))
         else if \<not> withShift \<and> focusedItemIndex = lastIndex then
           (case js_get fc 0 of None \<Rightarrow> Inl TypeError | Some e \<Rightarrow> Inr (FocusAndPrevent e))
         else Inr NoAction)"

definition trapTabKey :: "dom \<Rightarrow> tree \<Rightarrow> eid \<Rightarrow> eid \<Rightarrow> bool \<Rightarrow> js_error + trap_action" where
  "trapTabKey dm doc node active withShift =
     trap_list (getFocusableChildren dm doc node) active withShift"

subsection \<open>The browser's sequential navigation, inside the dialog\<close>

text \<open>
  When the trap does not prevent it, Tab moves focus to the next element of the
  sequential focus navigation order, Shift+Tab to the previous one. Inside the dialog
  that order is taken to be the scanned list (no positive \<open>tabindex\<close> reorders it);
  \<open>None\<close> is "focus leaves the list". A \<open>TypeError\<close> thrown by the listener does
  not prevent the default action.
\<close>

definition default_tab :: "eid list \<Rightarrow> eid \<Rightarrow> bool \<Rightarrow> eid option" where
  "default_tab fc a shift =
     (let i = js_indexOf fc a in
      if i < 0 then None
      else if shift then js_get fc (i - 1) else js_get fc (i + 1))"

definition press_tab :: "eid list \<Rightarrow> eid \<Rightarrow> bool \<Rightarrow> eid option" where
  "press_tab fc a shift =
     (case trap_list fc a shift of
        Inr (FocusAndPrevent e) \<Rightarrow> Some e
      | _ \<Rightarrow> default_tab fc a shift)"

fun press_tab_n :: "nat \<Rightarrow> eid list \<Rightarrow> eid \<Rightarrow> bool \<Rightarrow> eid option" where
  "press_tab_n 0 fc a shift = Some a"
| "press_tab_n (Suc n) fc a shift =
     (case press_tab fc a shift of None \<Rightarrow> None | Some b \<Rightarrow> press_tab_n n fc b shift)"

subsection \<open>A concrete dialog\<close>

text \<open>
  The dialog of the scenario of the specification: a root (\<open>0\<close>) holding the dialog
  element (\<open>1\<close>), which holds an input (\<open>2\<close>) and a button (\<open>3\<close>), all laid out.
\<close>

definition demo_box :: element where
  "demo_box = \<lparr>tag = Div, attrs = Map.empty, classes = [], checked = False,
     offset_width = 10, offset_height = 10, client_rects = 1\<rparr>"

definition demo_dom :: dom where
  "demo_dom = (\<lambda>_. demo_box)(2 := demo_box\<lparr>tag := Input\<rparr>, 3 := demo_box\<lparr>tag := Button\<rparr>)"

definition demo_neg_dom :: dom where
  "demo_neg_dom = demo_dom(3 := demo_box\<lparr>tag := Button, attrs := [''tabindex'' \<mapsto> ''-1'']\<rparr>)"

definition demo_doc :: tree where
  "demo_doc = Node 0 [Node 1 [Node 2 [], Node 3 []]]"

subsection \<open>Lemmas on the scanner\<close>

lemma subtree_distinct:
  "distinct (preorder t) \<Longrightarrow> subtree r t = Some s \<Longrightarrow> distinct (preorder s)"
proof (induction r t arbitrary: s rule: subtree.induct)
  case (1 r e ts)
  show ?case
  proof (cases "e = r")
    case True
    with "1.prems" show ?thesis by auto
  next
    case False
    have "Some s \<in> set (map (subtree r) ts)"
      using "1.prems" False by (intro first_some_Some) simp
    then obtain t where t: "t \<in> set ts" "subtree r t = Some s" by auto
    from "1.prems"(1) t(1) have "distinct (preorder t)" by (auto simp: distinct_concat_iff)
    with "1.IH" [OF False t(1)] t(2) show ?thesis by blast
  qed
qed

lemma descendants_distinct: "wf_tree doc \<Longrightarrow> distinct (descendants doc r)"
  by (auto simp: wf_tree_def descendants_def distinct_tl dest: subtree_distinct split: option.splits)

lemma neg_tabindex_not_focusable:
  "attrs el ''tabindex'' = Some v \<Longrightarrow> prefix ''-'' v \<Longrightarrow> \<not> sel_matches FOCUSABLE_SELECTORS el"
  by (simp add: FOCUSABLE_SELECTORS_def sel_matches_def sel_compound_def neg_tabindex_def)

lemma not_rendered_not_visible: "\<not> rendered dm doc x \<Longrightarrow> \<not> isVisible dm doc x"
  by (simp add: isVisible_def rendered_rendered_box)

lemmas scanner_defs = getFocusableChildren_def isVisible_def FOCUSABLE_SELECTORS_def neg_tabindex_def

subsection \<open>Lemmas on the trap\<close>

lemma trap_list_Nil: "trap_list [] a shift = (if shift then Inr NoAction else Inl TypeError)"
  by (simp add: trap_list_def js_get_def)

lemma trap_list_distinct:
  assumes "distinct fc" "fc \<noteq> []"
  shows "trap_list fc a shift =
     (if shift \<and> a = hd fc then Inr (FocusAndPrevent (last fc))
      else if \<not> shift \<and> a = last fc then Inr (FocusAndPrevent (hd fc))
      else Inr NoAction)"
  using assms by (simp add: trap_list_def Let_def js_indexOf_zero_iff js_indexOf_last_iff js_simps)

lemma trap_list_nonempty_no_error: "fc \<noteq> [] \<Longrightarrow> \<exists>act. trap_list fc a shift = Inr act"
  by (simp add: trap_list_def Let_def js_simps)

lemma default_tab_nth:
  assumes "distinct fc" "i < length fc"
  shows "default_tab fc (fc ! i) shift =
    (if shift then (if i = 0 then None else Some (fc ! (i - 1)))
     else (if Suc i < length fc then Some (fc ! Suc i) else None))"
proof -
  have idx: "js_indexOf fc (fc ! i) = int i" using assms by (rule js_indexOf_nth_distinct)
  show ?thesis
  proof (cases shift)
    case True
    show ?thesis
    proof (cases "i = 0")
      case True
      with idx \<open>shift\<close> show ?thesis by (simp add: default_tab_def js_simps)
    next
      case False
      have "js_get fc (int i - 1) = Some (fc ! (i - 1))"
        using js_get_int [of fc "i - 1"] False assms(2) by simp
      with idx \<open>shift\<close> False show ?thesis by (simp add: default_tab_def)
    qed
  next
    case False
    have "js_get fc (int i + 1) = (if Suc i < length fc then Some (fc ! Suc i) else None)"
      using js_get_int [of fc "Suc i"] by (simp add: add.commute)
    with idx False show ?thesis by (simp add: default_tab_def)
  qed
qed

lemma press_tab_forward:
  assumes "distinct fc" "i < length fc"
  shows "press_tab fc (fc ! i) False = Some (fc ! (Suc i mod length fc))"
proof -
  have ne: "fc \<noteq> []" using assms(2) by auto
  show ?thesis
  proof (cases "Suc i = length fc")
    case True
    with assms have "fc ! i = last fc" by (simp add: nth_last_iff)
    with assms ne True show ?thesis
      by (simp add: press_tab_def trap_list_distinct hd_conv_nth)
  next
    case False
    with assms have "fc ! i \<noteq> last fc" by (simp add: nth_last_iff)
    with False assms ne show ?thesis
      by (simp add: press_tab_def trap_list_distinct default_tab_nth)
  qed
qed

lemma press_tab_backward:
  assumes "distinct fc" "i < length fc"
  shows "press_tab fc (fc ! i) True = Some (fc ! ((i + length fc - 1) mod length fc))"
proof -
  have ne: "fc \<noteq> []" using assms(2) by auto
  show ?thesis
  proof (cases "i = 0")
    case True
    with assms have "fc ! i = hd fc" by (simp add: nth_hd_iff)
    then have "press_tab fc (fc ! i) True = Some (last fc)"
      using assms(1) ne by (simp add: press_tab_def trap_list_distinct)
    moreover have "(i + length fc - 1) mod length fc = length fc - 1"
      using True ne by simp
    ultimately show ?thesis using ne by (simp add: last_conv_nth)
  next
    case False
    with assms have nh: "fc ! i \<noteq> hd fc" by (simp add: nth_hd_iff)
    have m: "(i + length fc - 1) mod length fc = i - 1"
    proof -
      have "i + length fc - 1 = (i - 1) + length fc" using False by simp
      then have "(i + length fc - 1) mod length fc = (i - 1) mod length fc"
        by (simp only: mod_add_self2)
      also have "\<dots> = i - 1" using assms(2) by simp
      finally show ?thesis .
    qed
    have "press_tab fc (fc ! i) True = default_tab fc (fc ! i) True"
      using assms(1) ne nh by (simp add: press_tab_def trap_list_distinct)
    also have "\<dots> = Some (fc ! (i - 1))" using assms False by (simp add: default_tab_nth)
    finally show ?thesis by (simp only: m)
  qed
qed

lemma press_tab_n_forward:
  "distinct fc \<Longrightarrow> i < length fc \<Longrightarrow>
     press_tab_n k fc (fc ! i) False = Some (fc ! ((i + k) mod length fc))"
proof (induction k arbitrary: i)
  case 0
  then show ?case by simp
next
  case (Suc k)
  let ?j = "Suc i mod length fc"
  have "0 < length fc" using Suc.prems(2) by (cases fc) auto
  then have j: "?j < length fc" by simp
  have "press_tab_n (Suc k) fc (fc ! i) False = press_tab_n k fc (fc ! ?j) False"
    using press_tab_forward [OF Suc.prems] by simp
  also have "\<dots> = Some (fc ! ((?j + k) mod length fc))"
    using Suc.IH [OF Suc.prems(1) j] .
  also have "(?j + k) mod length fc = (i + Suc k) mod length fc"
    by (simp add: mod_add_left_eq)
  finally show ?case .
qed

subsection \<open>Properties of the trap\<close>

text \<open>C6: With a trap list of distinct elements, Tab moves focus from the i-th element to the next one, wrapping from the last to the first, and Shift+Tab to the previous one, wrapping from the first to the last: the trap together with the browser's default navigation implements a cyclic successor on the list.\<close>

theorem trap_cycle:
  assumes "distinct fc" "i < length fc"
  shows "press_tab fc (fc ! i) False = Some (fc ! (Suc i mod length fc)) \<and>
         press_tab fc (fc ! i) True = Some (fc ! ((i + length fc - 1) mod length fc))"
  using press_tab_forward [OF assms] press_tab_backward [OF assms] by simp

theorem trap_cycle_witness:
  "distinct [1, 2, 3 :: eid] \<and> press_tab [1, 2, 3] 3 False = Some 1 \<and> press_tab [1, 2, 3] 1 True = Some 3"
  using trap_cycle [of "[1, 2, 3]" 2] trap_cycle [of "[1, 2, 3]" 0] by simp

text \<open>C13: Trap closure: from any element of a non-repeating list of focusable elements, pressing Tab as many times as the list is long brings focus back to that element.\<close>

theorem trap_closure:
  assumes "distinct fc" "a \<in> set fc"
  shows "press_tab_n (length fc) fc a False = Some a"
proof -
  from assms(2) obtain i where i: "i < length fc" "fc ! i = a" by (auto simp: in_set_conv_nth)
  from press_tab_n_forward [OF assms(1) i(1), of "length fc"] i show ?thesis by simp
qed

theorem trap_closure_witness:
  "distinct [4, 5, 6 :: eid] \<and> (5::eid) \<in> set [4, 5, 6]
   \<and> press_tab_n (length [4, 5, 6 :: eid]) [4, 5, 6] 5 False = Some 5"
  using trap_closure [of "[4, 5, 6]" 5] by (simp del: press_tab_n.simps)

text \<open>C14: trapTabKey throws a TypeError exactly when Tab (without Shift) is pressed and the dialog has no visible focusable element: lastIndex is -1, indexOf of the active element is -1, and focusableChildren[0] is undefined. Shift+Tab on an empty list does nothing.\<close>

theorem trapTabKey_TypeError:
  "trapTabKey dm doc node a shift = Inl TypeError \<longleftrightarrow>
     \<not> shift \<and> getFocusableChildren dm doc node = []"
proof (cases "getFocusableChildren dm doc node = []")
  case True
  then show ?thesis by (simp add: trapTabKey_def trap_list_Nil)
next
  case False
  then obtain act where "trap_list (getFocusableChildren dm doc node) a shift = Inr act"
    using trap_list_nonempty_no_error by blast
  with False show ?thesis by (simp add: trapTabKey_def)
qed

subsection \<open>Properties of the scanner\<close>

text \<open>getFocusableChildren returns exactly the descendants of the root that match one of the focusable selectors and are visible, in document order.\<close>

theorem getFocusableChildren_spec:
  "set (getFocusableChildren dm doc r) =
     {x \<in> set (descendants doc r). sel_matches FOCUSABLE_SELECTORS (dm x) \<and> isVisible dm doc x}
   \<and> subseq (getFocusableChildren dm doc r) (descendants doc r)"
  by (auto simp: getFocusableChildren_def querySelectorAll_def)

text \<open>An element whose tabindex attribute starts with a minus sign is never returned by the scanner.\<close>

theorem neg_tabindex_never_scanned:
  assumes "attrs (dm x) ''tabindex'' = Some v" "prefix ''-'' v"
  shows "x \<notin> set (getFocusableChildren dm doc r)"
  using neg_tabindex_not_focusable [OF assms] by (simp add: getFocusableChildren_def)

theorem neg_tabindex_never_scanned_witness:
  "attrs (demo_neg_dom 3) ''tabindex'' = Some ''-1'' \<and> prefix ''-'' ''-1''
   \<and> (3::eid) \<notin> set (getFocusableChildren demo_neg_dom demo_doc 1)"
  using neg_tabindex_never_scanned [of demo_neg_dom 3 "''-1''" demo_doc 1]
  by (simp add: demo_neg_dom_def)

lemma hidden_root_no_focusable:
  assumes "wf_tree doc" "attrs (dm r) ''hidden'' \<noteq> None"
  shows "getFocusableChildren dm doc r = []"
proof -
  have "\<forall>x \<in> set (querySelectorAll dm doc r FOCUSABLE_SELECTORS). \<not> isVisible dm doc x"
  proof
    fix x
    assume "x \<in> set (querySelectorAll dm doc r FOCUSABLE_SELECTORS)"
    then have "x \<in> set (descendants doc r)" by simp
    from hidden_root_descendants_not_rendered [of doc dm r x, OF assms this]
    show "\<not> isVisible dm doc x" by (rule not_rendered_not_visible)
  qed
  then show ?thesis unfolding getFocusableChildren_def filter_empty_conv by blast
qed

lemma trapTabKey_no_focusable:
  "getFocusableChildren dm doc node = [] \<Longrightarrow> trapTabKey dm doc node a False = Inl TypeError"
  by (simp add: trapTabKey_def trap_list_Nil)

text \<open>C31: In a document with distinct element ids, a dialog root that carries the hidden attribute has no focusable children: nothing below it is rendered, so nothing is visible.\<close>

theorem hidden_dialog_no_focusable:
  assumes "wf_tree doc" "attrs (dm r) ''hidden'' \<noteq> None"
  shows "getFocusableChildren dm doc r = []"
  using assms by (rule hidden_root_no_focusable)

theorem hidden_dialog_no_focusable_witness:
  "wf_tree demo_doc \<and> attrs (set_attr 1 ''hidden'' ''true'' demo_dom 1) ''hidden'' \<noteq> None
   \<and> getFocusableChildren (set_attr 1 ''hidden'' ''true'' demo_dom) demo_doc 1 = []"
  using hidden_dialog_no_focusable [of demo_doc "set_attr 1 ''hidden'' ''true'' demo_dom" 1]
  by (simp add: wf_tree_def demo_doc_def)

text \<open>The scenario of the specification: in a dialog holding an input and a button, Tab on the button moves focus to the input, and Shift+Tab on the input moves it back to the button, both with the default action prevented.\<close>

theorem trap_scenario:
  "trapTabKey demo_dom demo_doc 1 3 False = Inr (FocusAndPrevent 2) \<and>
   trapTabKey demo_dom demo_doc 1 2 True = Inr (FocusAndPrevent 3)"
  by code_simp

end
