(* ===== verification/Dialog.thy ===== *)
theory Dialog
  imports Focus_Trap
begin

text \<open>
  The class \<open>Dialog\<close> of \<^verbatim>\<open>src/accessible-dialog/src/scripts/dialog/index.ts\<close> and
  the page it lives in. The page is a record: the DOM, the focused element, the event
  listeners registered with \<open>addEventListener\<close> (target, type, function object,
  capture flag), the counter that gives every function object created by
  \<open>.bind(this)\<close> an identity of its own, and the log of lifecycle hooks called. The
  dialog object is a record of its fields. Each method is a function from the pair
  (page, dialog) to the new pair; \<open>_show\<close> and \<open>_hide\<close> also return the outcome of
  the promise they await. Hooks are identified by a number (their function object);
  whether a hook's promise resolves is a parameter \<open>ok\<close> of the model.
\<close>

subsection \<open>The page\<close>

datatype fn_ref = BoundShow | BoundHide | BoundKeyDown nat | BoundMaintainFocus nat

datatype ev_target = DocumentT | BodyT | ElementT eid

type_synonym listener = "ev_target \<times> string \<times> fn_ref \<times> bool"
type_synonym hook = nat

record page =
  p_dom :: dom
  p_doc :: tree
  activeElement :: eid
  listeners :: "listener list"
  next_fn :: nat
  hook_calls :: "hook list"

datatype promise = Resolved | Rejected

text \<open>
  A focusable area, for \<open>HTMLElement.focus()\<close>: a rendered element that has a
  \<open>tabindex\<close> or is one of the natively focusable elements.
\<close>

definition focusable_area :: "dom \<Rightarrow> tree \<Rightarrow> eid \<Rightarrow> bool" where
  "focusable_area dm doc x =
     (rendered dm doc x \<and> (attrs (dm x) ''tabindex'' \<noteq> None \<or> sel_matches FOCUSABLE_SELECTORS (dm x)))"

definition focus :: "eid \<Rightarrow> page \<Rightarrow> page" where
  "focus x p = (if focusable_area (p_dom p) (p_doc p) x then p\<lparr>activeElement := x\<rparr> else p)"

text \<open>\<open>addEventListener\<close> adds nothing when the same (type, callback, capture) is there.\<close>

definition addEventListener :: "ev_target \<Rightarrow> string \<Rightarrow> fn_ref \<Rightarrow> bool \<Rightarrow> page \<Rightarrow> page" where
  "addEventListener t ty f c p =
     (if (t, ty, f, c) \<in> set (listeners p) then p else p\<lparr>listeners := listeners p @ [(t, ty, f, c)]\<rparr>)"

definition removeEventListener :: "ev_target \<Rightarrow> string \<Rightarrow> fn_ref \<Rightarrow> bool \<Rightarrow> page \<Rightarrow> page" where
  "removeEventListener t ty f c p = p\<lparr>listeners := remove1 (t, ty, f, c) (listeners p)\<rparr>"

text \<open>\<open>f.bind(this)\<close> creates a new function object each time it runs.\<close>

definition bind_fn :: "page \<Rightarrow> nat \<times> page" where
  "bind_fn p = (next_fn p, p\<lparr>next_fn := Suc (next_fn p)\<rparr>)"

definition setAttribute :: "eid \<Rightarrow> string \<Rightarrow> string \<Rightarrow> page \<Rightarrow> page" where
  "setAttribute x a v p = p\<lparr>p_dom := set_attr x a v (p_dom p)\<rparr>"

definition removeAttribute :: "eid \<Rightarrow> string \<Rightarrow> page \<Rightarrow> page" where
  "removeAttribute x a p = p\<lparr>p_dom := remove_attr x a (p_dom p)\<rparr>"

text \<open>
  \<open>await Promise.all(hooks.map(event => event()))\<close>: every hook is called, in
  order, before anything is awaited; the joint promise rejects when one of them does.
\<close>

definition call_hooks :: "(hook \<Rightarrow> bool) \<Rightarrow> hook list \<Rightarrow> page \<Rightarrow> page \<times> promise" where
  "call_hooks ok hs p =
     (p\<lparr>hook_calls := hook_calls p @ hs\<rparr>, if list_all ok hs then Resolved else Rejected)"

subsection \<open>The dialog object\<close>

datatype TEventType = EvShow | EvHide

record dialog =
  d_element :: eid
  previouslyFocused :: "eid option"
  isShown :: bool
  events_show :: "hook list"
  events_hide :: "hook list"

definition events :: "TEventType \<Rightarrow> dialog \<Rightarrow> hook list" where
  "events t d = (case t of EvShow \<Rightarrow> events_show d | EvHide \<Rightarrow> events_hide d)"

definition set_events :: "TEventType \<Rightarrow> hook list \<Rightarrow> dialog \<Rightarrow> dialog" where
  "set_events t hs d = (case t of EvShow \<Rightarrow> d\<lparr>events_show := hs\<rparr> | EvHide \<Rightarrow> d\<lparr>events_hide := hs\<rparr>)"

definition closers :: "page \<Rightarrow> eid \<Rightarrow> eid list" where
  "closers p e = querySelectorAll (p_dom p) (p_doc p) e [[HasAttr ''data-dialog-hide'']]"

definition Dialog_new :: "eid \<Rightarrow> page \<Rightarrow> page \<times> dialog" where
  "Dialog_new e p =
     (let p1 = setAttribute e ''hidden'' ''true'' p;
          p2 = setAttribute e ''role'' ''dialog'' p1;
          p3 = setAttribute e ''aria-modal'' ''true'' p2;
          p4 = fold (\<lambda>c. addEventListener (ElementT c) ''click'' BoundHide False) (closers p3 e) p3
      in (p4, \<lparr>d_element = e, previouslyFocused = None, isShown = False,
               events_show = [], events_hide = []\<rparr>))"

definition on_event :: "TEventType \<Rightarrow> hook \<Rightarrow> dialog \<Rightarrow> dialog" where
  "on_event t fn d = set_events t (events t d @ [fn]) d"

definition off :: "TEventType \<Rightarrow> hook \<Rightarrow> dialog \<Rightarrow> dialog" where
  "off t fn d =
     (let index = js_indexOf (events t d) fn
      in if index > -1 then set_events t (js_splice1 (events t d) (nat index)) d else d)"

text \<open>
  \<open>arr.forEach(event => this.off(t, event))\<close> while \<open>off\<close> splices \<open>arr\<close>:
  \<open>forEach\<close> fixes the number of iterations to the initial length and visits index
  \<open>k\<close> only while \<open>k\<close> is still below the current length.
\<close>

fun off_each :: "TEventType \<Rightarrow> nat \<Rightarrow> nat \<Rightarrow> dialog \<Rightarrow> dialog" where
  "off_each t k 0 d = d"
| "off_each t k (Suc n) d =
     (if k < length (events t d) then off_each t (Suc k) n (off t (events t d ! k) d)
      else off_each t (Suc k) n d)"

definition destroy :: "page \<times> dialog \<Rightarrow> page \<times> dialog" where
  "destroy s =
     (let (p, d) = s;
          p1 = fold (\<lambda>c. removeEventListener (ElementT c) ''click'' BoundHide False)
                 (closers p (d_element d)) p;
          d1 = off_each EvShow 0 (length (events_show d)) d;
          d2 = off_each EvHide 0 (length (events_hide d1)) d1
      in (p1, d2))"

definition moveFocusIn :: "dialog \<Rightarrow> page \<Rightarrow> page" where
  "moveFocusIn d p =
     (let target =
        (case querySelector (p_dom p) (p_doc p) (d_element d) [[HasAttr ''autofocus'']] of
           Some a \<Rightarrow> Some a
         | None \<Rightarrow> js_get (getFocusableChildren (p_dom p) (p_doc p) (d_element d)) 0)
      in case target of None \<Rightarrow> p | Some x \<Rightarrow> focus x p)"

definition show_dialog :: "(hook \<Rightarrow> bool) \<Rightarrow> page \<times> dialog \<Rightarrow> (page \<times> dialog) \<times> promise" where
  "show_dialog ok s =
     (let (p, d) = s;
          d1 = d\<lparr>previouslyFocused := Some (activeElement p)\<rparr>;
          d2 = d1\<lparr>isShown := True\<rparr>;
          p1 = removeAttribute (d_element d2) ''hidden'' p;
          (k1, p2) = bind_fn p1;
          p3 = addEventListener DocumentT ''keydown'' (BoundKeyDown k1) False p2;
          (k2, p4) = bind_fn p3;
          p5 = addEventListener BodyT ''focus'' (BoundMaintainFocus k2) True p4;
          p6 = moveFocusIn d2 p5;
          (p7, r) = call_hooks ok (events_show d2) p6
      in ((p7, d2), r))"

definition hide_dialog :: "(hook \<Rightarrow> bool) \<Rightarrow> page \<times> dialog \<Rightarrow> (page \<times> dialog) \<times> promise" where
  "hide_dialog ok s =
     (let (p, d) = s;
          d1 = d\<lparr>isShown := False\<rparr>;
          p1 = setAttribute (d_element d1) ''hidden'' ''true'' p;
          (k1, p2) = bind_fn p1;
          p3 = removeEventListener DocumentT ''keydown'' (BoundKeyDown k1) False p2;
          (k2, p4) = bind_fn p3;
          p5 = removeEventListener BodyT ''focus'' (BoundMaintainFocus k2) True p4;
          p6 = (case previouslyFocused d1 of None \<Rightarrow> p5 | Some x \<Rightarrow> focus x p5);
          (p7, r) = call_hooks ok (events_hide d1) p6
      in ((p7, d1), r))"

text \<open>
  \<open>_handleKeyDown\<close>: Escape calls \<open>hide()\<close> (its promise is dropped), Tab runs the
  trap. The result also says whether the listener threw and whether it called
  \<open>preventDefault\<close>.
\<close>

definition handleKeyDown ::
  "(hook \<Rightarrow> bool) \<Rightarrow> string \<Rightarrow> bool \<Rightarrow> page \<times> dialog \<Rightarrow> (page \<times> dialog) \<times> js_error option \<times> bool" where
  "handleKeyDown ok key shiftKey s =
     (if key = ''Escape'' then (fst (hide_dialog ok s), None, False)
      else if key = ''Tab'' then
        (let (p, d) = s in
         case trapTabKey (p_dom p) (p_doc p) (d_element d) (activeElement p) shiftKey of
           Inl err \<Rightarrow> (s, Some err, False)
         | Inr NoAction \<Rightarrow> (s, None, False)
         | Inr (FocusAndPrevent x) \<Rightarrow> ((focus x p, d), None, True))
      else (s, None, False))"

definition maintainFocus :: "eid \<Rightarrow> page \<times> dialog \<Rightarrow> page \<times> dialog" where
  "maintainFocus target s =
     (let (p, d) = s in
      case closest (p_dom p) (p_doc p) [[AttrEq ''aria-modal'' ''true'']] target of
        None \<Rightarrow> (moveFocusIn d p, d)
      | Some _ \<Rightarrow> s)"

subsection \<open>Event dispatch\<close>

text \<open>
  A keydown event reaches the listeners registered on the document for \<open>keydown\<close>, in
  registration order; a listener removed meanwhile is skipped. An exception thrown by a
  listener is reported and dispatch goes on.
\<close>

definition is_doc_keydown :: "listener \<Rightarrow> bool" where
  "is_doc_keydown l = (case l of (t, ty, f, c) \<Rightarrow> t = DocumentT \<and> ty = ''keydown'')"

fun dispatch_keydown ::
  "(hook \<Rightarrow> bool) \<Rightarrow> string \<Rightarrow> bool \<Rightarrow> listener list \<Rightarrow> page \<times> dialog
     \<Rightarrow> (page \<times> dialog) \<times> js_error list \<times> bool" where
  "dispatch_keydown ok key sh [] s = (s, [], False)"
| "dispatch_keydown ok key sh (l # ls) s =
     (if is_doc_keydown l \<and> l \<in> set (listeners (fst s)) then
        (let (s1, e1, pr1) = handleKeyDown ok key sh s;
             (s2, es, pr2) = dispatch_keydown ok key sh ls s1
         in (s2, (case e1 of None \<Rightarrow> [] | Some e \<Rightarrow> [e]) @ es, pr1 \<or> pr2))
      else dispatch_keydown ok key sh ls s)"

definition press_key ::
  "(hook \<Rightarrow> bool) \<Rightarrow> string \<Rightarrow> bool \<Rightarrow> page \<times> dialog \<Rightarrow> (page \<times> dialog) \<times> js_error list \<times> bool" where
  "press_key ok key sh s = dispatch_keydown ok key sh (listeners (fst s)) s"

text \<open>\<^verbatim>\<open>src/accessible-dialog/src/scripts/index.ts\<close>: the page script.\<close>

definition page_main :: "eid \<Rightarrow> eid \<Rightarrow> page \<Rightarrow> page \<times> dialog" where
  "page_main dlg button p =
     (let (p1, d) = Dialog_new dlg p
      in (addEventListener (ElementT button) ''click'' BoundShow False p1, d))"

subsection \<open>Composite runs and a concrete page\<close>

text \<open>
  A client that opens the dialog and closes it again; and the condition that the
  listener identities \<open>.bind\<close> has already handed out are all below its counter.
\<close>

definition show_hide_cycle :: "(hook \<Rightarrow> bool) \<Rightarrow> page \<times> dialog \<Rightarrow> page \<times> dialog" where
  "show_hide_cycle ok s = fst (hide_dialog ok (fst (show_dialog ok s)))"

definition fresh_fn :: "nat \<Rightarrow> fn_ref \<Rightarrow> bool" where
  "fresh_fn n f = (case f of BoundKeyDown k \<Rightarrow> k < n | BoundMaintainFocus k \<Rightarrow> k < n | _ \<Rightarrow> True)"

definition fresh_listeners :: "page \<Rightarrow> bool" where
  "fresh_listeners p = list_all (\<lambda>(t, ty, f, c). fresh_fn (next_fn p) f) (listeners p)"

text \<open>
  A page with an opener button (\<open>4\<close>) and the dialog (\<open>1\<close>) holding an input
  (\<open>2\<close>) and a close button marked \<open>data-dialog-hide\<close> (\<open>3\<close>); the opener has focus.
\<close>

definition demo_page :: page where
  "demo_page =
     \<lparr>p_dom = demo_dom(3 := demo_box\<lparr>tag := Button, attrs := [''data-dialog-hide'' \<mapsto> '''']\<rparr>,
                       4 := demo_box\<lparr>tag := Button\<rparr>),
      p_doc = Node 0 [Node 4 [], Node 1 [Node 2 [], Node 3 []]],
      activeElement = 4, listeners = [], next_fn = 0, hook_calls = []\<rparr>"

definition demo_dialog :: "page \<times> dialog" where
  "demo_dialog = Dialog_new 1 demo_page"

subsection \<open>Field lemmas of the page operations\<close>

named_theorems page_simps "how each page operation changes each field of the page"

lemma focus_fields [page_simps]:
  "p_dom (focus x p) = p_dom p" "p_doc (focus x p) = p_doc p" "listeners (focus x p) = listeners p"
  "next_fn (focus x p) = next_fn p" "hook_calls (focus x p) = hook_calls p"
  by (simp_all add: focus_def)

lemma moveFocusIn_fields [page_simps]:
  "p_dom (moveFocusIn d p) = p_dom p" "p_doc (moveFocusIn d p) = p_doc p"
  "listeners (moveFocusIn d p) = listeners p" "next_fn (moveFocusIn d p) = next_fn p"
  "hook_calls (moveFocusIn d p) = hook_calls p"
  by (simp_all add: moveFocusIn_def Let_def page_simps split: option.splits)

lemma add_remove_fields [page_simps]:
  "p_dom (addEventListener t ty f c p) = p_dom p" "p_doc (addEventListener t ty f c p) = p_doc p"
  "activeElement (addEventListener t ty f c p) = activeElement p"
  "next_fn (addEventListener t ty f c p) = next_fn p"
  "hook_calls (addEventListener t ty f c p) = hook_calls p"
  "p_dom (removeEventListener t ty f c p) = p_dom p" "p_doc (removeEventListener t ty f c p) = p_doc p"
  "activeElement (removeEventListener t ty f c p) = activeElement p"
  "next_fn (removeEventListener t ty f c p) = next_fn p"
  "hook_calls (removeEventListener t ty f c p) = hook_calls p"
  "listeners (removeEventListener t ty f c p) = remove1 (t, ty, f, c) (listeners p)"
  by (simp_all add: addEventListener_def removeEventListener_def)

lemma attribute_fields [page_simps]:
  "p_dom (setAttribute x a v p) = set_attr x a v (p_dom p)"
  "p_dom (removeAttribute x a p) = remove_attr x a (p_dom p)"
  by (simp_all add: setAttribute_def removeAttribute_def)

lemma removeAttribute_fields [page_simps]:
  "p_doc (removeAttribute x a p) = p_doc p" "activeElement (removeAttribute x a p) = activeElement p"
  "listeners (removeAttribute x a p) = listeners p" "next_fn (removeAttribute x a p) = next_fn p"
  "hook_calls (removeAttribute x a p) = hook_calls p"
  "p_doc (setAttribute x a v p) = p_doc p" "activeElement (setAttribute x a v p) = activeElement p"
  "listeners (setAttribute x a v p) = listeners p" "next_fn (setAttribute x a v p) = next_fn p"
  "hook_calls (setAttribute x a v p) = hook_calls p"
  by (simp_all add: removeAttribute_def setAttribute_def)

lemma call_hooks_fields [page_simps]:
  "p_dom (fst (call_hooks ok hs p)) = p_dom p" "p_doc (fst (call_hooks ok hs p)) = p_doc p"
  "activeElement (fst (call_hooks ok hs p)) = activeElement p"
  "listeners (fst (call_hooks ok hs p)) = listeners p" "next_fn (fst (call_hooks ok hs p)) = next_fn p"
  "hook_calls (fst (call_hooks ok hs p)) = hook_calls p @ hs"
  "snd (call_hooks ok hs p) = (if list_all ok hs then Resolved else Rejected)"
  by (simp_all add: call_hooks_def)

lemma show_dialog_unfold:
  "show_dialog ok (p, d) =
     (let d2 = d\<lparr>previouslyFocused := Some (activeElement p), isShown := True\<rparr>;
          p3 = addEventListener DocumentT ''keydown'' (BoundKeyDown (next_fn p)) False
                 ((removeAttribute (d_element d) ''hidden'' p)\<lparr>next_fn := Suc (next_fn p)\<rparr>);
          p5 = addEventListener BodyT ''focus'' (BoundMaintainFocus (Suc (next_fn p))) True
                 (p3\<lparr>next_fn := Suc (Suc (next_fn p))\<rparr>);
          p6 = moveFocusIn d2 p5
      in ((fst (call_hooks ok (events_show d) p6), d2), snd (call_hooks ok (events_show d) p6)))"
  by (simp add: show_dialog_def bind_fn_def split_def Let_def page_simps)

lemma hide_dialog_unfold:
  "hide_dialog ok (p, d) =
     (let d1 = d\<lparr>isShown := False\<rparr>;
          p3 = removeEventListener DocumentT ''keydown'' (BoundKeyDown (next_fn p)) False
                 ((setAttribute (d_element d) ''hidden'' ''true'' p)\<lparr>next_fn := Suc (next_fn p)\<rparr>);
          p5 = removeEventListener BodyT ''focus'' (BoundMaintainFocus (Suc (next_fn p))) True
                 (p3\<lparr>next_fn := Suc (Suc (next_fn p))\<rparr>);
          p6 = (case previouslyFocused d of None \<Rightarrow> p5 | Some x \<Rightarrow> focus x p5)
      in ((fst (call_hooks ok (events_hide d) p6), d1), snd (call_hooks ok (events_hide d) p6)))"
  by (cases "previouslyFocused d") (simp_all add: hide_dialog_def bind_fn_def split_def Let_def page_simps)

subsection \<open>Hook registries: on, off, destroy\<close>

lemma events_set_events [simp]: "events t (set_events t hs d) = hs"
  by (cases t) (simp_all add: events_def set_events_def)

lemma events_set_events_other [simp]: "t' \<noteq> t \<Longrightarrow> events t' (set_events t hs d) = events t' d"
  by (cases t; cases t') (simp_all add: events_def set_events_def)

lemma set_events_twice [simp]: "set_events t a (set_events t b d) = set_events t a d"
  by (cases t) (simp_all add: set_events_def)

lemma set_events_same [simp]: "set_events t (events t d) d = d"
  by (cases t) (simp_all add: events_def set_events_def)

lemma set_events_fields [simp]:
  "d_element (set_events t hs d) = d_element d" "isShown (set_events t hs d) = isShown d"
  "previouslyFocused (set_events t hs d) = previouslyFocused d"
  by (cases t; simp add: set_events_def)+

lemma events_show_hide [simp]: "events EvShow d = events_show d" "events EvHide d = events_hide d"
  by (simp_all add: events_def)

lemma set_events_same_show_hide [simp]:
  "set_events EvShow (events_show d) d = d" "set_events EvHide (events_hide d) d = d"
  by (simp_all add: set_events_def)

lemma off_append_notin:
  "x \<notin> set ys \<Longrightarrow> off t x (set_events t (ys @ x # zs) d) = set_events t (ys @ zs) d"
  by (simp add: off_def js_indexOf_append_notin)

lemma off_present_length:
  "x \<in> set (events t d) \<Longrightarrow> length (events t (off t x d)) = length (events t d) - 1"
  using js_indexOf_found [of x "events t d"] by (auto simp: off_def Let_def)

lemma off_other_fields:
  "t' \<noteq> t \<Longrightarrow> events t' (off t x d) = events t' d"
  "d_element (off t x d) = d_element d" "isShown (off t x d) = isShown d"
  "previouslyFocused (off t x d) = previouslyFocused d"
  by (simp_all add: off_def Let_def)

lemma off_each_other_fields:
  "t' \<noteq> t \<Longrightarrow> events t' (off_each t k n d) = events t' d"
  "d_element (off_each t k n d) = d_element d" "isShown (off_each t k n d) = isShown d"
  "previouslyFocused (off_each t k n d) = previouslyFocused d"
  by (induction t k n d rule: off_each.induct) (simp_all add: off_other_fields)

lemma off_each_beyond: "length (events t d) \<le> k \<Longrightarrow> off_each t k n d = d"
  by (induction t k n d rule: off_each.induct) simp_all

lemma off_each_length:
  "length (events t (off_each t k n d)) =
     length (events t d) - min n ((length (events t d) - k + 1) div 2)"
proof (induction t k n d rule: off_each.induct)
  case (1 t k d)
  then show ?case by simp
next
  case (2 t k n d)
  let ?L = "length (events t d)"
  show ?case
  proof (cases "k < ?L")
    case True
    have mem: "events t d ! k \<in> set (events t d)" using True by simp
    have len: "length (events t (off t (events t d ! k) d)) = ?L - 1"
      using off_present_length [OF mem] .
    have "(?L - k + 1) div 2 = Suc ((?L - 1 - Suc k + 1) div 2)" using True by presburger
    then show ?thesis using True "2.IH"(1) len by (simp add: min_def)
  next
    case False
    then show ?thesis using "2.IH"(2) by (simp add: off_each_beyond)
  qed
qed

lemma off_each_distinct:
  "distinct (ys @ zs) \<Longrightarrow> (length zs + 1) div 2 \<le> n \<Longrightarrow>
     events t (off_each t (length ys) n (set_events t (ys @ zs) d)) = ys @ every_second zs"
proof (induction zs arbitrary: ys n rule: every_second.induct)
  case 1
  then show ?case by (simp add: off_each_beyond)
next
  case (2 z)
  then obtain m where n: "n = Suc m" by (cases n) auto
  from "2.prems" have "z \<notin> set ys" by auto
  with off_append_notin [of z ys t "[]" d] n show ?case by (simp add: off_each_beyond)
next
  case (3 z1 z2 zs)
  then obtain m where n: "n = Suc m" by (cases n) auto
  from "3.prems" have z1: "z1 \<notin> set ys" by auto
  have step: "off t z1 (set_events t (ys @ z1 # z2 # zs) d) = set_events t ((ys @ [z2]) @ zs) d"
    using off_append_notin [OF z1, of t "z2 # zs" d] by simp
  have ih: "events t (off_each t (length (ys @ [z2])) m (set_events t ((ys @ [z2]) @ zs) d))
      = (ys @ [z2]) @ every_second zs"
    using "3.prems" n by (intro "3.IH") auto
  from step ih n show ?case by (simp add: nth_append)
qed

lemma focusable_area_frame:
  assumes "path_to y doc = Some q" "x \<notin> set q"
  shows "focusable_area (dm(x := el)) doc y = focusable_area dm doc y"
proof -
  have "y \<in> set q" using assms(1) by (rule path_to_last)
  with assms(2) have "y \<noteq> x" by auto
  with rendered_frame [OF assms] show ?thesis by (simp add: focusable_area_def)
qed

lemma show_hide_cycle_listeners:
  assumes "fresh_listeners p"
  shows "listeners (fst (show_hide_cycle ok (p, d))) =
           listeners p @ [(DocumentT, ''keydown'', BoundKeyDown (next_fn p), False),
                          (BodyT, ''focus'', BoundMaintainFocus (Suc (next_fn p)), True)]
         \<and> next_fn (fst (show_hide_cycle ok (p, d))) = next_fn p + 4
         \<and> fresh_listeners (fst (show_hide_cycle ok (p, d)))"
proof -
  let ?n = "next_fn p"
  have kd: "(DocumentT, ''keydown'', BoundKeyDown k, False) \<notin> set (listeners p)" if "?n \<le> k" for k
    using assms that by (auto simp: fresh_listeners_def fresh_fn_def list_all_iff)
  have mf: "(BodyT, ''focus'', BoundMaintainFocus k, True) \<notin> set (listeners p)" if "?n \<le> k" for k
    using assms that by (auto simp: fresh_listeners_def fresh_fn_def list_all_iff)
  have L: "listeners (fst (show_hide_cycle ok (p, d))) =
           listeners p @ [(DocumentT, ''keydown'', BoundKeyDown ?n, False),
                          (BodyT, ''focus'', BoundMaintainFocus (Suc ?n), True)]"
    using kd [of ?n] mf [of "Suc ?n"] kd [of "Suc (Suc ?n)"] mf [of "Suc (Suc (Suc ?n))"]
    by (auto simp: show_hide_cycle_def show_dialog_unfold hide_dialog_unfold Let_def page_simps
        addEventListener_def remove1_idem split: option.splits)
  have N: "next_fn (fst (show_hide_cycle ok (p, d))) = ?n + 4"
    by (simp add: show_hide_cycle_def show_dialog_unfold hide_dialog_unfold Let_def page_simps
        addEventListener_def split: option.splits)
  have "fresh_fn (?n + 4) f" if "fresh_fn ?n f" for f
    using that by (simp add: fresh_fn_def split: fn_ref.splits)
  with assms have "fresh_listeners (fst (show_hide_cycle ok (p, d)))"
    unfolding fresh_listeners_def L N by (auto simp: list_all_iff fresh_fn_def)
  with L N show ?thesis by simp
qed

lemma moveFocusIn_active:
  "activeElement (moveFocusIn d p) =
     (case (case querySelector (p_dom p) (p_doc p) (d_element d) [[HasAttr ''autofocus'']] of
              Some a \<Rightarrow> Some a
            | None \<Rightarrow> js_get (getFocusableChildren (p_dom p) (p_doc p) (d_element d)) 0) of
        None \<Rightarrow> activeElement p
      | Some x \<Rightarrow> if focusable_area (p_dom p) (p_doc p) x then x else activeElement p)"
  by (simp add: moveFocusIn_def Let_def focus_def split: option.split)

lemma moveFocusIn_inside:
  assumes "activeElement (moveFocusIn d p) \<noteq> activeElement p"
  shows "activeElement (moveFocusIn d p) \<in> set (descendants (p_doc p) (d_element d))"
proof -
  let ?q = "querySelector (p_dom p) (p_doc p) (d_element d) [[HasAttr ''autofocus'']]"
  let ?g = "getFocusableChildren (p_dom p) (p_doc p) (d_element d)"
  have g: "x \<in> set (descendants (p_doc p) (d_element d))" if "js_get ?g 0 = Some x" for x
  proof -
    from that have "x \<in> set ?g" by (auto simp: js_get_def intro: nth_mem split: if_splits)
    then show ?thesis by (simp add: getFocusableChildren_def)
  qed
  show ?thesis
    using assms querySelector_first [of "p_dom p" "p_doc p" "d_element d"] g
    by (auto simp: moveFocusIn_active split: option.splits if_splits)
qed

lemma focus_stays: "activeElement p = x \<Longrightarrow> activeElement (focus x p) = x"
  by (simp add: focus_def)

lemma remove_attr_twice [simp]: "remove_attr x a (remove_attr x a dm) = remove_attr x a dm"
  by (simp add: remove_attr_def)

lemma show_hide_cycle_shape:
  "d_element (snd (show_hide_cycle ok s)) = d_element (snd s) \<and> \<not> isShown (snd (show_hide_cycle ok s)) \<and>
   events_hide (snd (show_hide_cycle ok s)) = events_hide (snd s) \<and>
   p_doc (fst (show_hide_cycle ok s)) = p_doc (fst s) \<and>
   attrs (p_dom (fst (show_hide_cycle ok s)) (d_element (snd s))) ''hidden'' = Some ''true''"
  by (cases s) (simp add: show_hide_cycle_def show_dialog_unfold hide_dialog_unfold Let_def page_simps
      split: option.split)

lemma cycles_shape:
  "0 < n \<Longrightarrow> d_element (snd ((show_hide_cycle ok ^^ n) s)) = d_element (snd s) \<and>
   \<not> isShown (snd ((show_hide_cycle ok ^^ n) s)) \<and>
   events_hide (snd ((show_hide_cycle ok ^^ n) s)) = events_hide (snd s) \<and>
   p_doc (fst ((show_hide_cycle ok ^^ n) s)) = p_doc (fst s) \<and>
   attrs (p_dom (fst ((show_hide_cycle ok ^^ n) s)) (d_element (snd s))) ''hidden'' = Some ''true''"
proof (induction n)
  case (Suc n)
  show ?case
  proof (cases n)
    case 0
    then show ?thesis using show_hide_cycle_shape [of ok s] by simp
  next
    case (Suc m)
    with Suc.IH have "d_element (snd ((show_hide_cycle ok ^^ n) s)) = d_element (snd s)"
      "p_doc (fst ((show_hide_cycle ok ^^ n) s)) = p_doc (fst s)"
      "events_hide (snd ((show_hide_cycle ok ^^ n) s)) = events_hide (snd s)" by simp_all
    with show_hide_cycle_shape [of ok "(show_hide_cycle ok ^^ n) s"] show ?thesis by simp
  qed
qed simp

lemma cycles_listeners:
  assumes "fresh_listeners p"
  shows "fresh_listeners (fst ((show_hide_cycle ok ^^ n) (p, d))) \<and>
    length (filter is_doc_keydown (listeners (fst ((show_hide_cycle ok ^^ n) (p, d))))) =
      length (filter is_doc_keydown (listeners p)) + n"
proof (induction n)
  case 0
  then show ?case using assms by simp
next
  case (Suc n)
  obtain p' d' where eq: "(show_hide_cycle ok ^^ n) (p, d) = (p', d')" by fastforce
  with Suc have "fresh_listeners p'"
    and len: "length (filter is_doc_keydown (listeners p')) = length (filter is_doc_keydown (listeners p)) + n"
    by simp_all
  have "is_doc_keydown (DocumentT, ''keydown'', BoundKeyDown (next_fn p'), False)"
    and "\<not> is_doc_keydown (BodyT, ''focus'', BoundMaintainFocus (Suc (next_fn p')), True)"
    by (simp_all add: is_doc_keydown_def)
  with show_hide_cycle_listeners [of p' ok d'] eq len \<open>fresh_listeners p'\<close> show ?case by simp
qed

text \<open>A key whose handler throws without changing the state makes every registered keydown listener of the document throw in turn.\<close>

lemma dispatch_keydown_throws:
  assumes "handleKeyDown ok key sh s = (s, Some e, False)"
  shows "dispatch_keydown ok key sh ls s =
    (s, replicate (length (filter (\<lambda>l. is_doc_keydown l \<and> l \<in> set (listeners (fst s))) ls)) e, False)"
  using assms by (induction ls) simp_all

lemma hide_dialog_fresh:
  assumes "fresh_listeners p"
  shows "listeners (fst (fst (hide_dialog ok (p, d)))) = listeners p \<and>
    fresh_listeners (fst (fst (hide_dialog ok (p, d)))) \<and>
    hook_calls (fst (fst (hide_dialog ok (p, d)))) = hook_calls p @ events_hide d \<and>
    events_hide (snd (fst (hide_dialog ok (p, d)))) = events_hide d"
proof -
  have kd: "(DocumentT, ''keydown'', BoundKeyDown (next_fn p), False) \<notin> set (listeners p)"
    and mf: "(BodyT, ''focus'', BoundMaintainFocus (Suc (next_fn p)), True) \<notin> set (listeners p)"
    using assms by (auto simp: fresh_listeners_def fresh_fn_def list_all_iff)
  have L: "listeners (fst (fst (hide_dialog ok (p, d)))) = listeners p"
    and N: "next_fn (fst (fst (hide_dialog ok (p, d)))) = next_fn p + 2"
    using kd mf by (simp_all add: hide_dialog_unfold Let_def page_simps remove1_idem split: option.split)
  have "fresh_fn (next_fn p + 2) f" if "fresh_fn (next_fn p) f" for f
    using that by (simp add: fresh_fn_def split: fn_ref.splits)
  with assms have "fresh_listeners (fst (fst (hide_dialog ok (p, d))))"
    unfolding fresh_listeners_def L N by (auto simp: list_all_iff)
  with L show ?thesis by (simp add: hide_dialog_unfold Let_def page_simps split: option.split)
qed

text \<open>Escape makes every registered keydown listener of the document run hide(), each calling the hide hooks again.\<close>

lemma dispatch_escape_hides:
  assumes "fresh_listeners p"
  shows "hook_calls (fst (fst (dispatch_keydown ok ''Escape'' sh ls (p, d)))) =
    hook_calls p @ concat (replicate (length (filter (\<lambda>l. is_doc_keydown l \<and> l \<in> set (listeners p)) ls))
                                    (events_hide d))"
  using assms
proof (induction ls arbitrary: p d)
  case (Cons l ls)
  obtain p' d' where h: "fst (hide_dialog ok (p, d)) = (p', d')" by fastforce
  from hide_dialog_fresh [OF Cons.prems, of ok d] h
  have "listeners p' = listeners p" "fresh_listeners p'" "hook_calls p' = hook_calls p @ events_hide d"
    "events_hide d' = events_hide d" by simp_all
  with Cons.IH [of p' d'] Cons.IH [of p d] Cons.prems h show ?case
    by (auto simp: handleKeyDown_def split_def replicate_append_same)
qed simp

subsection \<open>Properties of the dialog\<close>

text \<open>C1: Focus restoration: when the element focused before show() is a focusable area outside the dialog, a full show() then hide() cycle puts focus back on it.\<close>

theorem show_hide_restores_focus:
  assumes "focusable_area (p_dom p) (p_doc p) (activeElement p)"
    and "path_to (activeElement p) (p_doc p) = Some q" and "d_element d \<notin> set q"
  shows "activeElement (fst (show_hide_cycle ok (p, d))) = activeElement p"
proof -
  let ?E = "activeElement p" and ?x = "d_element d"
  obtain p1 d1 where s1: "fst (show_dialog ok (p, d)) = (p1, d1)"
    by (cases "fst (show_dialog ok (p, d))")
  have d1: "previouslyFocused d1 = Some ?E" "d_element d1 = ?x"
    using s1 by (auto simp: show_dialog_unfold Let_def)
  have dom1: "p_dom p1 = remove_attr ?x ''hidden'' (p_dom p)" and doc1: "p_doc p1 = p_doc p"
    using s1 by (auto simp: show_dialog_unfold Let_def page_simps)
  have "set_attr ?x ''hidden'' ''true'' (p_dom p1) =
          (p_dom p)(?x := (p_dom p ?x)\<lparr>attrs := (attrs (p_dom p ?x))(''hidden'' \<mapsto> ''true'')\<rparr>)"
    by (simp add: dom1 set_attr_def remove_attr_def)
  with focusable_area_frame [OF assms(2,3)] assms(1) doc1
  have "focusable_area (set_attr ?x ''hidden'' ''true'' (p_dom p1)) (p_doc p1) ?E" by simp
  then show ?thesis using s1 d1
    by (simp add: show_hide_cycle_def hide_dialog_unfold Let_def page_simps focus_def)
qed

theorem show_hide_restores_focus_witness:
  "focusable_area (p_dom (fst demo_dialog)) (p_doc (fst demo_dialog)) (activeElement (fst demo_dialog))
   \<and> path_to (activeElement (fst demo_dialog)) (p_doc (fst demo_dialog)) = Some [0, 4]
   \<and> d_element (snd demo_dialog) \<notin> set [0, 4]
   \<and> activeElement (fst (show_hide_cycle (\<lambda>_. True) demo_dialog)) = activeElement (fst demo_dialog)"
proof -
  have h1: "focusable_area (p_dom (fst demo_dialog)) (p_doc (fst demo_dialog)) (activeElement (fst demo_dialog))"
    by code_simp
  have h2: "path_to (activeElement (fst demo_dialog)) (p_doc (fst demo_dialog)) = Some [0, 4]"
    by code_simp
  have h3: "d_element (snd demo_dialog) \<notin> set [0, 4]" by code_simp
  from show_hide_restores_focus [OF h1 h2 h3, of "\<lambda>_. True"] h1 h2 h3 show ?thesis by simp
qed

text \<open>C2: Listener leak: every show() then hide() cycle leaves one more keydown listener on the document, because hide() removes a freshly bound function that was never added; after n cycles there are n of them, never none.\<close>

theorem listener_leak:
  assumes "fresh_listeners p"
  shows "length (filter is_doc_keydown (listeners (fst ((show_hide_cycle ok ^^ n) (p, d))))) =
           length (filter is_doc_keydown (listeners p)) + n"
  using cycles_listeners [OF assms] by simp

theorem listener_leak_witness:
  "fresh_listeners (fst demo_dialog) \<and>
   length (filter is_doc_keydown (listeners (fst ((show_hide_cycle (\<lambda>_. True) ^^ 3) demo_dialog)))) = 3"
proof -
  have h: "fresh_listeners (fst demo_dialog)" by code_simp
  have z: "length (filter is_doc_keydown (listeners (fst demo_dialog))) = 0" by code_simp
  from listener_leak [OF h, where ok = "\<lambda>_. True" and n = 3 and d = "snd demo_dialog"] h z
  show ?thesis by simp
qed

text \<open>C25: show() calls every registered show hook once, in registration order, and sets the dialog shown whatever the hooks do; the promise it returns rejects exactly when one of the hooks rejects, so a hook failure reaches the caller of show().\<close>

theorem show_hooks_outcome:
  "hook_calls (fst (fst (show_dialog ok (p, d)))) = hook_calls p @ events_show d
   \<and> isShown (snd (fst (show_dialog ok (p, d))))
   \<and> (snd (show_dialog ok (p, d)) = Rejected \<longleftrightarrow> \<not> list_all ok (events_show d))"
  by (simp add: show_dialog_unfold Let_def page_simps)

text \<open>C23: destroy() leaves half of each hook registry in place (rounded down): its forEach over the registry calls off(), which splices the array being iterated, so every second hook is skipped.\<close>

theorem destroy_leaves_half:
  "length (events_show (snd (destroy (p, d)))) = length (events_show d) div 2 \<and>
   length (events_hide (snd (destroy (p, d)))) = length (events_hide d) div 2"
proof -
  let ?d1 = "off_each EvShow 0 (length (events_show d)) d"
  have eq: "snd (destroy (p, d)) = off_each EvHide 0 (length (events_hide ?d1)) ?d1"
    by (simp add: destroy_def Let_def)
  have h1: "events_hide ?d1 = events_hide d"
    using off_each_other_fields(1) [of EvHide EvShow 0 "length (events_show d)" d] by simp
  have s: "events_show (snd (destroy (p, d))) = events_show ?d1"
    using off_each_other_fields(1) [of EvShow EvHide 0 "length (events_hide ?d1)" ?d1] eq by simp
  have half: "n - min n ((n - 0 + 1) div 2) = n div 2" for n :: nat by presburger
  show ?thesis
    using off_each_length [of EvShow 0 "length (events_show d)" d]
      off_each_length [of EvHide 0 "length (events_hide d)" ?d1] eq h1 s half by simp
qed

text \<open>C24: For registries without repeated hooks, destroy() leaves exactly the hooks at odd positions (the second, the fourth, ...).\<close>

theorem destroy_every_second:
  assumes "distinct (events_show d)" "distinct (events_hide d)"
  shows "events_show (snd (destroy (p, d))) = every_second (events_show d) \<and>
         events_hide (snd (destroy (p, d))) = every_second (events_hide d)"
proof -
  have le: "(n + 1) div 2 \<le> n" for n :: nat by presburger
  let ?d1 = "off_each EvShow 0 (length (events_show d)) d"
  have s1: "events_show ?d1 = every_second (events_show d)"
    using off_each_distinct [of "[]" "events_show d" "length (events_show d)" EvShow d] assms(1) le by simp
  have h1: "events_hide ?d1 = events_hide d"
    using off_each_other_fields(1) [of EvHide EvShow 0 "length (events_show d)" d] by simp
  have dh: "distinct (events_hide ?d1)" using h1 assms(2) by simp
  have h2: "events_hide (off_each EvHide 0 (length (events_hide ?d1)) ?d1) = every_second (events_hide ?d1)"
    using off_each_distinct [of "[]" "events_hide ?d1" "length (events_hide ?d1)" EvHide ?d1] dh le
    by simp
  have s2: "events_show (off_each EvHide 0 (length (events_hide ?d1)) ?d1) = events_show ?d1"
    using off_each_other_fields(1) [of EvShow EvHide 0 "length (events_hide ?d1)" ?d1] by simp
  show ?thesis using s1 h1 h2 s2 by (simp add: destroy_def Let_def)
qed

theorem destroy_every_second_witness:
  "distinct [1, 2, 3, 4, 5 :: hook] \<and> distinct ([] :: hook list) \<and>
   events_show (snd (destroy (fst demo_dialog, (snd demo_dialog)\<lparr>events_show := [1, 2, 3, 4, 5]\<rparr>))) = [2, 4]"
  using destroy_every_second [of "(snd demo_dialog)\<lparr>events_show := [1, 2, 3, 4, 5]\<rparr>" "fst demo_dialog"]
  by (simp add: demo_dialog_def Dialog_new_def Let_def)

text \<open>off() undoes on() for a hook that was not registered before.\<close>

theorem on_off_roundtrip:
  assumes "h \<notin> set (events t d)"
  shows "off t h (on_event t h d) = d"
proof -
  have "off t h (set_events t (events t d @ h # []) d) = set_events t (events t d @ []) d"
    by (rule off_append_notin [OF assms])
  then show ?thesis by (simp add: on_event_def)
qed

theorem on_off_roundtrip_witness:
  "(5::hook) \<notin> set (events EvShow (snd demo_dialog)) \<and> off EvShow 5 (on_event EvShow 5 (snd demo_dialog)) = snd demo_dialog"
  using on_off_roundtrip [of 5 EvShow "snd demo_dialog"] by (simp add: demo_dialog_def Dialog_new_def Let_def)

text \<open>C26: show() is not guarded against re-entry: when the first show() moves focus into the dialog, a second show() records that element, inside the dialog, as the one to restore, and the following hide() does not give focus back to the opener.\<close>

theorem reentrant_show_loses_opener:
  assumes moved: "activeElement (fst (fst (show_dialog ok (p, d)))) \<noteq> activeElement p"
  shows "previouslyFocused (snd (fst (show_dialog ok (fst (show_dialog ok (p, d)))))) =
           Some (activeElement (fst (fst (show_dialog ok (p, d))))) \<and>
         activeElement (fst (fst (show_dialog ok (p, d)))) \<in> set (descendants (p_doc p) (d_element d)) \<and>
         activeElement (fst (fst (hide_dialog ok (fst (show_dialog ok (fst (show_dialog ok (p, d)))))))) \<noteq>
           activeElement p"
proof -
  obtain p1 d1 where s1: "fst (show_dialog ok (p, d)) = (p1, d1)" by fastforce
  define d2 where "d2 = d\<lparr>previouslyFocused := Some (activeElement p), isShown := True\<rparr>"
  define q where "q = addEventListener BodyT ''focus'' (BoundMaintainFocus (Suc (next_fn p))) True
      ((addEventListener DocumentT ''keydown'' (BoundKeyDown (next_fn p)) False
        ((removeAttribute (d_element d) ''hidden'' p)\<lparr>next_fn := Suc (next_fn p)\<rparr>))
       \<lparr>next_fn := Suc (Suc (next_fn p))\<rparr>)"
  have p1: "activeElement p1 = activeElement (moveFocusIn d2 q)" "p_dom p1 = p_dom q" "p_doc p1 = p_doc q"
    and d1: "d1 = d2"
    using s1 by (auto simp: show_dialog_unfold Let_def page_simps d2_def q_def)
  have qf: "activeElement q = activeElement p" "p_doc q = p_doc p" "d_element d2 = d_element d"
    by (simp_all add: q_def d2_def page_simps)
  let ?t = "activeElement p1"
  have ne: "activeElement (moveFocusIn d2 q) \<noteq> activeElement q" using moved s1 p1 qf by simp
  have inside: "?t \<in> set (descendants (p_doc p) (d_element d))"
    using moveFocusIn_inside [OF ne] p1 qf by simp
  obtain p2 d3 where s2: "fst (show_dialog ok (p1, d1)) = (p2, d3)" by fastforce
  have d3: "previouslyFocused d3 = Some ?t" using s2 by (auto simp: show_dialog_unfold Let_def)
  have "activeElement p2 = ?t"
  proof -
    define d4 where "d4 = d1\<lparr>previouslyFocused := Some (activeElement p1), isShown := True\<rparr>"
    define q2 where "q2 = addEventListener BodyT ''focus'' (BoundMaintainFocus (Suc (next_fn p1))) True
        ((addEventListener DocumentT ''keydown'' (BoundKeyDown (next_fn p1)) False
          ((removeAttribute (d_element d1) ''hidden'' p1)\<lparr>next_fn := Suc (next_fn p1)\<rparr>))
         \<lparr>next_fn := Suc (Suc (next_fn p1))\<rparr>)"
    have a2: "activeElement p2 = activeElement (moveFocusIn d4 q2)"
      using s2 by (auto simp: show_dialog_unfold Let_def page_simps d4_def q2_def)
    have same: "p_dom q2 = p_dom q" "p_doc q2 = p_doc q" "d_element d4 = d_element d2" "activeElement q2 = ?t"
      using p1 d1 by (simp_all add: q2_def q_def d4_def d2_def page_simps)
    have "activeElement (moveFocusIn d2 q) = ?t" using p1 by simp
    then show ?thesis using a2 same ne
      by (simp add: moveFocusIn_active split: option.splits if_splits)
  qed
  then have "activeElement (fst (fst (hide_dialog ok (p2, d3)))) = ?t"
    using d3 by (simp add: hide_dialog_unfold Let_def page_simps focus_stays)
  moreover have "?t \<noteq> activeElement p" using moved s1 by simp
  ultimately show ?thesis using s1 s2 d3 inside by simp
qed

theorem reentrant_show_loses_opener_witness:
  "activeElement (fst (fst (show_dialog (\<lambda>_. True) demo_dialog))) \<noteq> activeElement (fst demo_dialog) \<and>
   activeElement (fst (fst (hide_dialog (\<lambda>_. True) (fst (show_dialog (\<lambda>_. True) (fst (show_dialog (\<lambda>_. True) demo_dialog))))))) \<noteq>
     activeElement (fst demo_dialog)"
proof -
  have h: "activeElement (fst (fst (show_dialog (\<lambda>_. True) (fst demo_dialog, snd demo_dialog)))) \<noteq>
      activeElement (fst demo_dialog)" by code_simp
  show ?thesis using reentrant_show_loses_opener [OF h] h by simp
qed

text \<open>C27: A dialog that has been opened and closed n times (n > 0) still has n keydown listeners on the document. Tab anywhere on the page runs the trap n times on the hidden dialog, which has no visible focusable element, and each run throws a TypeError; Escape runs hide() n times, calling the hide hooks n more times.\<close>

theorem closed_dialog_still_handles_keys:
  assumes "fresh_listeners p" "\<not> list_ex is_doc_keydown (listeners p)" "wf_tree (p_doc p)" "0 < n"
  shows "\<not> isShown (snd ((show_hide_cycle ok ^^ n) (p, d))) \<and>
    fst (snd (press_key ok ''Tab'' False ((show_hide_cycle ok ^^ n) (p, d)))) = replicate n TypeError \<and>
    hook_calls (fst (fst (press_key ok ''Escape'' False ((show_hide_cycle ok ^^ n) (p, d))))) =
      hook_calls (fst ((show_hide_cycle ok ^^ n) (p, d))) @ concat (replicate n (events_hide d))"
proof -
  obtain p' d' where eq: "(show_hide_cycle ok ^^ n) (p, d) = (p', d')" by fastforce
  have sh: "d_element d' = d_element d" "\<not> isShown d'" "p_doc p' = p_doc p"
    "attrs (p_dom p' (d_element d)) ''hidden'' = Some ''true''" "events_hide d' = events_hide d"
    using cycles_shape [OF assms(4), of ok "(p, d)"] eq by simp_all
  have fr: "fresh_listeners p'" and n: "length (filter is_doc_keydown (listeners p')) = n"
    using cycles_listeners [OF assms(1), where ok = ok and n = n and d = d] eq assms(2)
    by (simp_all add: filter_empty_conv list_ex_iff)
  have "getFocusableChildren (p_dom p') (p_doc p') (d_element d') = []"
    using sh assms(3) by (intro hidden_root_no_focusable) simp_all
  then have "handleKeyDown ok ''Tab'' False (p', d') = ((p', d'), Some TypeError, False)"
    by (simp add: handleKeyDown_def trapTabKey_no_focusable)
  from dispatch_keydown_throws [OF this, of "listeners p'"]
  have "fst (snd (press_key ok ''Tab'' False (p', d'))) =
      replicate (length (filter is_doc_keydown (listeners p'))) TypeError"
    by (simp add: press_key_def cong: filter_cong)
  moreover have "hook_calls (fst (fst (press_key ok ''Escape'' False (p', d')))) =
      hook_calls p' @ concat (replicate (length (filter is_doc_keydown (listeners p'))) (events_hide d'))"
    using dispatch_escape_hides [OF fr, of ok False "listeners p'" d']
    by (simp add: press_key_def cong: filter_cong)
  ultimately show ?thesis using eq sh n by simp
qed

theorem closed_dialog_still_handles_keys_witness:
  "fresh_listeners (fst demo_dialog) \<and> \<not> list_ex is_doc_keydown (listeners (fst demo_dialog)) \<and>
   wf_tree (p_doc (fst demo_dialog)) \<and> (0::nat) < 2 \<and>
   fst (snd (press_key (\<lambda>_. True) ''Tab'' False
     ((show_hide_cycle (\<lambda>_. True) ^^ 2) (fst demo_dialog, on_event EvHide 7 (snd demo_dialog))))) =
     [TypeError, TypeError] \<and>
   hook_calls (fst (fst (press_key (\<lambda>_. True) ''Escape'' False
     ((show_hide_cycle (\<lambda>_. True) ^^ 2) (fst demo_dialog, on_event EvHide 7 (snd demo_dialog)))))) =
     [7, 7, 7, 7]"
proof -
  have h1: "fresh_listeners (fst demo_dialog)" by code_simp
  have h2: "\<not> list_ex is_doc_keydown (listeners (fst demo_dialog))" by code_simp
  have h3: "wf_tree (p_doc (fst demo_dialog))" by code_simp
  have h4: "(0::nat) < 2" by simp
  have c: "hook_calls (fst ((show_hide_cycle (\<lambda>_. True) ^^ 2) (fst demo_dialog, on_event EvHide 7 (snd demo_dialog)))) = [7, 7]"
    by code_simp
  have e: "events_hide (on_event EvHide 7 (snd demo_dialog)) = [7]"
    by (simp add: on_event_def set_events_def demo_dialog_def Dialog_new_def Let_def)
  show ?thesis
    using closed_dialog_still_handles_keys [where ok = "\<lambda>_. True" and d = "on_event EvHide 7 (snd demo_dialog)", OF h1 h2 h3 h4]
      h1 h2 h3 c e
    by (simp add: numeral_2_eq_2)
qed

end
