(* ===== verification/Cta_Modal.thy ===== *)
theory Cta_Modal
  imports Dom
begin

text \<open>
  The \<open>cta-modal\<close> custom element (web-components-modal-dialog): its constants, the
  shadow markup it clones, the page state it reads and writes (a record \<open>cta_page\<close>)
  extended by the fields of the class (\<open>cta_state\<close>), every method of the class, the
  browser services it calls (attributes, timers, animation frames, focus, listeners,
  event dispatch along the composed path) and the event loop that runs them.
\<close>

subsection \<open>Constants (cta.modal.constants.ts)\<close>

definition ANIMATION_DURATION :: nat where
  "ANIMATION_DURATION = 250"

definition CLOSE_TITLE :: string where
  "CLOSE_TITLE = ''Close''"

definition MODAL_LABEL_FALLBACK :: string where
  "MODAL_LABEL_FALLBACK = ''modal''"

definition ENTER :: string where
  "ENTER = ''enter''"

definition ESCAPE :: string where
  "ESCAPE = ''escape''"

definition SPACE :: string where
  "SPACE = '' ''"

definition TAB :: string where
  "TAB = ''tab''"

definition DATA_SHOW :: string where
  "DATA_SHOW = ''data-cta-modal-show''"

definition DATA_HIDE :: string where
  "DATA_HIDE = ''data-cta-modal-hide''"

text \<open>The selector list joined with commas, one compound selector per entry.\<close>

definition CTA_FOCUSABLE_SELECTORS :: selector where
  "CTA_FOCUSABLE_SELECTORS =
     [[HasAttr ''contenteditable''],
      [AttrEq ''tabindex'' ''0'', Not (HasAttr ''disabled'')],
      [Tag A, HasAttr ''href''],
      [Tag Audio, HasAttr ''controls''],
      [Tag Button, Not (HasAttr ''disabled'')],
      [Tag Iframe],
      [Tag Input, Not (HasAttr ''disabled''), Not (AttrEq ''type'' ''hidden'')],
      [Tag Select, Not (HasAttr ''disabled'')],
      [Tag Summary],
      [Tag Textarea, Not (HasAttr ''disabled'')],
      [Tag Video, HasAttr ''controls'']]"

subsection \<open>String helpers: trim, the whitespace regex, toLowerCase\<close>

definition js_trim :: "string \<Rightarrow> string" where
  "js_trim s = rev (dropWhile is_ws (rev (dropWhile is_ws s)))"

text \<open>\<open>s.replace(/\s+/g, ' ')\<close>: every maximal run of white space becomes one space.\<close>

function collapse_ws :: "string \<Rightarrow> string" where
  "collapse_ws [] = []"
| "collapse_ws (c # cs) =
     (if is_ws c then CHR '' '' # collapse_ws (dropWhile is_ws cs) else c # collapse_ws cs)"
  by pat_completeness auto
termination
  by (relation "measure length") (auto simp: le_imp_less_Suc length_dropWhile_le)

definition to_lower :: "char \<Rightarrow> char" where
  "to_lower c = (let n = (of_char c :: nat) in if 65 \<le> n \<and> n \<le> 90 then char_of (n + 32) else c)"

definition toLowerCase :: "string \<Rightarrow> string" where
  "toLowerCase s = map to_lower s"

definition js_bool :: "bool \<Rightarrow> string" where
  "js_bool b = (if b then ''true'' else ''false'')"

subsection \<open>The shadow markup (cta.modal.markup.ts)\<close>

definition mk_el :: "tag \<Rightarrow> (string \<times> string) list \<Rightarrow> string list \<Rightarrow> element" where
  "mk_el t as cs = \<lparr>tag = t, attrs = map_of as, classes = cs, checked = False,
     offset_width = 0, offset_height = 0, client_rects = 0\<rparr>"

definition FOCUS_TRAP :: element where
  "FOCUS_TRAP = mk_el Span [(''aria-hidden'', ''true''), (''tabindex'', ''0'')]
     [''cta-modal__focus-trap'']"

text \<open>
  The template content, element \<open>b + k\<close> being entry \<open>k\<close>: the shadow root, the
  \<open><style>\<close> element, the button slot, the scroll container, the first trap, the
  overlay, the dialog, the close button, the modal slot and the second trap.
\<close>

definition markup :: "element list" where
  "markup =
     [mk_el (Other ''#shadow-root'') [] [],
      mk_el (Other ''style'') [] [],
      mk_el Slot [(''name'', ''button'')] [],
      mk_el Div [(''style'', ''display:none'')] [''cta-modal__scroll''],
      FOCUS_TRAP,
      mk_el Div [] [''cta-modal__overlay''],
      mk_el Div [(''aria-modal'', ''true''), (''role'', ''dialog''), (''tabindex'', ''-1'')]
        [''cta-modal__dialog''],
      mk_el Button [(''type'', ''button'')] [''cta-modal__close''],
      mk_el Slot [(''name'', ''modal'')] [],
      FOCUS_TRAP]"

definition markup_tree :: "eid \<Rightarrow> tree" where
  "markup_tree b =
     Node b [Node (b + 1) [], Node (b + 2) [],
       Node (b + 3) [Node (b + 4) [],
         Node (b + 5) [Node (b + 6) [Node (b + 7) [], Node (b + 8) []]],
         Node (b + 9) []]]"

subsection \<open>Page and element state\<close>

datatype timer_cb = ShowDone | HideDone
datatype frame_cb = FocusModalCb | FocusElementCb eid
datatype cta_handler = HandleFocusIn | HandleKeyDown | HandleClickToggle | HandleClickOverlay
datatype cta_target = OnDocument | OnElement eid

type_synonym cta_listener = "cta_target \<times> string \<times> cta_handler"
type_synonym timer = "nat \<times> nat \<times> timer_cb"   \<comment> \<open>handle, due time, callback\<close>

text \<open>
  The page: the light DOM (\<open>c_dom\<close>, \<open>c_doc\<close>, the text content of each element), the
  host element and its shadow tree, the focused element (\<open>c_focus\<close>, the body when
  nothing else has focus), the inline styles the class writes, the clock with the
  pending timers and animation-frame callbacks, the two window queries
  (\<open>prefers-reduced-motion\<close>, \<open>innerWidth - clientWidth\<close>), the registered listeners,
  whether the current event had \<open>preventDefault\<close> called, and the console.
\<close>

record cta_page =
  c_dom :: dom
  c_doc :: tree
  c_text :: "eid \<Rightarrow> string"
  c_body :: eid
  c_host :: eid
  c_shadow :: tree
  c_focus :: eid
  scroll_display :: string           \<comment> \<open>\<open>_modalScroll.style.display\<close>\<close>
  scroll_top :: nat
  html_overflow :: string            \<comment> \<open>\<open>document.documentElement.style.overflow\<close>\<close>
  html_padding_right :: "nat option" \<comment> \<open>\<open>Some w\<close> is \<open>`${w}px`\<close>, \<open>None\<close> is \<open>''\<close>\<close>
  c_now :: nat
  c_timers :: "timer list"
  c_next_timer :: nat
  c_frames :: "frame_cb list"
  reduced_motion :: bool
  scrollbar_width :: nat
  c_listeners :: "cta_listener list"
  c_prevented :: bool
  c_console :: "string list"

text \<open>The fields of class \<open>CtaModal\<close> (cta.modal.class.ts, lines 10--26).\<close>

record cta_state = cta_page +
  shadowRoot :: eid
  buttonClose :: eid
  heading :: "eid option"
  modal :: eid
  modalOverlay :: eid
  modalScroll :: eid
  slotForButton :: "eid option"
  slotForModal :: "eid option"
  savedActiveElement :: "eid option"    \<comment> \<open>\<open>_activeElement\<close>\<close>
  focusTrapList :: "eid list"
  isActive :: bool
  isAnimated :: bool
  isHideShow :: bool
  isStatic :: bool
  timerForHide :: "nat option"
  timerForShow :: "nat option"

subsection \<open>Browser services\<close>

definition host_attr :: "cta_state \<Rightarrow> string \<Rightarrow> string option" where
  "host_attr s a = attrs (c_dom s (c_host s)) a"

definition in_shadow :: "cta_state \<Rightarrow> eid \<Rightarrow> bool" where
  "in_shadow s x = (x \<in> set (preorder (c_shadow s)))"

text \<open>
  \<open>document.activeElement\<close> is retargeted to the host when the focused element lies in
  the shadow tree; \<open>shadowRoot.activeElement\<close> is the focused element when it lies there.
\<close>

definition document_activeElement :: "cta_state \<Rightarrow> eid" where
  "document_activeElement s = (if in_shadow s (c_focus s) then c_host s else c_focus s)"

definition shadow_activeElement :: "cta_state \<Rightarrow> eid option" where
  "shadow_activeElement s = (if in_shadow s (c_focus s) then Some (c_focus s) else None)"

definition setTimeout :: "timer_cb \<Rightarrow> nat \<Rightarrow> cta_state \<Rightarrow> nat \<times> cta_state" where
  "setTimeout cb delay s =
     (c_next_timer s, s\<lparr>c_timers := c_timers s @ [(c_next_timer s, c_now s + delay, cb)],
                        c_next_timer := Suc (c_next_timer s)\<rparr>)"

text \<open>\<open>clearTimeout(undefined)\<close> does nothing.\<close>

definition clearTimeout :: "nat option \<Rightarrow> cta_state \<Rightarrow> cta_state" where
  "clearTimeout h s =
     (case h of None \<Rightarrow> s | Some i \<Rightarrow> s\<lparr>c_timers := filter (\<lambda>t. fst t \<noteq> i) (c_timers s)\<rparr>)"

definition requestAnimationFrame :: "frame_cb \<Rightarrow> cta_state \<Rightarrow> cta_state" where
  "requestAnimationFrame cb s = s\<lparr>c_frames := c_frames s @ [cb]\<rparr>"

definition add_listener :: "cta_listener \<Rightarrow> cta_state \<Rightarrow> cta_state" where
  "add_listener l s =
     (if l \<in> set (c_listeners s) then s else s\<lparr>c_listeners := c_listeners s @ [l]\<rparr>)"

definition remove_listener :: "cta_listener \<Rightarrow> cta_state \<Rightarrow> cta_state" where
  "remove_listener l s = s\<lparr>c_listeners := remove1 l (c_listeners s)\<rparr>"

subsection \<open>Flags read from the host's attributes\<close>

definition setAnimationFlag :: "cta_state \<Rightarrow> cta_state" where
  "setAnimationFlag s = s\<lparr>isAnimated := (host_attr s ''animated'' \<noteq> Some ''false'')\<rparr>"

definition setStaticFlag :: "cta_state \<Rightarrow> cta_state" where
  "setStaticFlag s = s\<lparr>isStatic := (host_attr s ''static'' = Some ''true'')\<rparr>"

text \<open>\<open>getAttribute(close) || 'Close'\<close>: an absent or empty attribute gives the default.\<close>

definition setCloseTitle :: "cta_state \<Rightarrow> cta_state" where
  "setCloseTitle s =
     (let title = (case host_attr s ''close'' of None \<Rightarrow> CLOSE_TITLE
                     | Some t \<Rightarrow> if t = [] then CLOSE_TITLE else t)
      in s\<lparr>c_dom := set_attr (buttonClose s) ''aria-label'' title
                      (set_attr (buttonClose s) ''title'' title (c_dom s))\<rparr>)"

definition modal_label :: "cta_state \<Rightarrow> string" where
  "modal_label s =
     (case heading s of
        None \<Rightarrow> MODAL_LABEL_FALLBACK
      | Some h \<Rightarrow>
          (let t = c_text s h; label = (if t = [] then MODAL_LABEL_FALLBACK else t)
           in collapse_ws (js_trim label)))"

definition setModalLabel :: "cta_state \<Rightarrow> cta_state" where
  "setModalLabel s = s\<lparr>c_dom := set_attr (modal s) ''aria-label'' (modal_label s) (c_dom s)\<rparr>"

definition isMotionOkay :: "cta_state \<Rightarrow> bool" where
  "isMotionOkay s = (isAnimated s \<and> \<not> reduced_motion s)"

subsection \<open>Focus requests\<close>

definition focusElement :: "eid \<Rightarrow> cta_state \<Rightarrow> cta_state" where
  "focusElement e s = requestAnimationFrame (FocusElementCb e) s"

definition focusModal :: "cta_state \<Rightarrow> cta_state" where
  "focusModal s = requestAnimationFrame FocusModalCb s"

text \<open>\<open>_isOutsideModal\<close>: \<open>this.contains\<close> sees the light DOM under the host,
  \<open>_modal.contains\<close> the shadow subtree of the dialog.\<close>

definition isOutsideModal :: "cta_state \<Rightarrow> eid option \<Rightarrow> bool" where
  "isOutsideModal s el =
     (case el of
        None \<Rightarrow> False
      | Some x \<Rightarrow> isActive s \<and>
                  \<not> (contains (c_doc s) (c_host s) x \<or> contains (c_shadow s) (modal s) x))"

subsection \<open>Showing and hiding: _toggleModalDisplay and the attribute reflection\<close>

datatype toggle_cb = ActiveFlagCb | ClickToggleCb

text \<open>The two callbacks passed to \<open>_toggleModalDisplay\<close>, from \<open>_setActiveFlag\<close>
  (lines 181--185) and \<open>_handleClickToggle\<close> (lines 351--358).\<close>

definition run_toggle_cb :: "toggle_cb \<Rightarrow> cta_state \<Rightarrow> cta_state" where
  "run_toggle_cb cb s =
     (case cb of
        ActiveFlagCb \<Rightarrow> if isActive s then focusModal s else s
      | ClickToggleCb \<Rightarrow>
          if isActive s then focusModal s
          else (case savedActiveElement s of Some e \<Rightarrow> focusElement e s | None \<Rightarrow> s))"

text \<open>
  Lines 229--289, everything after the \<open>setAttribute\<close> on line 227: the display,
  the transition flag, the callback and the completion timer.
\<close>

definition toggle_display :: "toggle_cb \<Rightarrow> cta_state \<Rightarrow> cta_state" where
  "toggle_display cb s =
     (let visible = (scroll_display s = ''block'');
          motion = isMotionOkay s;
          delay = (if motion then ANIMATION_DURATION else 0);
          w = scrollbar_width s;
          s1 = (if isActive s then s\<lparr>savedActiveElement := Some (document_activeElement s)\<rparr> else s)
      in if isActive s then
           (let s2 = s1\<lparr>scroll_display := ''block'', html_overflow := ''hidden'',
                        html_padding_right := (if w \<noteq> 0 then Some w else html_padding_right s1)\<rparr>;
                s3 = (if motion then s2\<lparr>isHideShow := True,
                         c_dom := set_attr (modalScroll s2) DATA_SHOW ''true'' (c_dom s2)\<rparr>
                      else s2);
                s4 = run_toggle_cb cb s3;
                (h, s5) = setTimeout ShowDone delay s4
            in s5\<lparr>timerForShow := Some h\<rparr>)
         else if visible then
           (let s3 = (if motion then s1\<lparr>isHideShow := True,
                         c_dom := set_attr (modalScroll s1) DATA_HIDE ''true'' (c_dom s1)\<rparr>
                      else s1);
                s4 = run_toggle_cb cb s3;
                (h, s5) = setTimeout HideDone delay s4
            in s5\<lparr>timerForHide := Some h\<rparr>)
         else s1)"

text \<open>
  \<open>_toggleModalDisplay\<close> first reflects \<open>_isActive\<close> into the \<open>active\<close> attribute
  (line 227); the browser runs \<open>attributeChangedCallback\<close> at once, which for a changed
  \<open>active\<close> calls \<open>_setActiveFlag\<close>, which calls \<open>_toggleModalDisplay\<close> again. The
  recursion stops because the inner call finds the attribute already in step with
  \<open>_isActive\<close>.
\<close>

function toggleModalDisplay :: "toggle_cb \<Rightarrow> cta_state \<Rightarrow> cta_state"
  and setActiveFlag :: "cta_state \<Rightarrow> cta_state"
  and attributeChangedCallback ::
    "string \<Rightarrow> string option \<Rightarrow> string option \<Rightarrow> cta_state \<Rightarrow> cta_state" where
  "toggleModalDisplay cb s =
     (let v = js_bool (isActive s);
          old = host_attr s ''active'';
          s1 = s\<lparr>c_dom := set_attr (c_host s) ''active'' v (c_dom s)\<rparr>
      in toggle_display cb (attributeChangedCallback ''active'' old (Some v) s1))"
| "setActiveFlag s =
     toggleModalDisplay ActiveFlagCb (s\<lparr>isActive := (host_attr s ''active'' = Some ''true'')\<rparr>)"
| "attributeChangedCallback name old new s =
     (if old \<noteq> new then
        (let s1 = (if name = ''active'' then setActiveFlag s else s);
             s2 = (if name = ''animated'' then setAnimationFlag s1 else s1);
             s3 = (if name = ''close'' then setCloseTitle s2 else s2)
         in if name = ''static'' then setStaticFlag s3 else s3)
      else s)"
  by pat_completeness auto
termination
proof (relation "measure (\<lambda>x. case x of
      Inl (cb, s) \<Rightarrow> if host_attr s ''active'' = Some (js_bool (isActive s)) then 1 else 4
    | Inr (Inl s) \<Rightarrow> if host_attr s ''active'' \<in> {Some ''true'', Some ''false''} then 2 else 5
    | Inr (Inr (name, old, new, s)) \<Rightarrow>
        if name = ''active'' \<and> old \<noteq> new
        then (if host_attr s ''active'' \<in> {Some ''true'', Some ''false''} then 3 else 6) else 0)")
qed (auto simp: host_attr_def js_bool_def)
subsection \<open>Event handlers\<close>

text \<open>A mouse or keyboard event: its target and its \<open>key\<close> (empty for a click).\<close>

datatype ui_event = UiEvent eid string

text \<open>\<open>button.disabled\<close>: defined on form controls, undefined (falsy) elsewhere.\<close>

definition button_disabled :: "element \<Rightarrow> bool" where
  "button_disabled el =
     (tag el \<in> {Button, Input, Select, Textarea} \<and> attrs el ''disabled'' \<noteq> None)"

text \<open>
  Lines 307--347 of \<open>_handleClickToggle\<close>: whether the event toggles (no disabled
  button, no missing button, no wrong key) and whether it is a recognised activation
  whose default is prevented.
\<close>

definition click_toggle_check :: "ui_event option \<Rightarrow> cta_state \<Rightarrow> bool \<times> bool" where
  "click_toggle_check ev s =
     (let key = (case ev of None \<Rightarrow> [] | Some (UiEvent _ k) \<Rightarrow> toLowerCase k);
          target = (case ev of None \<Rightarrow> None | Some (UiEvent t _) \<Rightarrow> Some t);
          button = (case target of
                      None \<Rightarrow> None
                    | Some t \<Rightarrow>
                        if ''cta-modal__close'' \<in> set (classes (c_dom s t)) then Some t
                        else closest (c_dom s) (c_doc s) [[HasClass ''cta-modal-toggle'']] t);
          validEvent = (ev \<noteq> None);
          validClick = (button \<noteq> None \<and> validEvent \<and> key = []);
          validKey = (button \<noteq> None \<and> validEvent \<and> key \<in> {ENTER, SPACE});
          disabled = (case button of None \<Rightarrow> False | Some b \<Rightarrow> button_disabled (c_dom s b));
          missing = (validEvent \<and> button = None);
          wrongKey = (key \<noteq> [] \<and> \<not> validKey)
      in (\<not> (disabled \<or> missing \<or> wrongKey), validKey \<or> validClick))"

definition handleClickToggle :: "ui_event option \<Rightarrow> cta_state \<Rightarrow> cta_state" where
  "handleClickToggle ev s =
     (case click_toggle_check ev s of
        (proceed, prevent) \<Rightarrow>
          if \<not> proceed then s
          else
            (let s1 = (if prevent then s\<lparr>c_prevented := True\<rparr> else s)
             in toggleModalDisplay ClickToggleCb (s1\<lparr>isActive := \<not> isActive s1\<rparr>)))"

definition handleClickOverlay :: "eid \<Rightarrow> cta_state \<Rightarrow> cta_state" where
  "handleClickOverlay target s =
     (if isHideShow s \<or> isStatic s then s
      else if ''cta-modal__overlay'' \<in> set (classes (c_dom s target)) then handleClickToggle None s
      else s)"

text \<open>\<open>focusListShadow.concat(focusListReal)\<close> in \<open>_handleFocusIn\<close>.\<close>

definition focusListTotal :: "cta_state \<Rightarrow> eid list" where
  "focusListTotal s =
     querySelectorAll (c_dom s) (c_shadow s) (modal s) CTA_FOCUSABLE_SELECTORS @
     (case slotForModal s of
        None \<Rightarrow> []
      | Some m \<Rightarrow> querySelectorAll (c_dom s) (c_doc s) m CTA_FOCUSABLE_SELECTORS)"

text \<open>
  Lines 365--398 of \<open>_handleFocusIn\<close>: which focus request, if any, the handler makes
  (\<open>_focusElement(x)\<close> is the frame callback \<open>FocusElementCb x\<close>, \<open>_focusModal()\<close> is
  \<open>FocusModalCb\<close>).
\<close>

definition focusin_redirect :: "cta_state \<Rightarrow> frame_cb option" where
  "focusin_redirect s =
     (let ae = (case shadow_activeElement s of Some x \<Rightarrow> x | None \<Rightarrow> document_activeElement s);
          trap1 = (js_get (focusTrapList s) 0 = Some ae);
          trap2 = (js_get (focusTrapList s) 1 = Some ae);
          total = focusListTotal s;
          first = js_get total 0;
          last = js_get total (int (length total) - 1)
      in case (if trap1 then last else None) of
           Some l \<Rightarrow> Some (FocusElementCb l)
         | None \<Rightarrow>
             (case (if trap2 then first else None) of
                Some f \<Rightarrow> Some (FocusElementCb f)
              | None \<Rightarrow> if isOutsideModal s (Some ae) then Some FocusModalCb else None))"

definition handleFocusIn :: "cta_state \<Rightarrow> cta_state" where
  "handleFocusIn s =
     (if \<not> isActive s then s
      else case focusin_redirect s of
             None \<Rightarrow> s
           | Some (FocusElementCb x) \<Rightarrow> focusElement x s
           | Some FocusModalCb \<Rightarrow> focusModal s)"

definition handleKeyDown_cta :: "string \<Rightarrow> cta_state \<Rightarrow> cta_state" where
  "handleKeyDown_cta key s =
     (if \<not> isActive s then s
      else
        (let k = toLowerCase key;
             s1 = (if k = ESCAPE \<and> \<not> isHideShow s \<and> \<not> isStatic s then handleClickToggle None s
                   else s)
         in if k = TAB then handleFocusIn s1 else s1))"

definition run_handler :: "cta_handler \<Rightarrow> eid \<Rightarrow> string \<Rightarrow> cta_state \<Rightarrow> cta_state" where
  "run_handler h target key s =
     (case h of
        HandleFocusIn \<Rightarrow> handleFocusIn s
      | HandleKeyDown \<Rightarrow> handleKeyDown_cta key s
      | HandleClickToggle \<Rightarrow> handleClickToggle (Some (UiEvent target key)) s
      | HandleClickOverlay \<Rightarrow> handleClickOverlay target s)"

subsection \<open>Event dispatch along the composed path\<close>

definition up_path :: "tree \<Rightarrow> eid \<Rightarrow> eid list" where
  "up_path t x = (case path_to x t of None \<Rightarrow> [] | Some p \<Rightarrow> rev p)"

text \<open>The slot of the shadow tree a child of the host is assigned to, by its \<open>slot\<close> attribute.\<close>

definition assigned_slot :: "cta_state \<Rightarrow> eid \<Rightarrow> eid option" where
  "assigned_slot s c =
     (case attrs (c_dom s c) ''slot'' of
        None \<Rightarrow> None
      | Some n \<Rightarrow> find (\<lambda>y. tag (c_dom s y) = Slot \<and> attrs (c_dom s y) ''name'' = Some n)
                      (preorder (c_shadow s)))"

text \<open>
  The bubbling path of an event, from the target up to the document: inside the shadow
  tree up to the shadow root and on through the host; from slotted light content through
  its slot and the slot's shadow ancestors before the host.
\<close>

definition composed_path :: "cta_state \<Rightarrow> eid \<Rightarrow> cta_target list" where
  "composed_path s x =
     (let h = c_host s in
      if in_shadow s x then
        map OnElement (up_path (c_shadow s) x @ up_path (c_doc s) h) @ [OnDocument]
      else
        (let lp = up_path (c_doc s) x;
             below = takeWhile (\<lambda>y. y \<noteq> h) lp;
             above = dropWhile (\<lambda>y. y \<noteq> h) lp;
             slot_part = (if below \<noteq> [] \<and> above \<noteq> [] then
                            (case assigned_slot s (last below) of
                               None \<Rightarrow> []
                             | Some sl \<Rightarrow> up_path (c_shadow s) sl)
                          else [])
         in map OnElement (below @ slot_part @ above) @ [OnDocument]))"

definition run_listeners ::
  "string \<Rightarrow> eid \<Rightarrow> string \<Rightarrow> cta_target \<Rightarrow> cta_state \<Rightarrow> cta_state" where
  "run_listeners ty x key ct s =
     fold (\<lambda>(t, ty', h) s'. if t = ct \<and> ty' = ty then run_handler h x key s' else s')
       (c_listeners s) s"

definition dispatch :: "string \<Rightarrow> eid \<Rightarrow> string \<Rightarrow> cta_state \<Rightarrow> cta_state" where
  "dispatch ty x key s = fold (run_listeners ty x key) (composed_path s x) s"

subsection \<open>Focus\<close>

text \<open>
  Whether an element is being rendered: shadow content inside the scroll container only
  while its inline display is \<open>block\<close>; light content not hidden, and content slotted
  into the modal slot only while the scroll container is displayed.
\<close>

definition cta_rendered :: "cta_state \<Rightarrow> eid \<Rightarrow> bool" where
  "cta_rendered s x =
     (if in_shadow s x then
        (if contains (c_shadow s) (modalScroll s) x then scroll_display s = ''block'' else True)
      else
        rendered (c_dom s) (c_doc s) x \<and>
        (case slotForModal s of
           None \<Rightarrow> True
         | Some m \<Rightarrow> if contains (c_doc s) m x then scroll_display s = ''block'' else True))"

definition cta_focusable :: "element \<Rightarrow> bool" where
  "cta_focusable el = (sel_matches CTA_FOCUSABLE_SELECTORS el \<or> attrs el ''tabindex'' \<noteq> None)"

text \<open>\<open>el.focus()\<close>: a rendered focusable element takes focus and \<open>focusin\<close> is dispatched.\<close>

definition focus_el :: "eid \<Rightarrow> cta_state \<Rightarrow> cta_state" where
  "focus_el x s =
     (if cta_rendered s x \<and> cta_focusable (c_dom s x) \<and> c_focus s \<noteq> x
      then dispatch ''focusin'' x [] (s\<lparr>c_focus := x\<rparr>)
      else s)"

primrec run_frame_cb :: "frame_cb \<Rightarrow> cta_state \<Rightarrow> cta_state" where
  "run_frame_cb FocusModalCb s = (focus_el (modal s) s)\<lparr>scroll_top := 0\<rparr>"
| "run_frame_cb (FocusElementCb e) s = focus_el e s"

text \<open>An animation frame runs the callbacks queued before it; those they queue wait.\<close>

definition animation_frame :: "cta_state \<Rightarrow> cta_state" where
  "animation_frame s = fold run_frame_cb (c_frames s) (s\<lparr>c_frames := []\<rparr>)"
subsection \<open>Timers and the clock\<close>

primrec run_timer :: "timer_cb \<Rightarrow> cta_state \<Rightarrow> cta_state" where
  "run_timer ShowDone s =
     (let s1 = clearTimeout (timerForShow s) s
      in s1\<lparr>isHideShow := False, c_dom := remove_attr (modalScroll s1) DATA_SHOW (c_dom s1)\<rparr>)"
| "run_timer HideDone s =
     (let s1 = clearTimeout (timerForHide s) s
      in s1\<lparr>isHideShow := False, c_dom := remove_attr (modalScroll s1) DATA_HIDE (c_dom s1),
            scroll_display := ''none'', html_overflow := [], html_padding_right := None\<rparr>)"

text \<open>The pending timer that fires next: the earliest due, the first armed among equals.\<close>

fun earliest :: "timer list \<Rightarrow> timer option" where
  "earliest [] = None"
| "earliest (t # ts) =
     (case earliest ts of
        None \<Rightarrow> Some t
      | Some u \<Rightarrow> if fst (snd u) < fst (snd t) then Some u else Some t)"

text \<open>
  Fire, in order, the timers due by time \<open>t\<close>. Every firing removes at least the timer
  that fires, so as many rounds as there are pending timers are enough
  (lemma \<open>fire_due_drains\<close>).
\<close>

fun fire_due :: "nat \<Rightarrow> nat \<Rightarrow> cta_state \<Rightarrow> cta_state" where
  "fire_due 0 t s = s"
| "fire_due (Suc n) t s =
     (case earliest (c_timers s) of
        None \<Rightarrow> s
      | Some (h, d, cb) \<Rightarrow>
          if d \<le> t
          then fire_due n t (run_timer cb (s\<lparr>c_now := max (c_now s) d,
                                             c_timers := remove1 (h, d, cb) (c_timers s)\<rparr>))
          else s)"

definition advance :: "nat \<Rightarrow> cta_state \<Rightarrow> cta_state" where
  "advance d s =
     (let t = c_now s + d in (fire_due (length (c_timers s)) t s)\<lparr>c_now := t\<rparr>)"

subsection \<open>Listeners: _addEvents and _removeEvents\<close>

definition own_listeners :: "cta_state \<Rightarrow> cta_listener list" where
  "own_listeners s =
     [(OnDocument, ''focusin'', HandleFocusIn),
      (OnDocument, ''keydown'', HandleKeyDown),
      (OnElement (buttonClose s), ''click'', HandleClickToggle),
      (OnElement (modalOverlay s), ''click'', HandleClickOverlay)] @
     (case slotForButton s of
        None \<Rightarrow> []
      | Some b \<Rightarrow> [(OnElement b, ''click'', HandleClickToggle),
                   (OnElement b, ''keydown'', HandleClickToggle)]) @
     (case slotForModal s of
        None \<Rightarrow> []
      | Some m \<Rightarrow> [(OnElement m, ''click'', HandleClickToggle),
                   (OnElement m, ''keydown'', HandleClickToggle)])"

definition removeEvents :: "cta_state \<Rightarrow> cta_state" where
  "removeEvents s = fold remove_listener (own_listeners s) s"

definition addEvents :: "cta_state \<Rightarrow> cta_state" where
  "addEvents s = fold add_listener (own_listeners s) (removeEvents s)"

definition connectedCallback :: "cta_state \<Rightarrow> cta_state" where
  "connectedCallback s = addEvents s"

definition disconnectedCallback :: "cta_state \<Rightarrow> cta_state" where
  "disconnectedCallback s = removeEvents s"

subsection \<open>Construction and upgrade\<close>

text \<open>\<open>as HTMLElement\<close>: the cast of a query result the template always provides.\<close>

definition cast_el :: "eid option \<Rightarrow> eid" where
  "cast_el x = (case x of Some e \<Rightarrow> e | None \<Rightarrow> 0)"

text \<open>\<open>attachShadow\<close> and the clone of the template, its elements numbered from \<open>b\<close>.\<close>

definition clone_markup :: "eid \<Rightarrow> dom \<Rightarrow> dom" where
  "clone_markup b d = (\<lambda>x. if b \<le> x \<and> x < b + length markup then markup ! (x - b) else d x)"

definition attach_shadow :: "eid \<Rightarrow> cta_state \<Rightarrow> cta_state" where
  "attach_shadow b s =
     s\<lparr>c_shadow := markup_tree b, c_dom := clone_markup b (c_dom s),
       shadowRoot := b, scroll_display := ''none''\<rparr>"

definition heading_selector :: selector where
  "heading_selector = map (\<lambda>n. [Tag (Heading n)]) [1..<7]"

text \<open>Lines 34--51 of the constructor: the shadow tree, the queries, the diagnostic.\<close>

definition ctor_parts :: "eid \<Rightarrow> cta_state \<Rightarrow> cta_state" where
  \<open>ctor_parts b s0 =
     (let s = attach_shadow b (s0\<lparr>savedActiveElement := None, isActive := False,
                isAnimated := True, isHideShow := False, isStatic := False,
                timerForHide := None, timerForShow := None\<rparr>);
          light = (\<lambda>sl. querySelector (c_dom s) (c_doc s) (c_host s) sl);
          dark = (\<lambda>sl. querySelector (c_dom s) (c_shadow s) b sl);
          s1 = s\<lparr>slotForButton := light [[AttrEq ''slot'' ''button'']],
                 slotForModal := light [[AttrEq ''slot'' ''modal'']],
                 heading := light heading_selector,
                 buttonClose := cast_el (dark [[HasClass ''cta-modal__close'']]),
                 focusTrapList :=
                   querySelectorAll (c_dom s) (c_shadow s) b [[HasClass ''cta-modal__focus-trap'']],
                 modal := cast_el (dark [[HasClass ''cta-modal__dialog'']]),
                 modalOverlay := cast_el (dark [[HasClass ''cta-modal__overlay'']]),
                 modalScroll := cast_el (dark [[HasClass ''cta-modal__scroll'']])\<rparr>
      in if slotForModal s1 = None
         then s1\<lparr>c_console := c_console s1 @
                   [''Required [slot="modal"] not found inside cta-modal.'']\<rparr>
         else s1)\<close>

text \<open>The constructor (lines 28--62); \<open>_bind\<close> gives every handler one fixed identity.\<close>

definition CtaModal_new :: "eid \<Rightarrow> cta_state \<Rightarrow> cta_state" where
  "CtaModal_new b s =
     setActiveFlag (setStaticFlag (setModalLabel (setCloseTitle (setAnimationFlag (ctor_parts b s)))))"

definition observedAttributes :: "string list" where
  "observedAttributes = [''active'', ''animated'', ''close'', ''static'']"

text \<open>
  Upgrading a host already in the document: the constructor runs, then the callbacks the
  browser queued for the observed attributes the host carried (old value \<open>null\<close>),
  then \<open>connectedCallback\<close>.
\<close>

definition upgrade :: "eid \<Rightarrow> cta_state \<Rightarrow> cta_state" where
  "upgrade b s =
     (let pre = map (\<lambda>a. (a, host_attr s a)) observedAttributes;
          s1 = CtaModal_new b s;
          s2 = fold (\<lambda>(a, v) s'. case v of None \<Rightarrow> s'
                                 | Some x \<Rightarrow> attributeChangedCallback a None (Some x) s') pre s1
      in connectedCallback s2)"

subsection \<open>The event loop\<close>

text \<open>
  What can happen to a page with one upgraded \<open>cta-modal\<close>: a script sets or removes an
  attribute of the host, the user clicks an element, presses a key on the focused
  element or moves focus, time passes (due timers fire), an animation frame runs, or
  the host is attached to or detached from the document.
\<close>

datatype cta_action =
    SetHostAttr string string
  | RemoveHostAttr string
  | Click eid
  | KeyPress string
  | MoveFocus eid
  | Wait nat
  | NextFrame
  | Connect
  | Disconnect

definition set_host_attr :: "string \<Rightarrow> string option \<Rightarrow> cta_state \<Rightarrow> cta_state" where
  "set_host_attr a v s =
     (let old = host_attr s a;
          s1 = s\<lparr>c_dom := (case v of Some x \<Rightarrow> set_attr (c_host s) a x (c_dom s)
                                   | None \<Rightarrow> remove_attr (c_host s) a (c_dom s))\<rparr>
      in if a \<in> set observedAttributes then attributeChangedCallback a old v s1 else s1)"

primrec cta_step :: "cta_action \<Rightarrow> cta_state \<Rightarrow> cta_state" where
  "cta_step (SetHostAttr a v) s = set_host_attr a (Some v) s"
| "cta_step (RemoveHostAttr a) s = set_host_attr a None s"
| "cta_step (Click x) s = dispatch ''click'' x [] (s\<lparr>c_prevented := False\<rparr>)"
| "cta_step (KeyPress k) s = dispatch ''keydown'' (c_focus s) k (s\<lparr>c_prevented := False\<rparr>)"
| "cta_step (MoveFocus x) s = focus_el x s"
| "cta_step (Wait d) s = advance d s"
| "cta_step NextFrame s = animation_frame s"
| "cta_step Connect s = connectedCallback s"
| "cta_step Disconnect s = disconnectedCallback s"

definition cta_run :: "cta_action list \<Rightarrow> cta_state \<Rightarrow> cta_state" where
  "cta_run acts s = fold cta_step acts s"
subsection \<open>The invariant of a running element\<close>

text \<open>
  The \<open>active\<close> attribute spells \<open>_isActive\<close>; the parts the class writes to are not the
  host; an element in transition (\<open>_isHideShow\<close>) has a completion timer pending; and
  every pending timer is due within \<open>ANIMATION_DURATION\<close> of the clock.
\<close>

definition reflects_active :: "cta_state \<Rightarrow> bool" where
  "reflects_active s = (host_attr s ''active'' = Some (js_bool (isActive s)))"

definition parts_apart :: "cta_state \<Rightarrow> bool" where
  "parts_apart s = (c_host s \<notin> {modalScroll s, buttonClose s, modal s})"

definition timers_ok :: "cta_state \<Rightarrow> bool" where
  "timers_ok s =
     ((isHideShow s \<longrightarrow> c_timers s \<noteq> []) \<and>
      list_all (\<lambda>t. c_now s \<le> fst (snd t) \<and> fst (snd t) \<le> c_now s + ANIMATION_DURATION)
        (c_timers s))"

definition cta_inv :: "cta_state \<Rightarrow> bool" where
  "cta_inv s = (reflects_active s \<and> parts_apart s \<and> timers_ok s)"

text \<open>Two white-space characters next to each other.\<close>

fun adj_ws :: "string \<Rightarrow> bool" where
  "adj_ws (a # b # cs) = ((is_ws a \<and> is_ws b) \<or> adj_ws (b # cs))"
| "adj_ws _ = False"

text \<open>Proof vocabulary: the invariant while timers fire towards a bound, a state changed only in its frame queue, an event no handler acts on under \<open>static\<close>.\<close>

definition firing_inv :: "nat \<Rightarrow> cta_state \<Rightarrow> bool" where
  "firing_inv N s = (reflects_active s \<and> parts_apart s \<and> (isHideShow s \<longrightarrow> c_timers s \<noteq> []) \<and>
     list_all (\<lambda>t. c_now s \<le> fst (snd t) \<and> fst (snd t) \<le> N) (c_timers s))"

definition frames_only :: "cta_state \<Rightarrow> cta_state \<Rightarrow> bool" where
  "frames_only s s' = (s' = s\<lparr>c_frames := c_frames s'\<rparr>)"

definition inert_event :: "cta_state \<Rightarrow> eid \<Rightarrow> string \<Rightarrow> bool" where
  "inert_event s x k =
     (toLowerCase k = ESCAPE \<or>
      (k = [] \<and> ''cta-modal__close'' \<notin> set (classes (c_dom s x)) \<and>
       closest (c_dom s) (c_doc s) [[HasClass ''cta-modal-toggle'']] x = None))"

subsection \<open>A demonstration page\<close>

text \<open>
  \<open><body>\<close> (1) holding the host (2) and a button outside it (8); the host holds a toggle
  button slotted as \<open>button\<close> (3) and a \<open>div\<close> slotted as \<open>modal\<close> (4) with a heading (5),
  an input (6) and a closing toggle (7). The shadow elements are numbered from 100.
\<close>

definition demo_cta_dom :: dom where
  "demo_cta_dom x =
     (if x = 2 then mk_el (Other ''cta-modal'') [] []
      else if x = 3 then mk_el Button [(''slot'', ''button'')] [''cta-modal-toggle'']
      else if x = 4 then mk_el Div [(''slot'', ''modal'')] []
      else if x = 5 then mk_el (Heading 2) [] []
      else if x = 6 then mk_el Input [] []
      else if x = 7 then mk_el Button [] [''cta-modal-toggle'']
      else if x = 8 then mk_el Button [] []
      else mk_el Div [] [])"

definition demo_cta_page :: cta_state where
  "demo_cta_page =
     \<lparr>c_dom = demo_cta_dom,
      c_doc = Node 0 [Node 1 [Node 2 [Node 3 [], Node 4 [Node 5 [], Node 6 [], Node 7 []]],
                              Node 8 []]],
      c_text = (\<lambda>x. if x = 5 then '' Join   our list '' else []),
      c_body = 1, c_host = 2, c_shadow = Node 2 [], c_focus = 3,
      scroll_display = [], scroll_top = 0, html_overflow = [], html_padding_right = None,
      c_now = 0, c_timers = [], c_next_timer = 1, c_frames = [], reduced_motion = False,
      scrollbar_width = 15, c_listeners = [], c_prevented = False, c_console = [],
      shadowRoot = 0, buttonClose = 0, heading = None, modal = 0, modalOverlay = 0,
      modalScroll = 0, slotForButton = None, slotForModal = None, savedActiveElement = None,
      focusTrapList = [], isActive = False, isAnimated = True, isHideShow = False,
      isStatic = False, timerForHide = None, timerForShow = None\<rparr>"

definition demo_cta :: cta_state where
  "demo_cta = upgrade 100 demo_cta_page"

subsection \<open>Lemmas: field effects, the invariant, the timers\<close>

declare toggleModalDisplay.simps [simp del] setActiveFlag.simps [simp del]
  attributeChangedCallback.simps [simp del]

lemma run_toggle_cb_fields [cta_simps]:
  "c_dom (run_toggle_cb cb s) = c_dom s" "c_host (run_toggle_cb cb s) = c_host s"
  "isActive (run_toggle_cb cb s) = isActive s" "isHideShow (run_toggle_cb cb s) = isHideShow s"
  "c_timers (run_toggle_cb cb s) = c_timers s" "c_now (run_toggle_cb cb s) = c_now s"
  "c_next_timer (run_toggle_cb cb s) = c_next_timer s"
  "scroll_display (run_toggle_cb cb s) = scroll_display s"
  "modalScroll (run_toggle_cb cb s) = modalScroll s"
  "buttonClose (run_toggle_cb cb s) = buttonClose s" "modal (run_toggle_cb cb s) = modal s"
  "isStatic (run_toggle_cb cb s) = isStatic s" "isAnimated (run_toggle_cb cb s) = isAnimated s"
  "reduced_motion (run_toggle_cb cb s) = reduced_motion s"
  "c_listeners (run_toggle_cb cb s) = c_listeners s"
  "focusTrapList (run_toggle_cb cb s) = focusTrapList s"
  "timerForShow (run_toggle_cb cb s) = timerForShow s"
  "timerForHide (run_toggle_cb cb s) = timerForHide s"
  "modalOverlay (run_toggle_cb cb s) = modalOverlay s"
  by (simp_all add: run_toggle_cb_def focusModal_def focusElement_def requestAnimationFrame_def
      split: toggle_cb.splits option.splits)

lemma toggle_display_same [cta_simps]:
  "isActive (toggle_display cb s) = isActive s" "c_host (toggle_display cb s) = c_host s"
  "c_now (toggle_display cb s) = c_now s" "modalScroll (toggle_display cb s) = modalScroll s"
  "buttonClose (toggle_display cb s) = buttonClose s" "modal (toggle_display cb s) = modal s"
  "isStatic (toggle_display cb s) = isStatic s" "isAnimated (toggle_display cb s) = isAnimated s"
  "reduced_motion (toggle_display cb s) = reduced_motion s"
  "c_listeners (toggle_display cb s) = c_listeners s"
  "focusTrapList (toggle_display cb s) = focusTrapList s"
  "modalOverlay (toggle_display cb s) = modalOverlay s"
  by (simp_all add: toggle_display_def Let_def setTimeout_def cta_simps split: prod.splits)

lemma toggle_display_timers [cta_simps]:
  "c_timers (toggle_display cb s) = c_timers s @
     (if isActive s \<or> scroll_display s = ''block''
      then [(c_next_timer s, c_now s + (if isMotionOkay s then ANIMATION_DURATION else 0),
             if isActive s then ShowDone else HideDone)]
      else [])"
  by (simp add: toggle_display_def Let_def setTimeout_def cta_simps split: prod.splits)

lemma toggle_display_hideshow [cta_simps]:
  "isHideShow (toggle_display cb s) =
     (isHideShow s \<or> (isMotionOkay s \<and> (isActive s \<or> scroll_display s = ''block'')))"
  by (simp add: toggle_display_def Let_def setTimeout_def cta_simps split: prod.splits)

lemma toggle_display_display [cta_simps]:
  "scroll_display (toggle_display cb s) = (if isActive s then ''block'' else scroll_display s)"
  by (simp add: toggle_display_def Let_def setTimeout_def cta_simps split: prod.splits)

lemma toggle_display_dom_other [cta_simps]:
  "y \<noteq> modalScroll s \<Longrightarrow> c_dom (toggle_display cb s) y = c_dom s y"
  by (simp add: toggle_display_def Let_def setTimeout_def cta_simps split: prod.splits)

lemma toggle_display_shadow [cta_simps]: "c_shadow (toggle_display cb s) = c_shadow s"
  by (simp add: toggle_display_def Let_def setTimeout_def run_toggle_cb_def focusModal_def focusElement_def
    requestAnimationFrame_def split: prod.splits toggle_cb.split option.split)

lemma toggle_display_dom_scroll [cta_simps]:
  "c_dom (toggle_display cb s) (modalScroll s) =
     (if isMotionOkay s \<and> isActive s then set_attr (modalScroll s) DATA_SHOW ''true'' (c_dom s) (modalScroll s)
      else if isMotionOkay s \<and> scroll_display s = ''block''
      then set_attr (modalScroll s) DATA_HIDE ''true'' (c_dom s) (modalScroll s)
      else c_dom s (modalScroll s))"
  by (simp add: toggle_display_def Let_def setTimeout_def cta_simps split: prod.splits)

lemma attributeChangedCallback_same [simp]: "attributeChangedCallback n v v s = s"
  by (simp add: attributeChangedCallback.simps)

lemma js_bool_true_iff [simp]: "(js_bool b = ''true'') = b"
  by (simp add: js_bool_def)

lemma toggleModalDisplay_unfold:
  "toggleModalDisplay cb s =
     (let v = js_bool (isActive s);
          s1 = s\<lparr>c_dom := set_attr (c_host s) ''active'' v (c_dom s)\<rparr>
      in if host_attr s ''active'' = Some v then toggle_display cb s1
         else toggle_display cb (toggle_display ActiveFlagCb s1))"
proof -
  define v where "v = js_bool (isActive s)"
  define s1 where "s1 = s\<lparr>c_dom := set_attr (c_host s) ''active'' v (c_dom s)\<rparr>"
  have h1: "host_attr s1 ''active'' = Some v" by (simp add: s1_def host_attr_def)
  have v1: "js_bool (isActive s1) = v" by (simp add: s1_def v_def)
  have same: "s1\<lparr>c_dom := set_attr (c_host s1) ''active'' v (c_dom s1)\<rparr> = s1"
    by (simp add: s1_def)
  have inner: "toggleModalDisplay ActiveFlagCb s1 = toggle_display ActiveFlagCb s1"
    by (subst toggleModalDisplay.simps) (simp add: v1 h1 same attributeChangedCallback.simps)
  have saf: "setActiveFlag s1 = toggle_display ActiveFlagCb s1"
  proof -
    have "(host_attr s1 ''active'' = Some ''true'') = isActive s1"
      using h1 v1 by (auto simp: js_bool_def split: if_splits)
    then have "s1\<lparr>isActive := (host_attr s1 ''active'' = Some ''true'')\<rparr> = s1" by simp
    then show ?thesis by (simp add: setActiveFlag.simps inner)
  qed
  show ?thesis
    by (subst toggleModalDisplay.simps)
      (simp add: saf attributeChangedCallback.simps flip: v_def s1_def)
qed

lemmas inv_defs = cta_inv_def reflects_active_def parts_apart_def timers_ok_def host_attr_def

lemma toggle_display_timers_ok: "timers_ok s \<Longrightarrow> timers_ok (toggle_display cb s)"
  by (auto simp: timers_ok_def cta_simps)

lemma toggle_display_parts [cta_simps]: "parts_apart (toggle_display cb s) = parts_apart s"
  by (simp add: parts_apart_def cta_simps)

lemma toggle_display_host_attrs:
  "parts_apart s \<Longrightarrow> host_attr (toggle_display cb s) a = host_attr s a"
  by (simp add: parts_apart_def host_attr_def cta_simps)

lemma toggleModalDisplay_inv:
  assumes "parts_apart s" "timers_ok s"
  shows "cta_inv (toggleModalDisplay cb s)"
proof -
  define s1 where "s1 = s\<lparr>c_dom := set_attr (c_host s) ''active'' (js_bool (isActive s)) (c_dom s)\<rparr>"
  have p1: "parts_apart s1" "timers_ok s1" using assms by (simp_all add: s1_def parts_apart_def timers_ok_def)
  have r1: "reflects_active s1" by (simp add: s1_def reflects_active_def host_attr_def)
  have "cta_inv (toggle_display cb s1)"
    using p1 r1 by (simp add: cta_inv_def reflects_active_def toggle_display_host_attrs toggle_display_timers_ok cta_simps)
  moreover have "cta_inv (toggle_display cb (toggle_display ActiveFlagCb s1))"
    using p1 r1 by (simp add: cta_inv_def reflects_active_def toggle_display_host_attrs toggle_display_timers_ok cta_simps)
  ultimately show ?thesis by (simp add: toggleModalDisplay_unfold Let_def flip: s1_def)
qed

lemma setActiveFlag_inv:
  "parts_apart s \<Longrightarrow> timers_ok s \<Longrightarrow> cta_inv (setActiveFlag s)"
  by (simp add: setActiveFlag.simps toggleModalDisplay_inv parts_apart_def timers_ok_def)

lemma flag_setters_inv:
  "cta_inv s \<Longrightarrow> cta_inv (setAnimationFlag s)"
  "cta_inv s \<Longrightarrow> cta_inv (setStaticFlag s)"
  "cta_inv s \<Longrightarrow> cta_inv (setCloseTitle s)"
  by (simp_all add: setAnimationFlag_def setStaticFlag_def setCloseTitle_def Let_def inv_defs)

lemma attributeChangedCallback_other_inv:
  "name \<noteq> ''active'' \<Longrightarrow> cta_inv s \<Longrightarrow> cta_inv (attributeChangedCallback name old new s)"
  by (simp add: attributeChangedCallback.simps Let_def flag_setters_inv)

lemma set_host_attr_inv:
  assumes "cta_inv s"
  shows "cta_inv (set_host_attr a v s)"
proof -
  define s1 where "s1 = s\<lparr>c_dom := (case v of Some x \<Rightarrow> set_attr (c_host s) a x (c_dom s)
                                   | None \<Rightarrow> remove_attr (c_host s) a (c_dom s))\<rparr>"
  have p1: "parts_apart s1" "timers_ok s1"
    using assms by (simp_all add: s1_def inv_defs)
  have h1: "host_attr s1 a = v" by (simp add: s1_def host_attr_def split: option.split)
  show ?thesis
  proof (cases "a = ''active''")
    case True
    show ?thesis
    proof (cases "host_attr s a = v")
      case same: True
      have "reflects_active s1" using assms h1 same True by (simp add: inv_defs s1_def)
      then have "cta_inv s1" using p1 by (simp add: cta_inv_def)
      moreover have "set_host_attr a v s = s1"
        using same by (simp add: set_host_attr_def Let_def s1_def)
      ultimately show ?thesis by simp
    next
      case False
      then have "set_host_attr a v s = setActiveFlag s1"
        unfolding s1_def set_host_attr_def using True
        by (simp add: Let_def observedAttributes_def attributeChangedCallback.simps)
      then show ?thesis using p1 by (simp add: setActiveFlag_inv)
    qed
  next
    case False
    then have "host_attr s1 ''active'' = host_attr s ''active''"
      by (simp add: s1_def host_attr_def split: option.split)
    then have "cta_inv s1" using assms p1 by (simp add: cta_inv_def reflects_active_def s1_def)
    moreover have "set_host_attr a v s =
        (if a \<in> set observedAttributes then attributeChangedCallback a (host_attr s a) v s1 else s1)"
      by (simp add: set_host_attr_def Let_def s1_def)
    ultimately show ?thesis using False by (simp add: attributeChangedCallback_other_inv)
  qed
qed

lemma cta_inv_updates [simp]:
  "cta_inv (s\<lparr>c_frames := f\<rparr>) = cta_inv s" "cta_inv (s\<lparr>c_focus := x\<rparr>) = cta_inv s"
  "cta_inv (s\<lparr>c_prevented := b\<rparr>) = cta_inv s" "cta_inv (s\<lparr>scroll_top := n\<rparr>) = cta_inv s"
  by (simp_all add: inv_defs)

lemma focus_requests [simp]:
  "focusElement e s = s\<lparr>c_frames := c_frames s @ [FocusElementCb e]\<rparr>"
  "focusModal s = s\<lparr>c_frames := c_frames s @ [FocusModalCb]\<rparr>"
  by (simp_all add: focusElement_def focusModal_def requestAnimationFrame_def)

lemma handleFocusIn_frames_only:
  "handleFocusIn s = s\<lparr>c_frames := c_frames (handleFocusIn s)\<rparr>"
  by (simp add: handleFocusIn_def split: option.split frame_cb.split)

lemma handleFocusIn_inv: "cta_inv (handleFocusIn s) = cta_inv s"
  by (subst handleFocusIn_frames_only) simp

lemma handleClickToggle_inv:
  assumes "cta_inv s"
  shows "cta_inv (handleClickToggle ev s)"
proof -
  have step: "cta_inv (toggleModalDisplay ClickToggleCb (s'\<lparr>isActive := \<not> isActive s'\<rparr>))"
    if "s' = s \<or> s' = s\<lparr>c_prevented := True\<rparr>" for s'
    using that assms by (intro toggleModalDisplay_inv) (auto simp: inv_defs)
  show ?thesis using step by (simp add: handleClickToggle_def Let_def assms split: prod.split)
qed

lemma handleClickOverlay_inv: "cta_inv s \<Longrightarrow> cta_inv (handleClickOverlay x s)"
  by (simp add: handleClickOverlay_def handleClickToggle_inv)

lemma handleKeyDown_cta_inv: "cta_inv s \<Longrightarrow> cta_inv (handleKeyDown_cta k s)"
  by (simp add: handleKeyDown_cta_def Let_def handleClickToggle_inv handleFocusIn_inv)

lemma run_handler_inv: "cta_inv s \<Longrightarrow> cta_inv (run_handler h x k s)"
  by (simp add: run_handler_def handleFocusIn_inv handleKeyDown_cta_inv handleClickToggle_inv
      handleClickOverlay_inv split: cta_handler.split)

lemma run_listeners_inv: "cta_inv s \<Longrightarrow> cta_inv (run_listeners ty x k ct s)"
  unfolding run_listeners_def
proof (rule fold_preserves)
  fix l and s' :: cta_state
  assume "cta_inv s'"
  then show "cta_inv ((\<lambda>(t, ty', h) s'. if t = ct \<and> ty' = ty then run_handler h x k s' else s') l s')"
    by (cases l) (simp add: run_handler_inv)
qed

lemma dispatch_inv: "cta_inv s \<Longrightarrow> cta_inv (dispatch ty x k s)"
  unfolding dispatch_def by (rule fold_preserves) (simp_all add: run_listeners_inv)

lemma focus_el_inv: "cta_inv s \<Longrightarrow> cta_inv (focus_el x s)"
  by (simp add: focus_el_def dispatch_inv)

lemma run_frame_cb_inv: "cta_inv s \<Longrightarrow> cta_inv (run_frame_cb cb s)"
  by (cases cb) (simp_all add: focus_el_inv)

lemma animation_frame_inv: "cta_inv s \<Longrightarrow> cta_inv (animation_frame s)"
  unfolding animation_frame_def by (rule fold_preserves) (simp_all add: run_frame_cb_inv)

lemma earliest_None_iff [simp]: "earliest ts = None \<longleftrightarrow> ts = []"
  by (induction ts) (auto split: option.split)

lemma earliest_Some:
  "earliest ts = Some x \<Longrightarrow> x \<in> set ts \<and> list_all (\<lambda>y. fst (snd x) \<le> fst (snd y)) ts"
proof (induction ts arbitrary: x)
  case (Cons t ts)
  show ?case
  proof (cases "earliest ts")
    case (Some u)
    with Cons.IH [of u] Cons.prems show ?thesis
      by (auto simp: list_all_iff split: if_splits)
  qed (use Cons.prems in simp)
qed simp

lemma run_timer_fields [cta_simps]:
  "isHideShow (run_timer cb s) = False" "c_now (run_timer cb s) = c_now s"
  "c_host (run_timer cb s) = c_host s" "isActive (run_timer cb s) = isActive s"
  "modalScroll (run_timer cb s) = modalScroll s" "buttonClose (run_timer cb s) = buttonClose s"
  "modal (run_timer cb s) = modal s" "c_listeners (run_timer cb s) = c_listeners s"
  "isStatic (run_timer cb s) = isStatic s"
  by (cases cb; simp add: clearTimeout_def Let_def split: option.split; fail)+

lemma run_timer_timers: "set (c_timers (run_timer cb s)) \<subseteq> set (c_timers s) \<and>
    length (c_timers (run_timer cb s)) \<le> length (c_timers s)"
  by (cases cb) (auto simp: clearTimeout_def Let_def split: option.split)

lemma run_timer_host_attr:
  "c_host s \<noteq> modalScroll s \<Longrightarrow> host_attr (run_timer cb s) a = host_attr s a"
  by (cases cb) (simp_all add: clearTimeout_def Let_def host_attr_def split: option.split)

lemma fire_one_inv:
  assumes inv: "firing_inv N s" and e: "earliest (c_timers s) = Some (h, d, cb)"
  shows "firing_inv N (run_timer cb (s\<lparr>c_now := max (c_now s) d, c_timers := remove1 (h, d, cb) (c_timers s)\<rparr>))"
    (is "firing_inv N (run_timer cb ?s)")
proof -
  from earliest_Some [OF e] have mem: "(h, d, cb) \<in> set (c_timers s)"
    and min: "list_all (\<lambda>y. d \<le> fst (snd y)) (c_timers s)" by auto
  from inv mem have "c_now s \<le> d" by (auto simp: firing_inv_def list_all_iff)
  then have now: "c_now ?s = d" by simp
  have sub: "set (c_timers (run_timer cb ?s)) \<subseteq> set (c_timers s)"
    using run_timer_timers [of cb ?s] set_remove1_subset [of "(h, d, cb)" "c_timers s"] by auto
  have "list_all (\<lambda>t. c_now (run_timer cb ?s) \<le> fst (snd t) \<and> fst (snd t) \<le> N) (c_timers (run_timer cb ?s))"
    using sub min inv now by (auto simp: list_all_iff firing_inv_def cta_simps)
  moreover have ha: "host_attr (run_timer cb ?s) a = host_attr s a" for a
    using inv run_timer_host_attr [of ?s cb a]
    by (simp add: firing_inv_def parts_apart_def host_attr_def)
  moreover have "reflects_active (run_timer cb ?s)" "parts_apart (run_timer cb ?s)"
    using inv by (simp_all add: ha firing_inv_def reflects_active_def parts_apart_def cta_simps)
  ultimately show ?thesis by (simp add: firing_inv_def cta_simps)
qed

lemma fire_due_inv: "firing_inv N s \<Longrightarrow> firing_inv N (fire_due n t s)"
proof (induction n arbitrary: s)
  case (Suc n)
  then show ?case by (auto simp: fire_one_inv split: option.split)
qed simp

lemma fire_due_drains:
  "length (c_timers s) \<le> n \<Longrightarrow> list_all (\<lambda>tm. t < fst (snd tm)) (c_timers (fire_due n t s))"
proof (induction n arbitrary: s)
  case 0
  then show ?case by simp
next
  case (Suc n)
  show ?case
  proof (cases "earliest (c_timers s)")
    case (Some x)
    obtain h d cb where x: "x = (h, d, cb)" by (cases x) auto
    from earliest_Some [OF Some] x have mem: "(h, d, cb) \<in> set (c_timers s)"
      and min: "list_all (\<lambda>y. d \<le> fst (snd y)) (c_timers s)" by auto
    show ?thesis
    proof (cases "d \<le> t")
      case True
      let ?s = "s\<lparr>c_now := max (c_now s) d, c_timers := remove1 (h, d, cb) (c_timers s)\<rparr>"
      have "length (c_timers (run_timer cb ?s)) \<le> length (c_timers s) - 1"
        using run_timer_timers [of cb ?s] mem by (simp add: length_remove1)
      moreover have "0 < length (c_timers s)" using mem by (auto simp: length_pos_if_in_set)
      ultimately have "length (c_timers (run_timer cb ?s)) \<le> n" using Suc.prems by linarith
      with Suc.IH True Some x show ?thesis by simp
    next
      case False
      with min Some x show ?thesis by (auto simp: list_all_iff)
    qed
  qed simp
qed

lemma advance_inv:
  assumes "cta_inv s"
  shows "cta_inv (advance d s)"
proof -
  let ?t = "c_now s + d"
  let ?f = "fire_due (length (c_timers s)) ?t s"
  have "firing_inv (c_now s + ANIMATION_DURATION) s"
    using assms by (simp add: firing_inv_def cta_inv_def timers_ok_def)
  then have j: "firing_inv (c_now s + ANIMATION_DURATION) ?f" by (rule fire_due_inv)
  have dr: "list_all (\<lambda>tm. ?t < fst (snd tm)) (c_timers ?f)" by (rule fire_due_drains) simp
  have "list_all (\<lambda>tm. ?t \<le> fst (snd tm) \<and> fst (snd tm) \<le> ?t + ANIMATION_DURATION) (c_timers ?f)"
    using j dr by (auto simp: firing_inv_def list_all_iff)
  with j show ?thesis
    by (simp add: advance_def Let_def cta_inv_def timers_ok_def firing_inv_def reflects_active_def
        parts_apart_def host_attr_def)
qed

lemma listener_ops_inv [simp]:
  "cta_inv (add_listener l s) = cta_inv s" "cta_inv (remove_listener l s) = cta_inv s"
  by (simp_all add: add_listener_def remove_listener_def inv_defs)

lemma events_inv: "cta_inv s \<Longrightarrow> cta_inv (addEvents s)" "cta_inv s \<Longrightarrow> cta_inv (removeEvents s)"
  unfolding addEvents_def removeEvents_def
  by (rule fold_preserves, simp, rule fold_preserves, simp_all)+

lemma cta_step_inv: "cta_inv s \<Longrightarrow> cta_inv (cta_step a s)"
proof (cases a)
  case (SetHostAttr x y) assume "cta_inv s" then show ?thesis using SetHostAttr by (simp add: set_host_attr_inv)
next
  case (RemoveHostAttr x) assume "cta_inv s" then show ?thesis using RemoveHostAttr by (simp add: set_host_attr_inv)
next
  case (Click x) assume "cta_inv s" then show ?thesis using Click by (simp add: dispatch_inv)
next
  case (KeyPress x) assume "cta_inv s" then show ?thesis using KeyPress by (simp add: dispatch_inv)
next
  case (MoveFocus x) assume "cta_inv s" then show ?thesis using MoveFocus by (simp add: focus_el_inv)
next
  case (Wait x) assume "cta_inv s" then show ?thesis using Wait by (simp add: advance_inv)
next
  case NextFrame assume "cta_inv s" then show ?thesis using NextFrame by (simp add: animation_frame_inv)
next
  case Connect assume "cta_inv s" then show ?thesis using Connect by (simp add: connectedCallback_def events_inv)
next
  case Disconnect assume "cta_inv s" then show ?thesis using Disconnect by (simp add: disconnectedCallback_def events_inv)
qed

lemma cta_run_inv: "cta_inv s \<Longrightarrow> cta_inv (cta_run acts s)"
  unfolding cta_run_def by (rule fold_preserves) (simp_all add: cta_step_inv)

lemma attributeChangedCallback_inv:
  "cta_inv s \<Longrightarrow> cta_inv (attributeChangedCallback name old new s)"
proof (cases "name = ''active'' \<and> old \<noteq> new")
  case True
  assume "cta_inv s"
  then have "parts_apart s" "timers_ok s" by (simp_all add: cta_inv_def)
  then have "cta_inv (setActiveFlag s)" by (rule setActiveFlag_inv)
  then show ?thesis using True by (simp add: attributeChangedCallback.simps)
qed (auto simp: attributeChangedCallback_other_inv)

lemma setters_keep [cta_simps]:
  "parts_apart (setAnimationFlag s) = parts_apart s" "timers_ok (setAnimationFlag s) = timers_ok s"
  "parts_apart (setCloseTitle s) = parts_apart s" "timers_ok (setCloseTitle s) = timers_ok s"
  "parts_apart (setModalLabel s) = parts_apart s" "timers_ok (setModalLabel s) = timers_ok s"
  "parts_apart (setStaticFlag s) = parts_apart s" "timers_ok (setStaticFlag s) = timers_ok s"
  by (simp_all add: setAnimationFlag_def setCloseTitle_def Let_def setModalLabel_def
      setStaticFlag_def parts_apart_def timers_ok_def)

lemma setActiveFlag_parts [cta_simps]:
  "modalScroll (setActiveFlag s) = modalScroll s" "modalOverlay (setActiveFlag s) = modalOverlay s"
  "modal (setActiveFlag s) = modal s" "buttonClose (setActiveFlag s) = buttonClose s"
  "focusTrapList (setActiveFlag s) = focusTrapList s"
  by (simp_all add: setActiveFlag.simps toggleModalDisplay_unfold Let_def cta_simps)

lemma markup_descendants:
  "descendants (markup_tree b) b = [b + 1, b + 2, b + 3, b + 4, b + 5, b + 6, b + 7, b + 8, b + 9]"
  by (simp add: descendants_def markup_tree_def)

lemma markup_queries:
  shows "querySelector (clone_markup b d) (markup_tree b) b [[HasClass ''cta-modal__scroll'']] = Some (b + 3)"
    "querySelector (clone_markup b d) (markup_tree b) b [[HasClass ''cta-modal__overlay'']] = Some (b + 5)"
    "querySelector (clone_markup b d) (markup_tree b) b [[HasClass ''cta-modal__dialog'']] = Some (b + 6)"
    "querySelector (clone_markup b d) (markup_tree b) b [[HasClass ''cta-modal__close'']] = Some (b + 7)"
    "querySelectorAll (clone_markup b d) (markup_tree b) b [[HasClass ''cta-modal__focus-trap'']] = [b + 4, b + 9]"
  by (simp_all add: clone_markup_def querySelector_def querySelectorAll_def markup_descendants
      sel_matches_def sel_compound_def markup_def mk_el_def FOCUS_TRAP_def)

lemma ctor_parts_parts:
  "modalScroll (ctor_parts b s) = b + 3 \<and> modalOverlay (ctor_parts b s) = b + 5 \<and>
   modal (ctor_parts b s) = b + 6 \<and> buttonClose (ctor_parts b s) = b + 7 \<and>
   focusTrapList (ctor_parts b s) = [b + 4, b + 9]"
  by (simp add: ctor_parts_def Let_def attach_shadow_def markup_queries cast_el_def)

lemma ctor_parts_page [cta_simps]:
  "c_host (ctor_parts b s) = c_host s" "c_timers (ctor_parts b s) = c_timers s"
  "isHideShow (ctor_parts b s) = False" "c_now (ctor_parts b s) = c_now s"
  by (simp_all add: ctor_parts_def Let_def attach_shadow_def)

lemma setters_fields [cta_simps]:
  "modalScroll (setAnimationFlag s) = modalScroll s" "modalScroll (setCloseTitle s) = modalScroll s"
  "modalScroll (setModalLabel s) = modalScroll s" "modalScroll (setStaticFlag s) = modalScroll s"
  "modal (setAnimationFlag s) = modal s" "modal (setCloseTitle s) = modal s"
  "modal (setModalLabel s) = modal s" "modal (setStaticFlag s) = modal s"
  "buttonClose (setAnimationFlag s) = buttonClose s" "buttonClose (setCloseTitle s) = buttonClose s"
  "buttonClose (setModalLabel s) = buttonClose s" "buttonClose (setStaticFlag s) = buttonClose s"
  "modalOverlay (setAnimationFlag s) = modalOverlay s" "modalOverlay (setCloseTitle s) = modalOverlay s"
  "modalOverlay (setModalLabel s) = modalOverlay s" "modalOverlay (setStaticFlag s) = modalOverlay s"
  "focusTrapList (setAnimationFlag s) = focusTrapList s"
  "focusTrapList (setCloseTitle s) = focusTrapList s"
  "focusTrapList (setModalLabel s) = focusTrapList s"
  "focusTrapList (setStaticFlag s) = focusTrapList s"
  by (simp_all add: setAnimationFlag_def setCloseTitle_def Let_def setModalLabel_def setStaticFlag_def)

lemma CtaModal_new_parts:
  "modalScroll (CtaModal_new b s) = b + 3 \<and> modalOverlay (CtaModal_new b s) = b + 5 \<and>
   modal (CtaModal_new b s) = b + 6 \<and> buttonClose (CtaModal_new b s) = b + 7 \<and>
   focusTrapList (CtaModal_new b s) = [b + 4, b + 9]"
  using ctor_parts_parts [of b s] by (simp add: CtaModal_new_def cta_simps)

lemma CtaModal_new_inv:
  assumes "c_host s < b" "c_timers s = []"
  shows "cta_inv (CtaModal_new b s)"
proof -
  let ?p = "setStaticFlag (setModalLabel (setCloseTitle (setAnimationFlag (ctor_parts b s))))"
  have "parts_apart (ctor_parts b s)" "timers_ok (ctor_parts b s)"
    using assms ctor_parts_parts [of b s] by (simp_all add: parts_apart_def timers_ok_def cta_simps)
  then have "parts_apart ?p" "timers_ok ?p" by (simp_all add: cta_simps)
  then show ?thesis unfolding CtaModal_new_def by (rule setActiveFlag_inv)
qed

lemma upgrade_inv:
  assumes "c_host s < b" "c_timers s = []"
  shows "cta_inv (upgrade b s)"
proof -
  have c: "cta_inv (CtaModal_new b s)" using assms by (rule CtaModal_new_inv)
  have "cta_inv (fold (\<lambda>(a, v) s'. case v of None \<Rightarrow> s'
                  | Some x \<Rightarrow> attributeChangedCallback a None (Some x) s')
              (map (\<lambda>a. (a, host_attr s a)) observedAttributes) (CtaModal_new b s))"
    by (rule fold_preserves) (auto simp: c attributeChangedCallback_inv split: option.split)
  then show ?thesis by (simp add: upgrade_def Let_def connectedCallback_def events_inv)
qed

text \<open>Time passing fires every timer due: after advance d no pending timer is due by the new clock, so the fuel of fire_due (the number of pending timers) is enough.\<close>

lemma advance_fires_due: "list_all (\<lambda>tm. c_now s + d < fst (snd tm)) (c_timers (advance d s))"
  using fire_due_drains [of s "length (c_timers s)" "c_now s + d"] by (simp add: advance_def Let_def)

lemma advance_now: "c_now (advance d s) = c_now s + d"
  by (simp add: advance_def Let_def)

lemma advance_bound:
  assumes "cta_inv s"
  shows "list_all (\<lambda>t. fst (snd t) \<le> c_now s + ANIMATION_DURATION) (c_timers (advance d s))"
proof -
  have "firing_inv (c_now s + ANIMATION_DURATION) s"
    using assms by (simp add: firing_inv_def cta_inv_def timers_ok_def)
  then have "firing_inv (c_now s + ANIMATION_DURATION) (fire_due (length (c_timers s)) (c_now s + d) s)"
    by (rule fire_due_inv)
  then show ?thesis by (auto simp: firing_inv_def advance_def Let_def list_all_iff)
qed

text \<open>C15: The animation lock is released in bounded time: from any invariant state, after ANIMATION_DURATION ms without input every completion timer has fired and _isHideShow is false, so Escape and the backdrop work again.\<close>

lemma animation_lock_released:
  assumes "cta_inv s"
  shows "c_timers (advance ANIMATION_DURATION s) = [] \<and> \<not> isHideShow (advance ANIMATION_DURATION s)"
proof -
  let ?a = "advance ANIMATION_DURATION s"
  have "list_all (\<lambda>t. fst (snd t) \<le> c_now s + ANIMATION_DURATION) (c_timers ?a)"
    using assms by (rule advance_bound)
  moreover have "list_all (\<lambda>tm. c_now s + ANIMATION_DURATION < fst (snd tm)) (c_timers ?a)"
    using fire_due_drains [of s "length (c_timers s)" "c_now s + ANIMATION_DURATION"]
    by (simp add: advance_def Let_def)
  ultimately have none: "c_timers ?a = []" by (cases "c_timers ?a") auto
  have "cta_inv ?a" using assms by (rule advance_inv)
  with none show ?thesis by (simp add: cta_inv_def timers_ok_def)
qed

lemma animation_lock_released_witness:
  "cta_inv (cta_run [Click 3] demo_cta) \<and>
   c_timers (advance ANIMATION_DURATION (cta_run [Click 3] demo_cta)) = [] \<and>
   \<not> isHideShow (advance ANIMATION_DURATION (cta_run [Click 3] demo_cta))"
proof -
  have h: "cta_inv (cta_run [Click 3] demo_cta)"
    unfolding demo_cta_def by (intro cta_run_inv upgrade_inv) (simp_all add: demo_cta_page_def)
  show ?thesis using animation_lock_released [OF h] h by simp
qed

lemma toLowerCase_Nil [simp]: "toLowerCase [] = []"
  by (simp add: toLowerCase_def)

lemma key_consts_differ [simp]:
  "ESCAPE \<noteq> TAB" "ESCAPE \<noteq> []" "ESCAPE \<noteq> ENTER" "ESCAPE \<noteq> SPACE" "TAB \<noteq> []"
  "TAB \<noteq> ESCAPE" "[] \<noteq> ESCAPE" "ENTER \<noteq> ESCAPE" "SPACE \<noteq> ESCAPE" "[] \<noteq> TAB"
  by (simp_all add: ESCAPE_def TAB_def ENTER_def SPACE_def)

lemma inert_click_toggle:
  "inert_event s x k \<Longrightarrow> handleClickToggle (Some (UiEvent x k)) s = s"
  by (auto simp: inert_event_def handleClickToggle_def click_toggle_check_def Let_def)

lemma inert_handler:
  assumes "isStatic s" "inert_event s x k"
  shows "frames_only s (run_handler h x k s)"
proof (cases h)
  case HandleFocusIn
  then show ?thesis by (simp add: run_handler_def frames_only_def) (rule handleFocusIn_frames_only)
next
  case HandleKeyDown
  have "toLowerCase k \<noteq> TAB" using assms(2) by (auto simp: inert_event_def)
  with assms HandleKeyDown show ?thesis
    by (auto simp: run_handler_def handleKeyDown_cta_def Let_def frames_only_def inert_event_def)
qed (use assms in \<open>simp_all add: run_handler_def inert_click_toggle handleClickOverlay_def frames_only_def\<close>)

lemma frames_only_same:
  assumes "frames_only s s'"
  shows "isStatic s' = isStatic s \<and> inert_event s' = inert_event s \<and> isActive s' = isActive s \<and>
    c_timers s' = c_timers s"
proof -
  obtain f where "s' = s\<lparr>c_frames := f\<rparr>" using assms by (auto simp: frames_only_def)
  then show ?thesis by (simp add: inert_event_def fun_eq_iff)
qed

lemma frames_only_iff: "frames_only s s' \<longleftrightarrow> (\<exists>f. s' = s\<lparr>c_frames := f\<rparr>)"
  by (auto simp: frames_only_def)

lemma frames_only_trans: "frames_only s s' \<Longrightarrow> frames_only s' s'' \<Longrightarrow> frames_only s s''"
  by (auto simp: frames_only_iff)

lemma inert_dispatch:
  assumes "isStatic s" "inert_event s x k"
  shows "frames_only s (dispatch ty x k s)"
proof -
  have step: "frames_only s (run_handler h x k s')" if "frames_only s s'" for h s'
    using that frames_only_same [OF that] assms inert_handler [of s' x k h]
    by (auto intro: frames_only_trans)
  have "frames_only s (run_listeners ty x k ct s')" if "frames_only s s'" for ct s'
    unfolding run_listeners_def
    by (rule fold_preserves [where P = "frames_only s"]) (auto simp: step that split: prod.split)
  then show ?thesis unfolding dispatch_def
    by (intro fold_preserves [where P = "frames_only s"]) (auto simp: frames_only_def)
qed

text \<open>C8: Static suppression of Escape: with the static attribute set, pressing Escape (any case) on the page neither closes nor opens the modal and arms no timer.\<close>

lemma static_escape_ignored:
  assumes "isStatic s" "toLowerCase k = ESCAPE"
  shows "isActive (cta_step (KeyPress k) s) = isActive s \<and> c_timers (cta_step (KeyPress k) s) = c_timers s"
proof -
  let ?s0 = "s\<lparr>c_prevented := False\<rparr>"
  have "frames_only ?s0 (dispatch ''keydown'' (c_focus ?s0) k ?s0)"
    using assms by (intro inert_dispatch) (simp_all add: inert_event_def)
  then show ?thesis using frames_only_same by fastforce
qed

lemma static_escape_ignored_witness:
  "isStatic (cta_run [SetHostAttr ''static'' ''true'', Click 3, Wait 300] demo_cta) \<and>
   toLowerCase ''Escape'' = ESCAPE \<and>
   isActive (cta_step (KeyPress ''Escape'') (cta_run [SetHostAttr ''static'' ''true'', Click 3, Wait 300] demo_cta)) =
     isActive (cta_run [SetHostAttr ''static'' ''true'', Click 3, Wait 300] demo_cta)"
proof -
  have h1: "isStatic (cta_run [SetHostAttr ''static'' ''true'', Click 3, Wait 300] demo_cta)" by code_simp
  have h2: "toLowerCase ''Escape'' = ESCAPE" by code_simp
  show ?thesis using static_escape_ignored [OF h1 h2] h1 h2 by simp
qed

text \<open>C19: Static suppression of the backdrop: with the static attribute set, a click on any element that is neither the close button nor inside a .cta-modal-toggle (the overlay backdrop included) leaves the open state and the timers unchanged.\<close>

lemma static_click_ignored:
  assumes "isStatic s" "''cta-modal__close'' \<notin> set (classes (c_dom s x))"
    "closest (c_dom s) (c_doc s) [[HasClass ''cta-modal-toggle'']] x = None"
  shows "isActive (cta_step (Click x) s) = isActive s \<and> c_timers (cta_step (Click x) s) = c_timers s"
proof -
  let ?s0 = "s\<lparr>c_prevented := False\<rparr>"
  have "frames_only ?s0 (dispatch ''click'' x [] ?s0)"
    using assms by (intro inert_dispatch) (simp_all add: inert_event_def)
  then show ?thesis using frames_only_same by fastforce
qed

lemma static_click_ignored_witness:
  "isStatic (cta_run [SetHostAttr ''static'' ''true'', Click 3, Wait 300] demo_cta) \<and>
   isActive (cta_step (Click 105) (cta_run [SetHostAttr ''static'' ''true'', Click 3, Wait 300] demo_cta)) =
     isActive (cta_run [SetHostAttr ''static'' ''true'', Click 3, Wait 300] demo_cta)"
proof -
  let ?s = "cta_run [SetHostAttr ''static'' ''true'', Click 3, Wait 300] demo_cta"
  have h1: "isStatic ?s" by code_simp
  have h2: "''cta-modal__close'' \<notin> set (classes (c_dom ?s 105))" by code_simp
  have h3: "closest (c_dom ?s) (c_doc ?s) [[HasClass ''cta-modal-toggle'']] 105 = None" by code_simp
  show ?thesis using static_click_ignored [OF h1 h2 h3] h1 by simp
qed

lemma isMotionOkay_upd [simp]:
  "isMotionOkay (s\<lparr>c_dom := d\<rparr>) = isMotionOkay s" "isMotionOkay (s\<lparr>isActive := b\<rparr>) = isMotionOkay s"
  by (simp_all add: isMotionOkay_def)

lemma set_active_unfold:
  assumes "host_attr s ''active'' \<noteq> Some (js_bool b)"
  shows "set_host_attr ''active'' (Some (js_bool b)) s =
    toggle_display ActiveFlagCb (s\<lparr>c_dom := set_attr (c_host s) ''active'' (js_bool b) (c_dom s), isActive := b\<rparr>)"
proof -
  define s1 where "s1 = s\<lparr>c_dom := set_attr (c_host s) ''active'' (js_bool b) (c_dom s)\<rparr>"
  have h1: "host_attr s1 ''active'' = Some (js_bool b)" by (simp add: s1_def host_attr_def)
  have "set_host_attr ''active'' (Some (js_bool b)) s = setActiveFlag s1"
    using assms by (simp add: set_host_attr_def Let_def s1_def observedAttributes_def
        attributeChangedCallback.simps)
  also have "\<dots> = toggle_display ActiveFlagCb (s1\<lparr>isActive := b\<rparr>)"
    using h1 by (simp add: setActiveFlag.simps toggleModalDisplay_unfold Let_def host_attr_def)
  finally show ?thesis by (simp add: s1_def)
qed

lemma set_active_true_unfold:
  "host_attr s ''active'' \<noteq> Some ''true'' \<Longrightarrow> set_host_attr ''active'' (Some ''true'') s =
    toggle_display ActiveFlagCb (s\<lparr>c_dom := set_attr (c_host s) ''active'' ''true'' (c_dom s), isActive := True\<rparr>)"
  using set_active_unfold [of s True] by (simp add: js_bool_def)

text \<open>C16: Showing through the active attribute: setting active="true" on a closed, settled element opens it synchronously (display block, _isActive), in transition exactly when motion is allowed, and arms one completion timer due after ANIMATION_DURATION, or at once under reduced motion.\<close>

lemma show_by_attribute:
  assumes "\<not> isHideShow s" "host_attr s ''active'' \<noteq> Some ''true''"
  shows "isActive (set_host_attr ''active'' (Some ''true'') s) \<and>
    scroll_display (set_host_attr ''active'' (Some ''true'') s) = ''block'' \<and>
    isHideShow (set_host_attr ''active'' (Some ''true'') s) = isMotionOkay s \<and>
    c_timers (set_host_attr ''active'' (Some ''true'') s) =
      c_timers s @ [(c_next_timer s, c_now s + (if isMotionOkay s then ANIMATION_DURATION else 0), ShowDone)]"
  using assms set_active_true_unfold [OF assms(2)] by (simp add: cta_simps)

lemma show_by_attribute_witness:
  "\<not> isHideShow (demo_cta\<lparr>reduced_motion := True\<rparr>) \<and>
   isActive (set_host_attr ''active'' (Some ''true'') (demo_cta\<lparr>reduced_motion := True\<rparr>)) \<and>
   \<not> isHideShow (set_host_attr ''active'' (Some ''true'') (demo_cta\<lparr>reduced_motion := True\<rparr>))"
proof -
  let ?s = "demo_cta\<lparr>reduced_motion := True\<rparr>"
  have h1: "\<not> isHideShow ?s" by code_simp
  have h2: "host_attr ?s ''active'' \<noteq> Some ''true''" by code_simp
  show ?thesis using show_by_attribute [OF h1 h2] h1 by (simp add: isMotionOkay_def)
qed

lemma focused_element: "(case shadow_activeElement s of Some x \<Rightarrow> x | None \<Rightarrow> document_activeElement s) = c_focus s"
  by (simp add: shadow_activeElement_def document_activeElement_def)

text \<open>C7: Sentinel redirect: focus arriving on the first sentinel moves to the last focusable element of the modal (shadow list then slotted list), on the second sentinel to the first, anywhere outside the host and the dialog to the dialog, and inside it nowhere.\<close>

lemma sentinel_redirect:
  assumes "focusTrapList s = [t1, t2]" "t1 \<noteq> t2"
  shows "focusin_redirect s =
    (if c_focus s = t1 \<and> focusListTotal s \<noteq> [] then Some (FocusElementCb (last (focusListTotal s)))
     else if c_focus s = t2 \<and> focusListTotal s \<noteq> [] then Some (FocusElementCb (hd (focusListTotal s)))
     else if isOutsideModal s (Some (c_focus s)) then Some FocusModalCb else None)"
proof -
  have g: "js_get [t1, t2] 0 = Some t1" "js_get [t1, t2] 1 = Some t2" by (simp_all add: js_get_def)
  show ?thesis using assms
    by (auto simp: focusin_redirect_def Let_def focused_element g js_get_zero js_get_last
        js_get_Nil)
qed

lemma sentinel_redirect_witness:
  "focusTrapList demo_cta = [104, 109] \<and>
   focusin_redirect (demo_cta\<lparr>c_focus := 104\<rparr>) =
     (if focusListTotal (demo_cta\<lparr>c_focus := 104\<rparr>) \<noteq> []
      then Some (FocusElementCb (last (focusListTotal (demo_cta\<lparr>c_focus := 104\<rparr>))))
      else if isOutsideModal (demo_cta\<lparr>c_focus := 104\<rparr>) (Some 104) then Some FocusModalCb else None)"
proof -
  have h: "focusTrapList (demo_cta\<lparr>c_focus := 104\<rparr>) = [104, 109]" by code_simp
  show ?thesis using sentinel_redirect [OF h, of] h by simp
qed

lemma listener_fold_fields:
  "c_listeners (fold remove_listener ls s) = fold remove1 ls (c_listeners s)"
  "c_listeners (fold add_listener ls s) = fold (\<lambda>x ys. if x \<in> set ys then ys else ys @ [x]) ls (c_listeners s)"
  "own_listeners (fold remove_listener ls s) = own_listeners s"
  "own_listeners (fold add_listener ls s) = own_listeners s"
  by (induction ls arbitrary: s)
     (simp_all add: remove_listener_def add_listener_def own_listeners_def)

text \<open>C12: Listener hygiene: _addEvents leaves exactly one copy of each of the element's listeners after the other listeners, _removeEvents after it removes exactly those, and a second _addEvents changes nothing.\<close>

lemma listeners_attach_once:
  assumes "distinct (c_listeners s)" "distinct (own_listeners s)"
  shows "c_listeners (addEvents s) =
           filter (\<lambda>l. l \<notin> set (own_listeners s)) (c_listeners s) @ own_listeners s \<and>
         c_listeners (removeEvents (addEvents s)) =
           filter (\<lambda>l. l \<notin> set (own_listeners s)) (c_listeners s) \<and>
         c_listeners (addEvents (addEvents s)) = c_listeners (addEvents s)"
proof -
  let ?o = "own_listeners s"
  let ?rest = "filter (\<lambda>l. l \<notin> set ?o) (c_listeners s)"
  have add: "c_listeners (addEvents t) = filter (\<lambda>l. l \<notin> set ?o) (c_listeners t) @ ?o"
    if "distinct (c_listeners t)" "own_listeners t = ?o" for t
  proof -
    have "set (filter (\<lambda>l. l \<notin> set ?o) (c_listeners t)) \<inter> set ?o = {}" by auto
    from fold_add_new [OF this assms(2)] show ?thesis
      using that by (simp add: addEvents_def removeEvents_def listener_fold_fields
        fold_remove1_distinct)
  qed
  have a1: "c_listeners (addEvents s) = ?rest @ ?o" using assms(1) by (rule add) simp
  have own1: "own_listeners (addEvents s) = ?o"
    by (simp add: addEvents_def removeEvents_def listener_fold_fields)
  have d1: "distinct (c_listeners (addEvents s))" using a1 assms by auto
  have "c_listeners (removeEvents (addEvents s)) = ?rest"
    using d1 a1 own1 by (simp add: removeEvents_def listener_fold_fields fold_remove1_distinct)
  moreover have "c_listeners (addEvents (addEvents s)) = c_listeners (addEvents s)"
    using add [OF d1 own1] a1 by simp
  ultimately show ?thesis using a1 by simp
qed

lemma listeners_attach_once_witness:
  "distinct (c_listeners demo_cta) \<and> distinct (own_listeners demo_cta) \<and>
   c_listeners (removeEvents (addEvents demo_cta)) = []"
proof -
  have h1: "distinct (c_listeners demo_cta)" by code_simp
  have h2: "distinct (own_listeners demo_cta)" by code_simp
  have h3: "set (c_listeners demo_cta) \<subseteq> set (own_listeners demo_cta)" by code_simp
  show ?thesis using listeners_attach_once [OF h1 h2] h1 h2 h3 by (auto simp: filter_empty_conv)
qed

lemma js_trim_ends:
  "js_trim s \<noteq> [] \<Longrightarrow> \<not> is_ws (hd (js_trim s)) \<and> \<not> is_ws (last (js_trim s))"
proof -
  let ?d = "dropWhile is_ws s"
  assume ne: "js_trim s \<noteq> []"
  then have ne2: "dropWhile is_ws (rev ?d) \<noteq> []" by (simp add: js_trim_def)
  have "?d \<noteq> []"
  proof
    assume "?d = []"
    with ne2 show False by simp
  qed
  have "\<not> is_ws (last (js_trim s))"
    using ne2 hd_dropWhile_not [OF ne2] by (simp add: js_trim_def last_rev)
  moreover have "hd (js_trim s) = last (rev ?d)"
    using ne2 by (simp add: js_trim_def hd_rev last_dropWhile)
  moreover have "\<not> is_ws (hd ?d)" using \<open>?d \<noteq> []\<close> by (rule hd_dropWhile_not)
  ultimately show ?thesis using \<open>?d \<noteq> []\<close> by (simp add: last_rev)
qed

lemma js_trim_all_ws: "list_all is_ws s \<Longrightarrow> js_trim s = []"
proof -
  assume "list_all is_ws s"
  then have "dropWhile is_ws s = []" by (simp add: dropWhile_eq_Nil_conv list_all_iff)
  then show ?thesis by (simp add: js_trim_def del: dropWhile_eq_Nil_conv)
qed

lemma collapse_ws_hd:
  "t \<noteq> [] \<Longrightarrow> \<not> is_ws (hd t) \<Longrightarrow> collapse_ws t \<noteq> [] \<and> hd (collapse_ws t) = hd t"
  by (cases t) auto

lemma collapse_ws_last:
  "s \<noteq> [] \<Longrightarrow> \<not> is_ws (last s) \<Longrightarrow> collapse_ws s \<noteq> [] \<and> \<not> is_ws (last (collapse_ws s))"
proof (induction s rule: collapse_ws.induct)
  case (2 c cs)
  show ?case
  proof (cases "is_ws c")
    case True
    with "2.prems" have "cs \<noteq> []" by auto
    with "2.prems" have l: "\<not> is_ws (last cs)" by simp
    with \<open>cs \<noteq> []\<close> have d: "dropWhile is_ws cs \<noteq> []" by (rule dropWhile_last_not)
    with l have "\<not> is_ws (last (dropWhile is_ws cs))" by (simp add: last_dropWhile)
    note d this
    with "2.IH"(1) True show ?thesis by simp
  next
    case False
    with "2.prems" "2.IH"(2) show ?thesis by (cases cs) auto
  qed
qed simp

lemma collapse_ws_spaces: "c \<in> set (collapse_ws s) \<Longrightarrow> is_ws c \<Longrightarrow> c = CHR '' ''"
  by (induction s rule: collapse_ws.induct) (auto split: if_splits)

lemma collapse_ws_no_adj: "\<not> adj_ws (collapse_ws s)"
proof (induction s rule: collapse_ws.induct)
  case (2 c cs)
  show ?case
  proof (cases "is_ws c")
    case True
    show ?thesis
    proof (cases "dropWhile is_ws cs")
      case (Cons d ds)
      then have "\<not> is_ws d" using hd_dropWhile_not [of is_ws cs] by simp
      with Cons collapse_ws_hd [of "d # ds"] True "2.IH"(1) show ?thesis
        by (cases "collapse_ws (d # ds)") auto
    next
      case Nil
      with True show ?thesis by (simp del: dropWhile_eq_Nil_conv)
    qed
  next
    case False
    with "2.IH"(2) show ?thesis by (cases "collapse_ws cs") auto
  qed
qed simp

text \<open>C30: A heading whose text is only white space gives the dialog an empty aria-label instead of the fallback label.\<close>

lemma whitespace_heading_empty_label:
  "heading s = Some h \<Longrightarrow> c_text s h \<noteq> [] \<Longrightarrow> list_all is_ws (c_text s h) \<Longrightarrow> modal_label s = []"
  by (simp add: modal_label_def js_trim_all_ws)

lemma whitespace_heading_empty_label_witness:
  "heading (demo_cta\<lparr>c_text := (\<lambda>_. '' \<newline> '')\<rparr>) = Some 5 \<and>
   modal_label (demo_cta\<lparr>c_text := (\<lambda>_. '' \<newline> '')\<rparr>) = []"
proof -
  have h1: "heading (demo_cta\<lparr>c_text := (\<lambda>_. '' \<newline> '')\<rparr>) = Some 5" by code_simp
  have h2: "list_all is_ws (c_text (demo_cta\<lparr>c_text := (\<lambda>_. '' \<newline> '')\<rparr>) 5)"
    by (simp add: is_ws_def)
  show ?thesis using whitespace_heading_empty_label [OF h1 _ h2] h1 by simp
qed

text \<open>C29: The aria-label derived from the heading is normalised: no white space at either end, no two white-space characters in a row, and every white space a plain space.\<close>

lemma modal_label_normal:
  "\<not> adj_ws (modal_label s) \<and> (\<forall>c \<in> set (modal_label s). is_ws c \<longrightarrow> c = CHR '' '') \<and>
   (modal_label s \<noteq> [] \<longrightarrow> \<not> is_ws (hd (modal_label s)) \<and> \<not> is_ws (last (modal_label s)))"
proof (cases "heading s")
  case None
  then show ?thesis by (simp add: modal_label_def MODAL_LABEL_FALLBACK_def is_ws_def)
next
  case (Some h)
  define t where "t = js_trim (if c_text s h = [] then MODAL_LABEL_FALLBACK else c_text s h)"
  have l: "modal_label s = collapse_ws t" by (simp add: modal_label_def Some t_def Let_def)
  have "collapse_ws t \<noteq> [] \<longrightarrow> \<not> is_ws (hd (collapse_ws t)) \<and> \<not> is_ws (last (collapse_ws t))"
  proof
    assume "collapse_ws t \<noteq> []"
    then have "t \<noteq> []" by auto
    then show "\<not> is_ws (hd (collapse_ws t)) \<and> \<not> is_ws (last (collapse_ws t))"
      using js_trim_ends [of "if c_text s h = [] then MODAL_LABEL_FALLBACK else c_text s h"]
        collapse_ws_hd [of t] collapse_ws_last [of t] by (simp add: t_def)
  qed
  then show ?thesis using collapse_ws_no_adj [of t] collapse_ws_spaces [of _ t] by (simp add: l)
qed

lemma modal_label_normal_witness:
  "modal_label demo_cta \<noteq> [] \<and> \<not> is_ws (hd (modal_label demo_cta)) \<and>
   \<not> is_ws (last (modal_label demo_cta))"
proof -
  have h: "modal_label demo_cta \<noteq> []" by code_simp
  show ?thesis using modal_label_normal [of demo_cta] h by simp
qed

lemma toggle_display_next [cta_simps]:
  "c_next_timer (toggle_display cb s) =
     (if isActive s \<or> scroll_display s = ''block'' then Suc (c_next_timer s) else c_next_timer s)"
  "isMotionOkay (toggle_display cb s) = isMotionOkay s"
  "timerForShow (toggle_display cb s) = (if isActive s then Some (c_next_timer s) else timerForShow s)"
  by (simp_all add: toggle_display_def Let_def setTimeout_def cta_simps isMotionOkay_def split: prod.splits)

text \<open>C28: Opening through the toggle runs the display logic twice, once from the attribute callback and once from the caller: two show timers are armed and _timerForShow keeps only the second, which the first one cancels when it fires.\<close>

lemma open_arms_two_timers:
  assumes "\<not> reflects_active s" "isActive s"
  shows "c_timers (toggleModalDisplay cb s) = c_timers s @
     [(c_next_timer s, c_now s + (if isMotionOkay s then ANIMATION_DURATION else 0), ShowDone),
      (Suc (c_next_timer s), c_now s + (if isMotionOkay s then ANIMATION_DURATION else 0), ShowDone)] \<and>
   timerForShow (toggleModalDisplay cb s) = Some (Suc (c_next_timer s))"
  using assms by (simp add: toggleModalDisplay_unfold Let_def reflects_active_def cta_simps)

lemma open_arms_two_timers_witness:
  "\<not> reflects_active (demo_cta\<lparr>isActive := True\<rparr>) \<and> isActive (demo_cta\<lparr>isActive := True\<rparr>) \<and>
   timerForShow (toggleModalDisplay ClickToggleCb (demo_cta\<lparr>isActive := True\<rparr>)) =
     Some (Suc (c_next_timer (demo_cta\<lparr>isActive := True\<rparr>)))"
proof -
  have h1: "\<not> reflects_active (demo_cta\<lparr>isActive := True\<rparr>)" by code_simp
  show ?thesis using open_arms_two_timers [OF h1, of ClickToggleCb] h1 by simp
qed

text \<open>C3: Every state an upgraded cta-modal reaches satisfies the invariant: the active attribute spells _isActive after every event, the parts it writes to are not the host, an element in transition has a completion timer pending, and every pending timer is due within ANIMATION_DURATION.\<close>

lemma cta_reachable_inv:
  "c_host s < b \<Longrightarrow> c_timers s = [] \<Longrightarrow> cta_inv (cta_run acts (upgrade b s))"
  by (intro cta_run_inv upgrade_inv)

lemma cta_reachable_inv_witness:
  "c_host demo_cta_page < 100 \<and> c_timers demo_cta_page = [] \<and>
   cta_inv (cta_run [Click 3, Wait 100, Click 107] (upgrade 100 demo_cta_page))"
  using cta_reachable_inv [where s = demo_cta_page and b = 100 and acts = "[Click 3, Wait 100, Click 107]"]
  by (simp add: demo_cta_page_def)

lemma toggleModalDisplay_isActive [cta_simps]: "isActive (toggleModalDisplay cb s) = isActive s"
  by (simp add: toggleModalDisplay_unfold Let_def cta_simps)

text \<open>C18: No re-entrancy guard on the toggle: while a transition is running (_isHideShow), a valid click or Enter/Space on the close button or a toggle still flips the open state.\<close>

lemma toggle_ignores_transition:
  "isHideShow s \<Longrightarrow> fst (click_toggle_check ev s) \<Longrightarrow>
     isActive (handleClickToggle ev s) = (\<not> isActive s)"
  by (auto simp: handleClickToggle_def Let_def cta_simps split: prod.split)

lemma toggle_ignores_transition_witness:
  "isHideShow (cta_run [Click 3] demo_cta) \<and>
   fst (click_toggle_check (Some (UiEvent 107 [])) (cta_run [Click 3] demo_cta)) \<and>
   isActive (handleClickToggle (Some (UiEvent 107 [])) (cta_run [Click 3] demo_cta)) =
     (\<not> isActive (cta_run [Click 3] demo_cta))"
proof -
  have h1: "isHideShow (cta_run [Click 3] demo_cta)" by code_simp
  have h2: "fst (click_toggle_check (Some (UiEvent 107 [])) (cta_run [Click 3] demo_cta))" by code_simp
  show ?thesis using toggle_ignores_transition [OF h1 h2] h1 h2 by simp
qed

end
