(* ===== verification/Cta_Style.thy ===== *)
theory Cta_Style
  imports Cta_Modal
begin

text \<open>
  The part of the cta-modal style sheet (cta.modal/cta.modal.style.ts) that has
  behaviour: the rules that start the show and hide keyframes on the overlay and the
  dialog while the scroll container carries \<open>data-cta-modal-show\<close> or
  \<open>data-cta-modal-hide\<close>, each lasting \<open>ANIMATION_DURATION\<close> ms, and the
  reduced-motion block that switches every animation off. The rest of the sheet is
  layout (sizes, colours, custom properties) and is not modelled. The rules are matched
  against the element and its ancestors in the shadow tree, as the descendant
  combinator of \<open>[data-...='true'] .cta-modal__overlay\<close> does.
\<close>

subsection \<open>The animation rules\<close>

definition PREFERS_REDUCED_MOTION :: string where
  "PREFERS_REDUCED_MOTION = ''(prefers-reduced-motion: reduce)''"

datatype keyframes = SHOW_OVERLAY | SHOW_DIALOG | HIDE_OVERLAY | HIDE_DIALOG

record anim_rule =
  ancestor_attr :: string    \<comment> \<open>the attribute an ancestor must have with value \<open>'true'\<close>\<close>
  part_class :: string       \<comment> \<open>the class of the animated element\<close>
  anim_name :: keyframes
  anim_duration :: nat       \<comment> \<open>in ms\<close>

text \<open>Lines 118--138, in the order of the sheet.\<close>

definition animation_rules :: "anim_rule list" where
  "animation_rules =
     [\<lparr>ancestor_attr = DATA_SHOW, part_class = ''cta-modal__overlay'', anim_name = SHOW_OVERLAY,
       anim_duration = ANIMATION_DURATION\<rparr>,
      \<lparr>ancestor_attr = DATA_SHOW, part_class = ''cta-modal__dialog'', anim_name = SHOW_DIALOG,
       anim_duration = ANIMATION_DURATION\<rparr>,
      \<lparr>ancestor_attr = DATA_HIDE, part_class = ''cta-modal__overlay'', anim_name = HIDE_OVERLAY,
       anim_duration = ANIMATION_DURATION\<rparr>,
      \<lparr>ancestor_attr = DATA_HIDE, part_class = ''cta-modal__dialog'', anim_name = HIDE_DIALOG,
       anim_duration = ANIMATION_DURATION\<rparr>]"

definition rule_applies :: "cta_state \<Rightarrow> eid \<Rightarrow> anim_rule \<Rightarrow> bool" where
  "rule_applies s x r =
     (part_class r \<in> set (classes (c_dom s x)) \<and>
      list_ex (\<lambda>a. attrs (c_dom s a) (ancestor_attr r) = Some ''true'') (tl (up_path (c_shadow s) x)))"

text \<open>
  The animation element \<open>x\<close> plays: none under \<open>@media PREFERS_REDUCED_MOTION\<close>
  (lines 13--20, \<open>animation: none !important\<close>); otherwise the last matching rule wins,
  since all four rules have the same specificity.
\<close>

definition css_animation :: "cta_state \<Rightarrow> eid \<Rightarrow> (keyframes \<times> nat) option" where
  "css_animation s x =
     (if reduced_motion s then None
      else (case filter (rule_applies s x) animation_rules of
              [] \<Rightarrow> None
            | rs \<Rightarrow> Some (anim_name (last rs), anim_duration (last rs))))"


subsection \<open>Lemmas\<close>

text \<open>The ancestors of the overlay and the dialog in the cloned shadow tree.\<close>

lemma up_path_markup:
  "up_path (markup_tree b) (b + 5) = [b + 5, b + 3, b]"
  "up_path (markup_tree b) (b + 6) = [b + 6, b + 5, b + 3, b]"
  by (simp_all add: up_path_def markup_tree_def)

text \<open>C35: The style sheet and the class agree on the show transition: setting active="true" on a closed, settled cta-modal makes the overlay and the dialog play the show keyframes for exactly ANIMATION_DURATION ms when motion is allowed and play nothing otherwise, and the completion timer the class arms is due after exactly the duration of the animation that plays (at once when none plays).\<close>

theorem show_animation_matches_timer:
  assumes "\<not> isHideShow s" "host_attr s ''active'' \<noteq> Some ''true''"
    "c_shadow s = markup_tree b" "modalScroll s = b + 3" "c_host s \<notin> {b, b + 3, b + 5, b + 6}"
    "classes (c_dom s (b + 5)) = [''cta-modal__overlay'']" "classes (c_dom s (b + 6)) = [''cta-modal__dialog'']"
    "list_all (\<lambda>a. attrs (c_dom s a) DATA_SHOW \<noteq> Some ''true'' \<and> attrs (c_dom s a) DATA_HIDE \<noteq> Some ''true'')
       [b, b + 3, b + 5]"
  shows "let s' = set_host_attr ''active'' (Some ''true'') s in
    css_animation s' (b + 5) = (if isMotionOkay s then Some (SHOW_OVERLAY, ANIMATION_DURATION) else None) \<and>
    css_animation s' (b + 6) = (if isMotionOkay s then Some (SHOW_DIALOG, ANIMATION_DURATION) else None) \<and>
    c_timers s' = c_timers s @ [(c_next_timer s,
      c_now s + (case css_animation s' (b + 6) of None \<Rightarrow> 0 | Some (_, d) \<Rightarrow> d), ShowDone)]"
proof -
  let ?s1 = "s\<lparr>c_dom := set_attr (c_host s) ''active'' ''true'' (c_dom s), isActive := True\<rparr>"
  let ?s' = "set_host_attr ''active'' (Some ''true'') s"
  have eq: "?s' = toggle_display ActiveFlagCb ?s1" by (rule set_active_true_unfold [OF assms(2)])
  have hs: "c_host s \<noteq> modalScroll s" using assms(4,5) by simp
  have dom_scroll: "c_dom ?s' (modalScroll s) =
      (if isMotionOkay s then set_attr (modalScroll s) DATA_SHOW ''true'' (c_dom s) (modalScroll s)
       else c_dom s (modalScroll s))"
    using toggle_display_dom_scroll [of ActiveFlagCb ?s1] hs unfolding eq
    by (simp add: set_attr_def isMotionOkay_def)
  have dom_other: "c_dom ?s' y = c_dom s y" if "y \<noteq> c_host s" "y \<noteq> modalScroll s" for y
    using that unfolding eq by (simp add: cta_simps set_attr_def)
  have sh: "c_shadow ?s' = c_shadow s" "reduced_motion ?s' = reduced_motion s"
    unfolding eq by (simp_all add: cta_simps)
  have tm: "c_timers ?s' =
      c_timers s @ [(c_next_timer s, c_now s + (if isMotionOkay s then ANIMATION_DURATION else 0), ShowDone)]"
    using assms(1) unfolding eq by (simp add: cta_simps)
  have o: "c_dom ?s' b = c_dom s b" "c_dom ?s' (b + 5) = c_dom s (b + 5)" "c_dom ?s' (b + 6) = c_dom s (b + 6)"
    using dom_other assms(4,5) by auto
  have o3: "c_dom ?s' (b + 3) =
      (if isMotionOkay s then set_attr (b + 3) DATA_SHOW ''true'' (c_dom s) (b + 3) else c_dom s (b + 3))"
    using dom_scroll assms(4) by simp
  have anim: "css_animation ?s' (b + 5) = (if isMotionOkay s then Some (SHOW_OVERLAY, ANIMATION_DURATION) else None)"
      "css_animation ?s' (b + 6) = (if isMotionOkay s then Some (SHOW_DIALOG, ANIMATION_DURATION) else None)"
    using assms(3,6,7,8) sh o o3
    by (auto simp: css_animation_def rule_applies_def animation_rules_def up_path_markup isMotionOkay_def
        set_attr_def DATA_SHOW_def DATA_HIDE_def)
  show ?thesis using anim tm by (simp add: Let_def)
qed
theorem show_animation_matches_timer_witness:
  "let s' = set_host_attr ''active'' (Some ''true'') demo_cta in
     css_animation s' 105 = Some (SHOW_OVERLAY, ANIMATION_DURATION) \<and>
     css_animation s' 106 = Some (SHOW_DIALOG, ANIMATION_DURATION) \<and>
     c_timers s' = c_timers demo_cta @ [(c_next_timer demo_cta, c_now demo_cta + ANIMATION_DURATION, ShowDone)]"
proof -
  have h1: "\<not> isHideShow demo_cta" by code_simp
  have h2: "host_attr demo_cta ''active'' \<noteq> Some ''true''" by code_simp
  have h3: "c_shadow demo_cta = markup_tree 100" by code_simp
  have h4: "modalScroll demo_cta = 100 + 3" by code_simp
  have h5: "c_host demo_cta \<notin> {100, 100 + 3, 100 + 5, 100 + 6}" by code_simp
  have h6: "classes (c_dom demo_cta (100 + 5)) = [''cta-modal__overlay'']" by code_simp
  have h7: "classes (c_dom demo_cta (100 + 6)) = [''cta-modal__dialog'']" by code_simp
  have h8: "list_all (\<lambda>a. attrs (c_dom demo_cta a) DATA_SHOW \<noteq> Some ''true'' \<and>
      attrs (c_dom demo_cta a) DATA_HIDE \<noteq> Some ''true'') [100, 100 + 3, 100 + 5]" by code_simp
  have m: "isMotionOkay demo_cta" by code_simp
  show ?thesis using show_animation_matches_timer [OF h1 h2 h3 h4 h5 h6 h7 h8] m by (simp add: Let_def)
qed

end
