(* ===== verification/Cta_Phases.thy ===== *)
theory Cta_Phases
  imports Cta_Modal
begin

text \<open>
  The visibility state machine the specification asks of a modal (spec section 4.3):
  \<open>Hidden \<rightarrow> Showing \<rightarrow> Shown \<rightarrow> Hiding \<rightarrow> Hidden\<close>, where a show request leaves
  \<open>Hidden\<close>, a hide request leaves \<open>Shown\<close>, the animation-complete event ends the two
  transitions, and every other event is ignored. The phase of a \<open>cta-modal\<close> is read
  off its fields (\<open>_isActive\<close>, \<open>_isHideShow\<close>, the inline display of
  \<open>_modalScroll\<close>); a request is the \<open>active\<close> attribute written by a script, and
  completion is \<open>ANIMATION_DURATION\<close> ms passing. The refinement theorem shows that
  requests which let each transition finish before the next one are implemented as the
  machine prescribes, from one quiescent state to the next.
\<close>

subsection \<open>The abstract machine\<close>

datatype vis_phase = Hidden | Showing | Shown | Hiding
datatype vis_event = Show | Hide | Done

fun vis_trans :: "vis_event \<Rightarrow> vis_phase \<Rightarrow> vis_phase" where
  "vis_trans Show Hidden = Showing"
| "vis_trans Done Showing = Shown"
| "vis_trans Hide Shown = Hiding"
| "vis_trans Done Hiding = Hidden"
| "vis_trans _ p = p"

text \<open>The phase of the element; \<open>None\<close> for an active element whose container is not displayed, a state the machine has no name for.\<close>

definition vis_phase_of :: "cta_state \<Rightarrow> vis_phase option" where
  "vis_phase_of s =
     (if isActive s then
        (if scroll_display s = ''block'' then Some (if isHideShow s then Showing else Shown) else None)
      else Some (if scroll_display s = ''block'' then Hiding else Hidden))"

primrec vis_action :: "vis_event \<Rightarrow> cta_action" where
  "vis_action Show = SetHostAttr ''active'' ''true''"
| "vis_action Hide = SetHostAttr ''active'' ''false''"
| "vis_action Done = Wait ANIMATION_DURATION"

text \<open>Requests paced so that each is followed by the completion of the transition it starts.\<close>

definition paced :: "vis_event list \<Rightarrow> vis_event list" where
  "paced reqs = concat (map (\<lambda>e. [e, Done]) reqs)"

text \<open>A quiescent element: no timer pending, no transition running, the container displayed exactly when the element is active, no animation attribute left on it.\<close>

definition settled :: "cta_state \<Rightarrow> bool" where
  "settled s =
     (c_timers s = [] \<and> \<not> isHideShow s \<and> (scroll_display s = ''block'') = isActive s \<and>
      attrs (c_dom s (modalScroll s)) DATA_SHOW = None \<and> attrs (c_dom s (modalScroll s)) DATA_HIDE = None)"

subsection \<open>The implementation of one paced request\<close>

lemma set_attr_same: "attrs (dm x) a = Some v \<Longrightarrow> set_attr x a v dm = dm"
  by (simp add: set_attr_def fun_upd_idem)

lemma advance_idle: "c_timers s = [] \<Longrightarrow> advance d s = s\<lparr>c_now := c_now s + d\<rparr>"
  by (simp add: advance_def)

lemma advance_one:
  assumes "c_timers s = [(h, d, cb)]" "c_now s \<le> d" "d \<le> c_now s + D"
  shows "advance D s = (run_timer cb (s\<lparr>c_now := d, c_timers := []\<rparr>))\<lparr>c_now := c_now s + D\<rparr>"
  using assms by (simp add: advance_def max_def)

lemma run_timer_idle:
  assumes "c_timers u = []"
  shows "c_timers (run_timer cb u) = []"
    "scroll_display (run_timer cb u) = (if cb = HideDone then ''none'' else scroll_display u)"
    "attrs (c_dom (run_timer cb u) x) a =
       (if x = modalScroll u \<and> a = (if cb = HideDone then DATA_HIDE else DATA_SHOW) then None
        else attrs (c_dom u x) a)"
  using assms by (cases cb; simp add: clearTimeout_def remove_attr_def split: option.split; fail)+

lemma toggle_display_attrs:
  "attrs (c_dom (toggle_display cb s) x) a =
     (if x = modalScroll s \<and> isMotionOkay s \<and> a = (if isActive s then DATA_SHOW else DATA_HIDE) \<and>
         (isActive s \<or> scroll_display s = ''block'')
      then Some ''true'' else attrs (c_dom s x) a)"
  by (cases "x = modalScroll s") (auto simp: cta_simps DATA_SHOW_def DATA_HIDE_def)

lemma toggle_display_handles:
  "c_next_timer (toggle_display cb s) =
     (if isActive s \<or> scroll_display s = ''block'' then Suc (c_next_timer s) else c_next_timer s)"
  "timerForHide (toggle_display cb s) =
     (if \<not> isActive s \<and> scroll_display s = ''block'' then Some (c_next_timer s) else timerForHide s)"
  by (simp_all add: toggle_display_def Let_def setTimeout_def run_toggle_cb_def
      split: prod.split toggle_cb.split option.split)

lemma request_unfold:
  assumes "cta_inv s" "isActive s \<noteq> b"
  shows "set_host_attr ''active'' (Some (js_bool b)) s =
    toggle_display ActiveFlagCb (s\<lparr>c_dom := set_attr (c_host s) ''active'' (js_bool b) (c_dom s), isActive := b\<rparr>)"
  using assms by (intro set_active_unfold) (simp add: inv_defs js_bool_def)

text \<open>A request that changes \<open>_isActive\<close> on a quiescent element starts its transition at once: a show is already complete when motion is off, a hide never is.\<close>

lemma request_phase:
  assumes inv: "cta_inv s" and st: "settled s" and ch: "isActive s \<noteq> b"
  shows "vis_phase_of (set_host_attr ''active'' (Some (js_bool b)) s) =
    Some (if b then (if isMotionOkay s then Showing else Shown) else Hiding)"
  using request_unfold [OF inv ch] st ch by (cases b) (simp_all add: vis_phase_of_def settled_def cta_simps)

text \<open>The completion timer of that transition fires within the delay the class chose, leaving the element quiescent again.\<close>

lemma request_completes:
  assumes inv: "cta_inv s" and st: "settled s" and ch: "isActive s \<noteq> b"
    and D: "(if isMotionOkay s then ANIMATION_DURATION else 0) \<le> D"
  shows "settled (advance D (set_host_attr ''active'' (Some (js_bool b)) s)) \<and>
    isActive (advance D (set_host_attr ''active'' (Some (js_bool b)) s)) = b"
proof -
  define s1 where "s1 = s\<lparr>c_dom := set_attr (c_host s) ''active'' (js_bool b) (c_dom s), isActive := b\<rparr>"
  define t where "t = toggle_display ActiveFlagCb s1"
  define cb where "cb = (if b then ShowDone else HideDone)"
  define dl where "dl = (if isMotionOkay s then ANIMATION_DURATION else 0)"
  have t: "set_host_attr ''active'' (Some (js_bool b)) s = t"
    unfolding t_def s1_def by (rule request_unfold [OF inv ch])
  have ap: "c_host s \<noteq> modalScroll s" using inv by (simp add: inv_defs)
  have tm: "c_timers t = [(c_next_timer s, c_now s + dl, cb)]"
    using st ch by (cases b) (simp_all add: t_def s1_def settled_def cta_simps cb_def dl_def)
  have adv: "advance D t =
      (run_timer cb (t\<lparr>c_now := c_now s + dl, c_timers := []\<rparr>))\<lparr>c_now := c_now t + D\<rparr>"
    by (rule advance_one [OF tm]) (use D in \<open>simp_all add: t_def s1_def cta_simps dl_def\<close>)
  show ?thesis
    using st ap ch unfolding t adv
    by (cases b) (simp_all add: settled_def run_timer_idle toggle_display_attrs t_def s1_def cb_def
        cta_simps DATA_SHOW_def DATA_HIDE_def del: run_timer.simps)
qed

lemma request_same:
  assumes "cta_inv s" "isActive s = b"
  shows "set_host_attr ''active'' (Some (js_bool b)) s = s"
proof -
  have "host_attr s ''active'' = Some (js_bool b)" using assms by (simp add: inv_defs)
  then show ?thesis
    by (simp add: set_host_attr_def Let_def set_attr_same host_attr_def)
qed

lemma settled_phase: "settled s \<Longrightarrow> vis_phase_of s = Some (if isActive s then Shown else Hidden)"
  by (simp add: settled_def vis_phase_of_def)

lemma paced_request:
  assumes inv: "cta_inv s" and st: "settled s"
  shows "settled (cta_run [vis_action e, vis_action Done] s) \<and>
    vis_phase_of (cta_run [vis_action e, vis_action Done] s) = map_option (vis_trans Done \<circ> vis_trans e) (vis_phase_of s)"
proof (cases "e = Done")
  case True
  then show ?thesis using st
    by (cases "isActive s") (simp_all add: cta_run_def advance_idle settled_def vis_phase_of_def)
next
  case False
  define b where "b = (e = Show)"
  have act: "vis_action e = SetHostAttr ''active'' (js_bool b)"
    using False by (cases e) (simp_all add: b_def js_bool_def)
  have run: "cta_run [vis_action e, vis_action Done] s =
      advance ANIMATION_DURATION (set_host_attr ''active'' (Some (js_bool b)) s)"
    by (simp add: act cta_run_def)
  have post: "settled (cta_run [vis_action e, vis_action Done] s) \<and>
      isActive (cta_run [vis_action e, vis_action Done] s) = b"
  proof (cases "isActive s = b")
    case True
    then show ?thesis using st unfolding run request_same [OF inv True]
      by (simp add: advance_idle settled_def)
  next
    case ch: False
    show ?thesis unfolding run by (rule request_completes [OF inv st ch]) simp
  qed
  then show ?thesis using settled_phase [OF st] settled_phase [of "cta_run [vis_action e, vis_action Done] s"] False
    by (cases e) (auto simp: b_def)
qed

text \<open>C4: Refinement of the specification's visibility machine: from a quiescent element, any sequence of show and hide requests written to the active attribute, each followed by ANIMATION_DURATION ms for its transition to finish, leaves the element quiescent in the phase the machine of spec section 4.3 reaches on the same events.\<close>

theorem paced_refines_spec:
  assumes "cta_inv s" "settled s" "vis_phase_of s = Some p"
  shows "settled (cta_run (map vis_action (paced reqs)) s) \<and>
    vis_phase_of (cta_run (map vis_action (paced reqs)) s) = Some (fold vis_trans (paced reqs) p)"
  using assms
proof (induction reqs arbitrary: s p)
  case Nil
  then show ?case by (simp add: paced_def cta_run_def)
next
  case (Cons e reqs)
  let ?s' = "cta_run [vis_action e, vis_action Done] s"
  have step: "settled ?s'" "vis_phase_of ?s' = Some (vis_trans Done (vis_trans e p))"
    using paced_request [OF Cons.prems(1,2), of e] Cons.prems(3) by simp_all
  have "cta_inv ?s'" using Cons.prems(1) by (rule cta_run_inv)
  with Cons.IH [OF _ step] show ?case
    by (simp add: paced_def cta_run_def)
qed

lemma paced_refines_spec_witness:
  "cta_inv demo_cta \<and> settled demo_cta \<and> vis_phase_of demo_cta = Some Hidden \<and>
   vis_phase_of (cta_run (map vis_action (paced [Show, Hide, Hide, Show])) demo_cta) = Some Shown"
proof -
  have h1: "cta_inv demo_cta"
    unfolding demo_cta_def by (intro upgrade_inv) (simp_all add: demo_cta_page_def)
  have h2: "settled demo_cta" by code_simp
  have h3: "vis_phase_of demo_cta = Some Hidden" by code_simp
  show ?thesis using paced_refines_spec [OF h1 h2 h3, of "[Show, Hide, Hide, Show]"] h1 h2 h3
    by (simp add: paced_def)
qed

lemma advance_none_due:
  assumes "list_all (\<lambda>tm. c_now s + d < fst (snd tm)) (c_timers s)"
  shows "advance d s = s\<lparr>c_now := c_now s + d\<rparr>"
proof -
  have "fire_due n (c_now s + d) s = s" for n
  proof (cases n)
    case (Suc m)
    show ?thesis
    proof (cases "earliest (c_timers s)")
      case (Some x)
      with earliest_Some [OF Some] assms Suc show ?thesis
        by (cases x) (auto simp: list_all_iff)
    qed (simp add: Suc)
  qed simp
  then show ?thesis by (simp add: advance_def)
qed

text \<open>C5: A show request while a hide is still animating is not ignored, as spec section 4.3 requires, and the hide's timer is not cancelled: once the timers have run the element is active but its container is not displayed, a phase the machine does not have (the spec's machine would be Hidden).\<close>

theorem reopen_during_hide:
  assumes inv: "cta_inv s" and st: "settled s" and on: "isActive s" and mo: "isMotionOkay s"
    and k: "k < ANIMATION_DURATION"
  shows "vis_phase_of (cta_run [vis_action Hide, Wait k, vis_action Show, vis_action Done] s) = None \<and>
    fold vis_trans [Hide, Show, Done] Shown = Hidden"
proof -
  define s1 where "s1 = s\<lparr>c_dom := set_attr (c_host s) ''active'' ''false'' (c_dom s), isActive := False\<rparr>"
  define t where "t = toggle_display ActiveFlagCb s1"
  have ha: "host_attr s ''active'' \<noteq> Some (js_bool False)" using inv on by (simp add: inv_defs js_bool_def)
  have t: "set_host_attr ''active'' (Some ''false'') s = t"
    using set_active_unfold [OF ha] by (simp add: t_def s1_def js_bool_def)
  have tm: "c_timers t = [(c_next_timer s, c_now s + ANIMATION_DURATION, HideDone)]"
    using st on mo by (simp add: t_def s1_def settled_def cta_simps)
  define u where "u = t\<lparr>c_now := c_now s + k\<rparr>"
  have "list_all (\<lambda>tm. c_now t + k < fst (snd tm)) (c_timers t)"
    using tm k by (simp add: t_def s1_def cta_simps)
  then have w: "advance k t = u"
    by (simp add: advance_none_due u_def t_def s1_def cta_simps del: toggle_display_timers)
  have hu: "host_attr u ''active'' \<noteq> Some ''true''"
    using inv by (simp add: u_def t_def s1_def host_attr_def toggle_display_attrs cta_simps inv_defs)
  define v where "v = toggle_display ActiveFlagCb (u\<lparr>c_dom := set_attr (c_host u) ''active'' ''true'' (c_dom u), isActive := True\<rparr>)"
  have sv: "set_host_attr ''active'' (Some ''true'') u = v"
    unfolding v_def by (rule set_active_true_unfold [OF hu])
  have tf: "c_next_timer t = Suc (c_next_timer s)" "timerForHide t = Some (c_next_timer s)"
    "isMotionOkay t" "c_now t = c_now s"
    using st on mo by (simp_all add: t_def s1_def settled_def toggle_display_handles cta_simps isMotionOkay_def)
  have vt: "c_timers v = [(c_next_timer s, c_now s + ANIMATION_DURATION, HideDone),
      (Suc (c_next_timer s), c_now s + k + ANIMATION_DURATION, ShowDone)]"
    using tm tf by (simp add: v_def u_def cta_simps isMotionOkay_def)
  have vf: "timerForHide v = Some (c_next_timer s)" "isActive v" "c_now v = c_now s + k"
    using tf by (simp_all add: v_def u_def toggle_display_handles cta_simps)
  have "scroll_display (advance ANIMATION_DURATION v) = ''none'' \<and> isActive (advance ANIMATION_DURATION v)"
    using vt vf by (simp add: advance_def clearTimeout_def Let_def split: option.split)
  then show ?thesis using t w sv by (simp add: cta_run_def vis_phase_of_def)
qed

lemma reopen_during_hide_witness:
  "cta_inv (cta_run (map vis_action (paced [Show])) demo_cta) \<and>
   settled (cta_run (map vis_action (paced [Show])) demo_cta) \<and>
   isActive (cta_run (map vis_action (paced [Show])) demo_cta) \<and>
   isMotionOkay (cta_run (map vis_action (paced [Show])) demo_cta) \<and> (100::nat) < ANIMATION_DURATION \<and>
   vis_phase_of (cta_run [vis_action Hide, Wait 100, vis_action Show, vis_action Done]
     (cta_run (map vis_action (paced [Show])) demo_cta)) = None"
proof -
  let ?s = "cta_run (map vis_action (paced [Show])) demo_cta"
  have h1: "cta_inv ?s"
    unfolding demo_cta_def by (intro cta_run_inv upgrade_inv) (simp_all add: demo_cta_page_def)
  have h2: "settled ?s" by code_simp
  have h3: "isActive ?s" by code_simp
  have h4: "isMotionOkay ?s" by code_simp
  have h5: "(100::nat) < ANIMATION_DURATION" by (simp add: ANIMATION_DURATION_def)
  show ?thesis using reopen_during_hide [OF h1 h2 h3 h4 h5] h1 h2 h3 h4 h5 by simp
qed

text \<open>The same race driven by the user on the demonstration page: open with the slotted toggle, close with the close button after 100 ms, reopen 150 ms later; the hide timer of the close fires after the reopen.\<close>

lemma race_scenario:
  "isActive (cta_run [Click 3, Wait 100, Click 107, Wait 150, Click 3, Wait 1000] demo_cta) \<and>
   scroll_display (cta_run [Click 3, Wait 100, Click 107, Wait 150, Click 3, Wait 1000] demo_cta) = ''none''"
  by code_simp

text \<open>C17: Under reduced motion (or animated="false") the two transitions are not completed alike: a show request on a quiescent element reaches Shown at once, but a hide request leaves it Hiding, the container still displayed, until a 0 ms timer fires in a later task; spec section 4.3 says both complete synchronously.\<close>

theorem reduced_motion_hide_deferred:
  assumes inv: "cta_inv s" and st: "settled s" and mo: "\<not> isMotionOkay s"
  shows "vis_phase_of (cta_step (vis_action (if isActive s then Hide else Show)) s) =
      Some (if isActive s then Hiding else Shown) \<and>
    vis_phase_of (cta_run [vis_action (if isActive s then Hide else Show), Wait 0] s) =
      Some (if isActive s then Hidden else Shown)"
proof -
  define b where "b = (\<not> isActive s)"
  have ch: "isActive s \<noteq> b" by (simp add: b_def)
  have act: "vis_action (if isActive s then Hide else Show) = SetHostAttr ''active'' (js_bool b)"
    by (simp add: b_def js_bool_def)
  have "settled (advance 0 (set_host_attr ''active'' (Some (js_bool b)) s)) \<and>
      isActive (advance 0 (set_host_attr ''active'' (Some (js_bool b)) s)) = b"
    using mo by (intro request_completes [OF inv st ch]) simp
  then show ?thesis using request_phase [OF inv st ch] mo
    by (simp add: act cta_run_def vis_phase_of_def settled_def b_def split: if_splits)
qed

lemma reduced_motion_hide_deferred_witness:
  "cta_inv (cta_run [SetHostAttr ''animated'' ''false'', vis_action Show, Wait 0] demo_cta) \<and>
   settled (cta_run [SetHostAttr ''animated'' ''false'', vis_action Show, Wait 0] demo_cta) \<and>
   \<not> isMotionOkay (cta_run [SetHostAttr ''animated'' ''false'', vis_action Show, Wait 0] demo_cta) \<and>
   vis_phase_of (cta_step (vis_action Hide) (cta_run [SetHostAttr ''animated'' ''false'', vis_action Show, Wait 0] demo_cta)) =
     Some Hiding"
proof -
  let ?s = "cta_run [SetHostAttr ''animated'' ''false'', vis_action Show, Wait 0] demo_cta"
  have h1: "cta_inv ?s"
    unfolding demo_cta_def by (intro cta_run_inv upgrade_inv) (simp_all add: demo_cta_page_def)
  have h2: "settled ?s" by code_simp
  have h3: "\<not> isMotionOkay ?s" by code_simp
  have h4: "isActive ?s" by code_simp
  show ?thesis using reduced_motion_hide_deferred [OF h1 h2 h3] h1 h2 h3 h4 by simp
qed

end
