(* ===== verification/Scraper.thy ===== *)
theory Scraper
  imports Prelude "HOL-Library.Monad_Syntax"
begin

text \<open>
  The puppeteer book scraper (puppeteer-scraper/src/index.ts): the site as the headless
  browser sees it, the text clean-up and the availability parse done inside the page, the
  scraping of one product page (\<open>pagePromise\<close>), the recursive walk over the
  paginated category (\<open>scrapeCurrentPage\<close>, a partial function, because the walk follows
  "next" links for as long as they exist), one category (\<open>scraper\<close>) and the whole run
  (\<open>scrapeAll\<close>). A call that never returns is \<open>None\<close>; a thrown error is \<open>Inl\<close>.
\<close>

subsection \<open>Data\<close>

datatype ECategory = Travel | Mystery | HistoricalFiction

primrec category_name :: "ECategory \<Rightarrow> string" where
  "category_name Travel = ''Travel''"
| "category_name Mystery = ''Mystery''"
| "category_name HistoricalFiction = ''Historical Fiction''"

record TData =
  bookTitle :: string
  bookPrice :: string
  numAvailable :: string
  imageUrl :: string
  bookDescription :: string
  upc :: string

datatype scrape_error = SelectorNotFound | TimeoutError | TypeError_href

type_synonym url = string

text \<open>
  A product page: the text or attribute each \<open>$eval\<close> reads, \<open>None\<close> where its selector
  matches nothing (then \<open>$eval\<close> throws).
\<close>

record product_page =
  h1_text :: "string option"
  price_text :: "string option"
  avail_text :: "string option"
  img_src :: "string option"
  desc_sibling_text :: "string option"   \<comment> \<open>\<open>#product_description\<close>'s \<open>nextSibling.nextSibling\<close>\<close>
  upc_text :: "string option"

text \<open>A list page: for each book the text of its availability icon (\<open>.instock.availability > i\<close>)
  and its link, and
  the link of the "next" button when there is one.\<close>

record list_page =
  entries :: "(string \<times> url) list"
  next_href :: "url option"

record site =
  home_links :: "(string \<times> url) list"    \<comment> \<open>the category links: text content and href\<close>
  list_pages :: "url \<Rightarrow> list_page option"
  product_pages :: "url \<Rightarrow> product_page option"

subsection \<open>Text inside the page\<close>

definition is_word :: "char \<Rightarrow> bool" where
  "is_word c = (let n = (of_char c :: nat) in
     (48 \<le> n \<and> n \<le> 57) \<or> (65 \<le> n \<and> n \<le> 90) \<or> (97 \<le> n \<and> n \<le> 122) \<or> n = 95)"

definition is_line_term :: "char \<Rightarrow> bool" where
  "is_line_term c = (c = CHR 0x0A \<or> c = CHR 0x0D)"

text \<open>
  \<open>text.replace(/(\r\n\t|\n|\r|\t|^\s|\s$|\B\s|\s\B)/gm, '')\<close> (line 63), as the regular
  expression engine runs it: from position \<open>p\<close> of the original string, the alternatives
  in order; \<open>^\<close> and \<open>$\<close> also match next to a line terminator (flag \<open>m\<close>); \<open>\B\<close> holds
  where both neighbours are word characters or both are not.
\<close>

function regex_strip :: "string \<Rightarrow> nat \<Rightarrow> string" where
  "regex_strip s p =
     (if length s \<le> p then []
      else
        (let c = s ! p;
             prev = (if p = 0 then None else Some (s ! (p - 1)));
             next = (if Suc p < length s then Some (s ! Suc p) else None);
             word_at = (\<lambda>x. case x of None \<Rightarrow> False | Some d \<Rightarrow> is_word d);
             crlft = (take 3 (drop p s) = [CHR 0x0D, CHR 0x0A, CHR 0x09]);
             single = (c = CHR 0x0A \<or> c = CHR 0x0D \<or> c = CHR 0x09);
             bol = (case prev of None \<Rightarrow> True | Some d \<Rightarrow> is_line_term d);
             eol = (case next of None \<Rightarrow> True | Some d \<Rightarrow> is_line_term d);
             nb_before = (word_at prev = is_word c);
             nb_after = (is_word c = word_at next);
             ws = (is_ws c \<and> (bol \<or> eol \<or> nb_before \<or> nb_after))
         in if crlft then regex_strip s (p + 3)
            else if single \<or> ws then regex_strip s (Suc p)
            else c # regex_strip s (Suc p)))"
  by pat_completeness auto
termination
  by (relation "measure (\<lambda>(s, p). length s - p)") auto

declare regex_strip.simps [simp del]

text \<open>
  The category link (lines 60--67): the first link whose cleaned text is the category;
  when there is none, reading \<open>.href\<close> of \<open>undefined\<close> throws.
\<close>

definition selectedCategory :: "(string \<times> url) list \<Rightarrow> string \<Rightarrow> scrape_error + url" where
  "selectedCategory links category =
     (case filter (\<lambda>l. regex_strip (fst l) 0 = category) links of
        [] \<Rightarrow> Inl TypeError_href
      | l # _ \<Rightarrow> Inr (snd l))"

text \<open>
  \<open>numAvailable\<close> (lines 89--94): line breaks and tabs removed, then
  \<open>/^.*\((.*)\).*$/i.exec(text)[1].split(' ')[0]\<close>. The greedy \<open>.*\<close> makes the group run
  from the last \<open>(\<close> before the last \<open>)\<close> to that \<open>)\<close>; with no such pair \<open>exec\<close> answers
  \<open>null\<close> and \<open>[1]\<close> throws.
\<close>

definition strip_breaks :: "string \<Rightarrow> string" where
  "strip_breaks s = filter (\<lambda>c. c \<notin> {CHR 0x0A, CHR 0x0D, CHR 0x09}) s"

definition paren_group :: "string \<Rightarrow> string option" where
  "paren_group s =
     (let closes = filter (\<lambda>j. s ! j = CHR '')'') [0..<length s]
      in if closes = [] then None
         else
           (let j = last closes;
                opens = filter (\<lambda>i. s ! i = CHR ''('') [0..<j]
            in if opens = [] then None
               else (let i = last opens in Some (take (j - Suc i) (drop (Suc i) s)))))"

definition parse_available :: "string \<Rightarrow> string option" where
  "parse_available text =
     map_option (takeWhile (\<lambda>c. c \<noteq> CHR '' '')) (paren_group (strip_breaks text))"

subsection \<open>One product page: pagePromise\<close>

text \<open>
  Lines 80--101. Every \<open>$eval\<close> that finds no element throws inside the \<open>async\<close>
  executor of \<open>new Promise\<close>; that rejection belongs to the executor's own promise,
  which nobody awaits, and \<open>resolve\<close> is never called, so the promise the loop awaits
  never settles: \<open>None\<close>. (Node 15 and later end the process on the unhandled
  rejection instead; either way the run never reaches the rest of \<open>scrapeAll\<close>.)
\<close>

definition pagePromise :: "site \<Rightarrow> url \<Rightarrow> TData option" where
  "pagePromise st link = do {
     pg \<leftarrow> product_pages st link;
     t \<leftarrow> h1_text pg;
     p \<leftarrow> price_text pg;
     a \<leftarrow> avail_text pg;
     n \<leftarrow> parse_available a;
     i \<leftarrow> img_src pg;
     d \<leftarrow> desc_sibling_text pg;
     u \<leftarrow> upc_text pg;
     Some \<lparr>bookTitle = t, bookPrice = p, numAvailable = n, imageUrl = i,
           bookDescription = d, upc = u\<rparr>
   }"

text \<open>The links kept on a list page (lines 75--78): those whose availability icon does
  not read "In stock".\<close>

definition page_urls :: "list_page \<Rightarrow> url list" where
  "page_urls lp = map snd (filter (\<lambda>e. fst e \<noteq> ''In stock'') (entries lp))"

subsection \<open>The paginated walk: scrapeCurrentPage\<close>

text \<open>
  Lines 72--124: wait for the list (a missing page times out and throws), scrape its books
  one after the other, then follow "next" if it exists. \<open>scrapedData\<close> is the closure's
  accumulator. \<open>page.click\<close> (line 118) is taken to complete the navigation before
  \<open>waitForSelector\<close> of the next call looks at the page.
\<close>

partial_function (option) scrapeCurrentPage ::
  "site \<Rightarrow> url \<Rightarrow> TData list \<Rightarrow> (scrape_error + TData list) option" where
  "scrapeCurrentPage st u scrapedData =
     (case list_pages st u of
        None \<Rightarrow> Some (Inl TimeoutError)
      | Some lp \<Rightarrow>
          (case those (map (pagePromise st) (page_urls lp)) of
             None \<Rightarrow> None
           | Some ds \<Rightarrow>
               (case next_href lp of
                  None \<Rightarrow> Some (Inr (scrapedData @ ds))
                | Some nu \<Rightarrow> scrapeCurrentPage st nu (scrapedData @ ds))))"

declare scrapeCurrentPage.simps [code]

definition scraper :: "site \<Rightarrow> string \<Rightarrow> (scrape_error + TData list) option" where
  "scraper st category =
     (case selectedCategory (home_links st) category of
        Inl e \<Rightarrow> Some (Inl e)
      | Inr u \<Rightarrow> scrapeCurrentPage st u [])"

subsection \<open>The run: scrapeAll\<close>

record run_state =
  scrapedData :: "(ECategory \<times> TData list) list"
  browser_open :: bool
  console_log :: "string list"
  data_json :: "(ECategory \<times> TData list) list option"   \<comment> \<open>what data.json receives\<close>

fun scrape_seq ::
  "site \<Rightarrow> ECategory list \<Rightarrow> (ECategory \<times> TData list) list \<Rightarrow>
     ((ECategory \<times> TData list) list + (ECategory \<times> TData list) list) option" where
  "scrape_seq st [] acc = Some (Inr acc)"
| "scrape_seq st (c # cs) acc =
     (case scraper st (category_name c) of
        None \<Rightarrow> None
      | Some (Inl _) \<Rightarrow> Some (Inl acc)
      | Some (Inr d) \<Rightarrow> scrape_seq st cs (acc @ [(c, d)]))"

text \<open>Line 43: \<open>await this._browser.close()\<close>.\<close>

definition browser_close :: "run_state \<Rightarrow> run_state" where
  "browser_close r = r\<lparr>browser_open := False\<rparr>"

text \<open>
  Lines 45--50: \<open>fs.writeFile('data.json', JSON.stringify(this._scrapedData), ...)\<close> and
  its callback. \<open>err\<close> is the outcome of the write: \<open>None\<close> when it succeeds, \<open>Some e\<close>
  when it fails with the message \<open>e\<close>, which the callback logs before returning.
\<close>

definition writeFile_cb :: "string option \<Rightarrow> run_state \<Rightarrow> run_state" where
  "writeFile_cb err r =
     (case err of
        Some e \<Rightarrow> r\<lparr>console_log := console_log r @ [e]\<rparr>
      | None \<Rightarrow> r\<lparr>data_json := Some (scrapedData r),
                  console_log := console_log r @
                    [''The data has been scraped and saved successfully! View it at '' @
                     CHR 0x27 # ''./data.json'' @ [CHR 0x27]]\<rparr>)"

text \<open>
  Lines 37--54: three categories in order, each stored in \<open>_scrapedData\<close> once its
  \<open>scraper\<close> call returns, then close the browser and write the file; a thrown error jumps
  to the \<open>catch\<close>, which only logs. The run starts with the browser open and nothing logged.
\<close>

definition scrapeAll :: "string option \<Rightarrow> site \<Rightarrow> run_state option" where
  "scrapeAll err st =
     (let r0 = \<lparr>scrapedData = [], browser_open = True, console_log = [], data_json = None\<rparr>
      in case scrape_seq st [Travel, HistoricalFiction, Mystery] [] of
           None \<Rightarrow> None
         | Some (Inl acc) \<Rightarrow>
             Some (r0\<lparr>scrapedData := acc,
                      console_log := [''Could not resolve the browser instance => '']\<rparr>)
         | Some (Inr acc) \<Rightarrow> Some (writeFile_cb err (browser_close (r0\<lparr>scrapedData := acc\<rparr>))))"

text \<open>
  \<open>run()\<close> (lines 24--27) awaits \<open>startBrowser()\<close> (lines 29--35), then \<open>scrapeAll()\<close>.
  \<open>launched\<close> says whether \<open>puppeteer.launch\<close> resolves; when it rejects, \<open>run()\<close> rejects
  and nobody handles it (\<open>new Scraper().run()\<close>, line 131): the run ends with nothing
  written, modelled as \<open>None\<close> like a promise that never settles.
\<close>

definition Scraper_run :: "bool \<Rightarrow> string option \<Rightarrow> site \<Rightarrow> run_state option" where
  "Scraper_run launched err st = (if launched then scrapeAll err st else None)"

subsection \<open>Reference definitions for the properties\<close>

text \<open>The characters the clean-up keeps: every non-white-space character, and a white
  space other than a line break or tab when both its neighbours are word characters.\<close>

definition keep_char :: "string \<Rightarrow> nat \<Rightarrow> bool" where
  "keep_char s p =
     (\<not> is_ws (s ! p) \<or>
      (s ! p \<notin> {CHR 0x0A, CHR 0x0D, CHR 0x09} \<and> 0 < p \<and> Suc p < length s \<and>
       is_word (s ! (p - 1)) \<and> is_word (s ! Suc p)))"

text \<open>The list pages reached from \<open>u\<close> by "next" links, when the chain ends within
  \<open>n\<close> pages, and the books scraped from a chain of pages.\<close>

fun page_chain :: "site \<Rightarrow> url \<Rightarrow> nat \<Rightarrow> url list option" where
  "page_chain st u 0 = None"
| "page_chain st u (Suc n) =
     (case list_pages st u of
        None \<Rightarrow> None
      | Some lp \<Rightarrow>
          (case next_href lp of
             None \<Rightarrow> Some [u]
           | Some v \<Rightarrow> map_option (Cons u) (page_chain st v n)))"

definition page_books :: "site \<Rightarrow> url \<Rightarrow> TData list option" where
  "page_books st u =
     (case list_pages st u of None \<Rightarrow> None | Some lp \<Rightarrow> those (map (pagePromise st) (page_urls lp)))"

definition chain_books :: "site \<Rightarrow> url list \<Rightarrow> TData list option" where
  "chain_books st us = map_option concat (those (map (page_books st) us))"

subsection \<open>A demonstration site\<close>

definition demo_book :: "string \<Rightarrow> product_page" where
  "demo_book t = \<lparr>h1_text = Some t, price_text = Some ''51.77'',
     avail_text = Some (CHR 0x0A # '' In stock (22 available)'' @ [CHR 0x0A]),
     img_src = Some ''img.jpg'', desc_sibling_text = Some ''A book.'', upc_text = Some ''a897''\<rparr>"

definition demo_site :: site where
  "demo_site =
     \<lparr>home_links = [(CHR 0x0A # ''    Travel'' @ [CHR 0x0A], ''/travel''),
                   (CHR 0x0A # ''  Historical Fiction '' @ [CHR 0x0A], ''/hist''),
                   ('' Mystery'', ''/myst'')],
      list_pages = (\<lambda>u. if u = ''/travel'' then Some \<lparr>entries = [([], ''/b1''), ([], ''/b2'')], next_href = Some ''/travel2''\<rparr>
                        else if u = ''/travel2'' then Some \<lparr>entries = [([], ''/b3'')], next_href = None\<rparr>
                        else if u = ''/hist'' then Some \<lparr>entries = [], next_href = None\<rparr>
                        else if u = ''/myst'' then Some \<lparr>entries = [([], ''/b1'')], next_href = None\<rparr>
                        else None),
      product_pages = (\<lambda>u. if u \<in> {''/b1'', ''/b2'', ''/b3''} then Some (demo_book u) else None)\<rparr>"


definition demo_tdata :: "string \<Rightarrow> TData" where
  "demo_tdata t = \<lparr>bookTitle = t, bookPrice = ''51.77'', numAvailable = ''22'', imageUrl = ''img.jpg'',
     bookDescription = ''A book.'', upc = ''a897''\<rparr>"

definition demo_cycle :: site where
  "demo_cycle = demo_site\<lparr>list_pages := (list_pages demo_site)(''/travel2'' \<mapsto>
     \<lparr>entries = [([], ''/b3'')], next_href = Some ''/travel''\<rparr>)\<rparr>"

definition demo_broken :: site where
  "demo_broken = demo_site\<lparr>product_pages := (product_pages demo_site)(''/b2'' \<mapsto>
     (demo_book ''/b2'')\<lparr>upc_text := None\<rparr>)\<rparr>"

subsection \<open>Lemmas on the text helpers and the walk\<close>

lemma word_not_ws: "is_word c \<Longrightarrow> \<not> is_ws c \<and> \<not> is_line_term c"
  by (auto simp: is_word_def is_ws_def is_line_term_def)

lemma breaks_ws: "is_ws (CHR 0x0A)" "is_ws (CHR 0x0D)" "is_ws (CHR 0x09)"
  by (simp_all add: is_ws_def)

lemma paren_group_split:
  assumes "CHR ''('' \<notin> set y" "CHR '')'' \<notin> set z"
  shows "paren_group (x @ CHR ''('' # y @ CHR '')'' # z) = Some y"
proof -
  let ?s = "x @ CHR ''('' # y @ CHR '')'' # z"
  let ?j = "length x + Suc (length y)" and ?i = "length x"
  have cj: "filter (\<lambda>j. ?s ! j = CHR '')'') [0..<length ?s] \<noteq> [] \<and>
      last (filter (\<lambda>j. ?s ! j = CHR '')'') [0..<length ?s]) = ?j"
  proof (rule last_filter_upt)
    show "\<forall>j'. ?j < j' \<and> j' < length ?s \<longrightarrow> \<not> ?s ! j' = CHR '')''"
    proof (intro allI impI)
      fix j' assume j': "?j < j' \<and> j' < length ?s"
      then obtain k where "j' = Suc (?j + k)" using less_imp_Suc_add by blast
      then have k: "j' = length x + Suc (length y + Suc k)" by simp
      have "?s ! j' = z ! k" unfolding k by (simp only: nth_append_length_plus nth_Cons_Suc)
      moreover have "k < length z" using j' k by simp
      ultimately show "\<not> ?s ! j' = CHR '')''" using assms(2) by (metis nth_mem)
    qed
  qed (simp_all add: nth_append)
  have ci: "filter (\<lambda>i. ?s ! i = CHR ''('') [0..<?j] \<noteq> [] \<and>
      last (filter (\<lambda>i. ?s ! i = CHR ''('') [0..<?j]) = ?i"
  proof (rule last_filter_upt)
    show "\<forall>i'. ?i < i' \<and> i' < ?j \<longrightarrow> \<not> ?s ! i' = CHR ''(''"
    proof (intro allI impI)
      fix i' assume i': "?i < i' \<and> i' < ?j"
      then obtain k where "i' = Suc (?i + k)" using less_imp_Suc_add by blast
      then have k: "i' = length x + Suc k" by simp
      have "k < length y" using i' k by simp
      then have "?s ! i' = y ! k" unfolding k
        by (simp only: nth_append_length_plus nth_Cons_Suc) (simp add: nth_append)
      moreover have "k < length y" using i' k by simp
      ultimately show "\<not> ?s ! i' = CHR ''(''" using assms(1) by (metis nth_mem)
    qed
  qed simp_all
  show ?thesis using cj ci by (simp add: paren_group_def Let_def del: upt_Suc)
qed

lemma strip_breaks_append [simp]: "strip_breaks (a @ b) = strip_breaks a @ strip_breaks b"
  by (simp add: strip_breaks_def)

lemma chain_books_Cons:
  "chain_books st (u # us) =
     (case page_books st u of None \<Rightarrow> None | Some d \<Rightarrow> map_option ((@) d) (chain_books st us))"
  by (simp add: chain_books_def split: option.split) (auto simp: option.map_comp comp_def)

lemma scrapeCurrentPage_page:
  "list_pages st u = Some lp \<Longrightarrow> those (map (pagePromise st) (page_urls lp)) = Some d \<Longrightarrow>
   scrapeCurrentPage st u acc =
     (case next_href lp of None \<Rightarrow> Some (Inr (acc @ d)) | Some v \<Rightarrow> scrapeCurrentPage st v (acc @ d))"
  by (subst scrapeCurrentPage.simps) simp

lemma scrape_walk_returns:
  "page_chain st u n = Some us \<Longrightarrow> chain_books st us = Some ds \<Longrightarrow>
   scrapeCurrentPage st u acc = Some (Inr (acc @ ds))"
proof (induction n arbitrary: u us ds acc)
  case 0
  then show ?case by simp
next
  case (Suc n)
  obtain lp where lp: "list_pages st u = Some lp"
    using Suc.prems(1) by (auto split: option.splits)
  show ?case
  proof (cases "next_href lp")
    case None
    then have "us = [u]" using Suc.prems(1) lp by simp
    then obtain d where "those (map (pagePromise st) (page_urls lp)) = Some d" "ds = d"
      using Suc.prems(2) lp by (auto simp: chain_books_Cons chain_books_def page_books_def split: option.splits)
    then show ?thesis using lp None by (simp add: scrapeCurrentPage_page)
  next
    case (Some v)
    then obtain us' where us': "page_chain st v n = Some us'" "us = u # us'"
      using Suc.prems(1) lp by auto
    then obtain d ds' where "those (map (pagePromise st) (page_urls lp)) = Some d"
        "chain_books st us' = Some ds'" "ds = d @ ds'"
      using Suc.prems(2) lp by (auto simp: chain_books_Cons page_books_def split: option.splits)
    then show ?thesis using lp Some Suc.IH [OF us'(1)] by (simp add: scrapeCurrentPage_page)
  qed
qed

lemma scrape_walk_sound:
  "scrapeCurrentPage st u acc = Some (Inr r) \<Longrightarrow>
   \<exists>n us ds. page_chain st u n = Some us \<and> chain_books st us = Some ds \<and> r = acc @ ds"
proof -
  have "scrapeCurrentPage st u acc = Some res \<Longrightarrow> \<forall>r. res = Inr r \<longrightarrow>
      (\<exists>n us ds. page_chain st u n = Some us \<and> chain_books st us = Some ds \<and> r = acc @ ds)"
    for st u acc res
  proof (erule scrapeCurrentPage.raw_induct [where P = "\<lambda>st u acc res. \<forall>r. res = Inr r \<longrightarrow>
      (\<exists>n us ds. page_chain st u n = Some us \<and> chain_books st us = Some ds \<and> r = acc @ ds)",
      rotated], intro allI impI)
    fix f st u acc res r
    assume IH: "\<And>a b c y. f a b c = Some y \<Longrightarrow> \<forall>r. y = Inr r \<longrightarrow>
        (\<exists>n us ds. page_chain a b n = Some us \<and> chain_books a us = Some ds \<and> r = c @ ds)"
      and body: "(case list_pages st u of None \<Rightarrow> Some (Inl TimeoutError)
        | Some lp \<Rightarrow> (case those (map (pagePromise st) (page_urls lp)) of None \<Rightarrow> None
          | Some ds \<Rightarrow> (case next_href lp of None \<Rightarrow> Some (Inr (acc @ ds))
             | Some nu \<Rightarrow> f st nu (acc @ ds)))) = Some res"
      and res: "res = Inr r"
    obtain lp where lp: "list_pages st u = Some lp"
      using body res by (cases "list_pages st u") simp_all
    obtain d where d: "those (map (pagePromise st) (page_urls lp)) = Some d"
      using body lp by (cases "those (map (pagePromise st) (page_urls lp))") simp_all
    have pb: "page_books st u = Some d" using lp d by (simp add: page_books_def)
    show "\<exists>n us ds. page_chain st u n = Some us \<and> chain_books st us = Some ds \<and> r = acc @ ds"
    proof (cases "next_href lp")
      case None
      then have "page_chain st u 1 = Some [u]" "chain_books st [u] = Some d" "r = acc @ d"
        using lp pb body d res by (simp_all add: chain_books_def)
      then show ?thesis by blast
    next
      case (Some v)
      then have fv: "f st v (acc @ d) = Some res" using body lp d by simp
      then obtain n us ds where "page_chain st v n = Some us" "chain_books st us = Some ds"
          "r = (acc @ d) @ ds"
        using IH [OF fv] res by blast
      then have "page_chain st u (Suc n) = Some (u # us)" "chain_books st (u # us) = Some (d @ ds)"
          "r = acc @ (d @ ds)"
        using lp Some pb by (simp_all add: chain_books_Cons)
      then show ?thesis by blast
    qed
  qed
  then show "scrapeCurrentPage st u acc = Some (Inr r) \<Longrightarrow> ?thesis" by blast
qed

lemma demo_book_available:
  "parse_available (CHR 0x0A # '' In stock (22 available)'' @ [CHR 0x0A]) = Some ''22''"
  by code_simp

subsection \<open>Properties\<close>

text \<open>C20: The clean-up of a category link's text (the regular expression of line 63, run by the engine's left-to-right scan) deletes every line break and tab and every white space next to a line end or next to a non-word character, and keeps exactly the characters of keep_char, in order.\<close>

lemma regex_strip_spec:
  "regex_strip s p = map (nth s) (filter (keep_char s) [p..<length s])"
proof (induction s p rule: regex_strip.induct)
  case (1 s p)
  show ?case
  proof (cases "length s \<le> p")
    case True
    then show ?thesis by (simp add: regex_strip.simps)
  next
    case False
    then have up: "[p..<length s] = p # [Suc p..<length s]" by (simp add: upt_conv_Cons)
    let ?c = "s ! p"
    show ?thesis
    proof (cases "take 3 (drop p s) = [CHR 0x0D, CHR 0x0A, CHR 0x09]")
      case True
      then have len: "p + 3 \<le> length s" and c0: "s ! p = CHR 0x0D" and c1: "s ! Suc p = CHR 0x0A"
        and c2: "s ! Suc (Suc p) = CHR 0x09"
    proof -
      show len: "p + 3 \<le> length s" using arg_cong [OF True, of length] by simp
      show "s ! p = CHR 0x0D" using arg_cong [OF True, of "\<lambda>l. l ! 0"] len by simp
      show "s ! Suc p = CHR 0x0A" using arg_cong [OF True, of "\<lambda>l. l ! 1"] len by simp
      show "s ! Suc (Suc p) = CHR 0x09" using arg_cong [OF True, of "\<lambda>l. l ! 2"] len
        by (simp add: numeral_2_eq_2)
    qed
      have e3: "p + 3 = Suc (Suc (Suc p))" by simp
      from len have "[p..<length s] = p # Suc p # Suc (Suc p) # [p + 3..<length s]"
        by (simp add: upt_conv_Cons e3)
      moreover have "\<not> keep_char s p" "\<not> keep_char s (Suc p)" "\<not> keep_char s (Suc (Suc p))"
        using c0 c1 c2 by (simp_all add: keep_char_def breaks_ws)
      ultimately show ?thesis using "1.IH"(1) False True
        by (subst regex_strip.simps) (simp add: Let_def)
    next
      case nc: False
      have k: "keep_char s p \<longleftrightarrow>
          \<not> ((?c = CHR 0x0A \<or> ?c = CHR 0x0D \<or> ?c = CHR 0x09) \<or>
             (is_ws ?c \<and> ((p = 0 \<or> is_line_term (s ! (p - 1))) \<or>
                (\<not> Suc p < length s \<or> is_line_term (s ! Suc p)) \<or>
                ((0 < p \<and> is_word (s ! (p - 1))) = is_word ?c) \<or>
                (is_word ?c = (Suc p < length s \<and> is_word (s ! Suc p))))))"
        using word_not_ws [of "s ! (p - 1)"] word_not_ws [of "s ! Suc p"] word_not_ws [of ?c]
        by (auto simp: keep_char_def breaks_ws)
      have unf: "regex_strip s p =
          (if keep_char s p then ?c # regex_strip s (Suc p) else regex_strip s (Suc p))"
        by (subst regex_strip.simps) (simp add: Let_def False nc k)
      note ih2 = "1.IH"(2) [OF False refl refl refl refl refl refl refl refl refl refl refl nc]
      note ih3 = "1.IH"(3) [OF False refl refl refl refl refl refl refl refl refl refl refl nc]
      have ih: "regex_strip s (Suc p) = map (nth s) (filter (keep_char s) [Suc p..<length s])"
        using ih2 ih3 by blast
      show ?thesis using unf up ih by simp

    qed
  qed
qed

text \<open>C21: numAvailable parses back what the page prints: for a text ending in '(<n> available)' followed by anything without a closing parenthesis, the parse of lines 89--94 answers n, whatever precedes the parenthesis.\<close>

lemma parse_available_roundtrip:
  assumes "CHR ''('' \<notin> set w" "CHR '' '' \<notin> set w" "set w \<inter> {CHR 0x0A, CHR 0x0D, CHR 0x09} = {}"
    "CHR '')'' \<notin> set b"
  shows "parse_available (a @ ''('' @ w @ '' available)'' @ b) = Some w"
proof -
  have w: "strip_breaks w = w" using assms(3) by (auto simp: strip_breaks_def filter_id_conv)
  have b: "CHR '')'' \<notin> set (strip_breaks b)" using assms(4) by (simp add: strip_breaks_def)
  have eq: "strip_breaks (a @ ''('' @ w @ '' available)'' @ b) =
      strip_breaks a @ CHR ''('' # (w @ '' available'') @ CHR '')'' # strip_breaks b"
    using w by (simp add: strip_breaks_def)
  have pg: "paren_group (strip_breaks a @ CHR ''('' # (w @ '' available'') @ CHR '')'' # strip_breaks b) =
      Some (w @ '' available'')"
    by (rule paren_group_split) (use assms(1) b in auto)
  have tw: "takeWhile (\<lambda>c. c \<noteq> CHR '' '') (w @ '' available'') = w"
  proof -
    have "takeWhile (\<lambda>c. c \<noteq> CHR '' '') (w @ '' available'') =
        w @ takeWhile (\<lambda>c. c \<noteq> CHR '' '') '' available''"
      by (rule takeWhile_append2) (use assms(2) in auto)
    then show ?thesis by simp
  qed
  show ?thesis unfolding parse_available_def eq pg using tw by simp
qed

lemma parse_available_roundtrip_witness:
  "parse_available ((CHR 0x0A # '' In stock '') @ ''('' @ ''22'' @ '' available)'' @ [CHR 0x0A]) = Some ''22''"
  by (rule parse_available_roundtrip) simp_all

text \<open>C9: The paginated walk refines the chain of pages: scrapeCurrentPage returns data exactly when the 'next' links from the start page end after finitely many list pages, all of which load and all of whose books parse, and then it returns the accumulated data followed by the books of those pages in page order.\<close>

lemma scrape_walk_spec:
  "scrapeCurrentPage st u acc = Some (Inr r) \<longleftrightarrow>
   (\<exists>n us ds. page_chain st u n = Some us \<and> chain_books st us = Some ds \<and> r = acc @ ds)"
  using scrape_walk_sound scrape_walk_returns by blast

text \<open>C10: The walk keeps no record of the pages it has visited: when the 'next' links of a set of loading pages stay inside that set, scrapeCurrentPage started in it never returns.\<close>

lemma scrape_cycle_hangs:
  assumes "\<forall>v\<in>U. \<exists>lp w. list_pages st v = Some lp \<and> page_books st v \<noteq> None \<and>
      next_href lp = Some w \<and> w \<in> U"
    and "u \<in> U"
  shows "scrapeCurrentPage st u acc = None"
proof -
  have "scrapeCurrentPage st' u' acc' = Some r' \<Longrightarrow> st' = st \<longrightarrow> u' \<notin> U" for st' u' acc' r'
  proof (erule scrapeCurrentPage.raw_induct [where P = "\<lambda>st' u' _ _. st' = st \<longrightarrow> u' \<notin> U", rotated],
      intro impI notI)
    fix f st' u' acc' r'
    assume IH: "\<And>a b c y. f a b c = Some y \<Longrightarrow> a = st \<longrightarrow> b \<notin> U"
      and body: "(case list_pages st' u' of None \<Rightarrow> Some (Inl TimeoutError)
        | Some lp \<Rightarrow> (case those (map (pagePromise st') (page_urls lp)) of None \<Rightarrow> None
          | Some ds \<Rightarrow> (case next_href lp of None \<Rightarrow> Some (Inr (acc' @ ds))
             | Some nu \<Rightarrow> f st' nu (acc' @ ds)))) = Some r'"
      and st': "st' = st" and u': "u' \<in> U"
    obtain lp w d where "list_pages st u' = Some lp" "next_href lp = Some w" "w \<in> U"
        "those (map (pagePromise st) (page_urls lp)) = Some d"
      using assms(1) u' by (fastforce simp: page_books_def)
    then show False using body IH [of st w "acc' @ d" r'] st' by simp
  qed
  then show ?thesis using assms(2) by fastforce
qed

lemma scrape_cycle_hangs_witness: "scrapeCurrentPage demo_cycle ''/travel'' [] = None"
  by (rule scrape_cycle_hangs [where U = "{''/travel'', ''/travel2''}"])
    (simp_all add: demo_cycle_def demo_site_def page_books_def page_urls_def pagePromise_def demo_book_def
      demo_book_available [simplified])

text \<open>C22: One product page whose selector finds nothing stops the whole category: the promise of pagePromise never settles, so scrapeCurrentPage never returns (and no error reaches the catch of scrapeAll).\<close>

lemma missing_field_hangs:
  "list_pages st u = Some lp \<Longrightarrow> b \<in> set (page_urls lp) \<Longrightarrow> pagePromise st b = None \<Longrightarrow>
   scrapeCurrentPage st u acc = None"
proof -
  assume lp: "list_pages st u = Some lp" and "b \<in> set (page_urls lp)" "pagePromise st b = None"
  then have "those (map (pagePromise st) (page_urls lp)) = None"
    by (force simp: those_eq_None)
  then show ?thesis using lp by (subst scrapeCurrentPage.simps) simp
qed

lemma missing_field_hangs_witness: "scrapeCurrentPage demo_broken ''/travel'' [] = None"
  by (rule missing_field_hangs [where lp = "\<lparr>entries = [([], ''/b1''), ([], ''/b2'')], next_href = Some ''/travel2''\<rparr>"
     and b = "''/b2''"]) (simp_all add: demo_broken_def demo_site_def page_urls_def pagePromise_def)

text \<open>C32: When the three categories are scraped, scrapeAll closes the browser and hands data.json the categories in the order Travel, Historical Fiction, Mystery; the file is written and success logged when the write succeeds, and only the write error is logged when it fails.\<close>

lemma scrapeAll_success:
  "scraper st ''Travel'' = Some (Inr d1) \<Longrightarrow> scraper st ''Historical Fiction'' = Some (Inr d2) \<Longrightarrow>
   scraper st ''Mystery'' = Some (Inr d3) \<Longrightarrow>
   scrapeAll err st = Some \<lparr>scrapedData = [(Travel, d1), (HistoricalFiction, d2), (Mystery, d3)],
     browser_open = False,
     console_log = [case err of None \<Rightarrow> ''The data has been scraped and saved successfully! View it at '' @
                      CHR 0x27 # ''./data.json'' @ [CHR 0x27] | Some e \<Rightarrow> e],
     data_json = (case err of None \<Rightarrow> Some [(Travel, d1), (HistoricalFiction, d2), (Mystery, d3)]
                  | Some _ \<Rightarrow> None)\<rparr>"
  by (simp add: scrapeAll_def browser_close_def writeFile_cb_def split: option.split)

lemma scrapeAll_success_witness:
  "scrapeAll (Some ''EACCES'') demo_site = Some \<lparr>scrapedData = [(Travel, map demo_tdata [''/b1'', ''/b2'', ''/b3'']),
     (HistoricalFiction, []), (Mystery, [demo_tdata ''/b1''])], browser_open = False,
     console_log = [''EACCES''], data_json = None\<rparr>"
proof -
  have h1: "scraper demo_site ''Travel'' = Some (Inr (map demo_tdata [''/b1'', ''/b2'', ''/b3'']))" by code_simp
  have h2: "scraper demo_site ''Historical Fiction'' = Some (Inr [])" by code_simp
  have h3: "scraper demo_site ''Mystery'' = Some (Inr [demo_tdata ''/b1''])" by code_simp
  show ?thesis using scrapeAll_success [OF h1 h2 h3, of "Some ''EACCES''"] by simp
qed

text \<open>C33: When no category link reads 'Travel', reading href of the missing link throws; scrapeAll's catch only logs: the browser stays open and no data.json is written.\<close>

lemma scrapeAll_missing_category:
  "\<forall>l\<in>set (home_links st). regex_strip (fst l) 0 \<noteq> ''Travel'' \<Longrightarrow>
   scrapeAll err st = Some \<lparr>scrapedData = [], browser_open = True,
     console_log = [''Could not resolve the browser instance => ''], data_json = None\<rparr>"
  by (simp add: scrapeAll_def scraper_def selectedCategory_def filter_empty_conv)

lemma scrapeAll_missing_category_witness:
  "scrapeAll None (demo_site\<lparr>home_links := tl (home_links demo_site)\<rparr>) = Some \<lparr>scrapedData = [], browser_open = True,
     console_log = [''Could not resolve the browser instance => ''], data_json = None\<rparr>"
  by (rule scrapeAll_missing_category) code_simp

end
