(* ===== verification/Cube_Character.thy ===== *)
theory Cube_Character
  imports Complex_Main Prelude
begin

text \<open>
  The three.js cube character demo (threejs-cube-character/src/scripts): the \<open>random\<close>
  helper, the \<open>Figure\<close> class that builds a cube character in a scene graph and poses it
  from its parameter object, the \<open>Producer\<close> class that owns the scene, camera and
  renderer, and the page script that wires both to two gsap tweens and the gsap ticker.
  The parts of three.js the code calls (\<open>Object3D.add\<close>, positions and rotations) and of
  gsap (a repeating tween, the ticker) are modelled as the libraries document them; every
  object of the scene graph is an entry of a store indexed by its id.
\<close>

subsection \<open>random (functions/random.ts)\<close>

text \<open>\<open>u\<close> is the value \<open>Math.random()\<close> returns, in \<open>[0, 1)\<close>; \<open>minv\<close>, \<open>maxv\<close> are the
  parameters \<open>min\<close>, \<open>max\<close>. The arithmetic is on exact reals. JavaScript evaluates it in
  IEEE doubles, and their rounding is not modelled: for large operands (a range near
  \<open>2^51\<close>, for instance) the product and sum can round up to \<open>max\<close>. The page only calls
  \<open>random(0, 360)\<close>, where the largest rounded product, for \<open>u = 1 - 2^-53\<close>, is the double just below 360.\<close>

definition random_js :: "real \<Rightarrow> real \<Rightarrow> bool \<Rightarrow> real \<Rightarrow> real" where
  "random_js minv maxv float u =
     (let value = u * (maxv - minv) + minv in if float then value else of_int \<lfloor>value\<rfloor>)"

subsection \<open>Types (types/types.ts)\<close>

text \<open>The fields x, y, z, rx, ry of \<open>TFigureParams\<close> carry a \<open>p_\<close> prefix, since one-letter
  record fields would capture the variables of the same name.\<close>

record TFigureParams =
  p_x :: real
  p_y :: real
  p_z :: real
  p_rx :: real
  p_ry :: real
  armRotation :: real

record TSizes =
  width :: real
  height :: real

subsection \<open>The part of three.js the demo uses\<close>

type_synonym vec3 = "real \<times> real \<times> real"

datatype color = HSL real nat nat | Hex nat

datatype geometry = BoxGeometry real real real | SphereGeometry real nat nat

datatype obj_kind =
    Scene
  | Group
  | Mesh geometry color                     \<comment> \<open>a mesh with a \<open>MeshLambertMaterial\<close> of that colour\<close>
  | PerspectiveCamera real real real real   \<comment> \<open>fov, aspect, near, far\<close>
  | DirectionalLight nat real
  | AmbientLight nat real

record object3d =
  kind :: obj_kind
  parent :: "nat option"
  children :: "nat list"
  position :: vec3
  rotation :: vec3

type_synonym graph = "object3d list"

definition new_obj :: "obj_kind \<Rightarrow> graph \<Rightarrow> nat \<times> graph" where
  "new_obj k g = (length g,
     g @ [\<lparr>kind = k, parent = None, children = [], position = (0, 0, 0), rotation = (0, 0, 0)\<rparr>])"

text \<open>\<open>parent.add(child)\<close>: an object cannot be its own child; an object that has a parent
  is first removed from that parent's children, so an object has at most one parent.\<close>

definition obj_add :: "nat \<Rightarrow> nat \<Rightarrow> graph \<Rightarrow> graph" where
  "obj_add p c g =
     (if c = p then g
      else
        (let g1 = (case parent (g ! c) of
                     None \<Rightarrow> g
                   | Some q \<Rightarrow> g[q := (g ! q)\<lparr>children := remove1 c (children (g ! q))\<rparr>]);
             g2 = g1[c := (g1 ! c)\<lparr>parent := Some p\<rparr>]
         in g2[p := (g2 ! p)\<lparr>children := children (g2 ! p) @ [c]\<rparr>]))"

definition set_pos :: "nat \<Rightarrow> (vec3 \<Rightarrow> vec3) \<Rightarrow> graph \<Rightarrow> graph" where
  "set_pos i f g = g[i := (g ! i)\<lparr>position := f (position (g ! i))\<rparr>]"

definition set_rot :: "nat \<Rightarrow> (vec3 \<Rightarrow> vec3) \<Rightarrow> graph \<Rightarrow> graph" where
  "set_rot i f g = g[i := (g ! i)\<lparr>rotation := f (rotation (g ! i))\<rparr>]"

definition set_x :: "real \<Rightarrow> vec3 \<Rightarrow> vec3" where "set_x a v = (a, fst (snd v), snd (snd v))"
definition set_y :: "real \<Rightarrow> vec3 \<Rightarrow> vec3" where "set_y a v = (fst v, a, snd (snd v))"
definition set_z :: "real \<Rightarrow> vec3 \<Rightarrow> vec3" where "set_z a v = (fst v, fst (snd v), a)"

definition set_kind :: "nat \<Rightarrow> obj_kind \<Rightarrow> graph \<Rightarrow> graph" where
  "set_kind i k g = g[i := (g ! i)\<lparr>kind := k\<rparr>]"

text \<open>The mirror factor \<open>m = i % 2 === 0 ? 1 : -1\<close> of the loops over the two arms, eyes
  and legs.\<close>

definition mirror :: "nat \<Rightarrow> real" where
  "mirror i = (if i mod 2 = 0 then 1 else -1)"


subsection \<open>Figure (classes/figure.class.ts)\<close>

text \<open>
  The figure keeps a reference to its parameter object (\<open>this._params = params\<close>): the
  object lives in the store \<open>heap\<close>, where gsap later changes it, and every pose reads
  the current value. The scene graph objects are referenced by id; before \<open>create\<close>
  they are \<open>undefined\<close> (\<open>None\<close>). The materials are their colours.
\<close>

type_synonym params_heap = "nat \<Rightarrow> TFigureParams"

record figure =
  f_scene :: "nat option"
  f_params :: nat
  f_group :: "nat option"
  f_head :: "nat option"
  f_body :: "nat option"
  f_arms :: "nat list"
  f_headHue :: real
  f_bodyHue :: real
  f_headMaterial :: color
  f_bodyMaterial :: color

text \<open>The constructor (lines 23--32); \<open>u1\<close>, \<open>u2\<close> are the two \<open>Math.random()\<close> draws.\<close>

definition Figure_new :: "nat \<Rightarrow> real \<Rightarrow> real \<Rightarrow> figure" where
  "Figure_new params u1 u2 =
     (let hh = random_js 0 360 False u1; bh = random_js 0 360 False u2
      in \<lparr>f_scene = None, f_params = params, f_group = None, f_head = None, f_body = None,
          f_arms = [], f_headHue = hh, f_bodyHue = bh,
          f_headMaterial = HSL hh 30 50, f_bodyMaterial = HSL bh 85 50\<rparr>)"

text \<open>The part builders (lines 64--143), each given the objects it reads from the fields
  that \<open>create\<close> has just set (\<open>this._group\<close>, \<open>this._body\<close>, \<open>this._head\<close>).\<close>

definition createBody :: "nat \<Rightarrow> color \<Rightarrow> graph \<Rightarrow> nat \<times> graph" where
  "createBody grp mat g =
     (let (body, g1) = new_obj (Mesh (BoxGeometry 1 1.5 1) mat) g
      in (body, obj_add grp body g1))"

definition createHead :: "nat \<Rightarrow> color \<Rightarrow> graph \<Rightarrow> nat \<times> graph" where
  "createHead grp mat g =
     (let (head, g1) = new_obj (Mesh (BoxGeometry 1.4 1.4 1.4) mat) g;
          g2 = set_pos head (set_y 1.65) g1
      in (head, obj_add grp head g2))"

definition createArm :: "nat \<Rightarrow> color \<Rightarrow> nat \<Rightarrow> graph \<Rightarrow> nat \<times> graph" where
  "createArm body mat i g =
     (let height = 0.85;
          (armGroup, g1) = new_obj Group g;
          (arm, g2) = new_obj (Mesh (BoxGeometry 0.25 height 0.25) mat) g1;
          m = mirror i;
          g3 = obj_add armGroup arm g2;
          g4 = obj_add body armGroup g3;
          g5 = set_pos arm (set_y (height * -0.5)) g4;
          g6 = set_pos armGroup (set_x (m * 0.8)) g5;
          g7 = set_pos armGroup (set_y 0.6) g6;
          g8 = set_rot armGroup (set_z (pi / 5 * 30)) g7
      in (armGroup, g8))"

definition createArms :: "nat \<Rightarrow> color \<Rightarrow> nat list \<Rightarrow> graph \<Rightarrow> nat list \<times> graph" where
  "createArms body mat arms g =
     fold (\<lambda>i (arms, g). let (a, g') = createArm body mat i g in (arms @ [a], g')) [0..<2] (arms, g)"

definition createEyes :: "nat \<Rightarrow> graph \<Rightarrow> graph" where
  "createEyes head g =
     (let (eyes, g1) = new_obj Group g;
          g2 = fold (\<lambda>i g. let (eye, g') = new_obj (Mesh (SphereGeometry 0.15 12 8) (Hex 0x44445c)) g;
                              g'' = obj_add eyes eye g'
                          in set_pos eye (set_x (0.36 * mirror i)) g'') [0..<2] g1;
          g3 = set_pos eyes (set_z 0.7) g2
      in obj_add head eyes g3)"

definition createLegs :: "nat \<Rightarrow> nat \<Rightarrow> color \<Rightarrow> graph \<Rightarrow> graph" where
  "createLegs grp body mat g =
     (let (legs, g1) = new_obj Group g;
          g2 = fold (\<lambda>i g. let (leg, g') = new_obj (Mesh (BoxGeometry 0.25 0.4 0.25) mat) g;
                              g'' = obj_add legs leg g'
                          in set_pos leg (set_x (mirror i * 0.22)) g'') [0..<2] g1;
          g3 = obj_add grp legs g2;
          g4 = set_pos legs (set_y (-1.15)) g3
      in obj_add body legs g4)"

text \<open>\<open>create(scene)\<close> (lines 35--52).\<close>

definition Figure_create :: "params_heap \<Rightarrow> nat \<Rightarrow> figure \<Rightarrow> graph \<Rightarrow> figure \<times> graph" where
  "Figure_create heap scene fig g =
     (let (grp, g1) = new_obj Group g;
          prm = heap (f_params fig);
          g2 = set_pos grp (\<lambda>_. (p_x prm, p_y prm, p_z prm)) g1;
          g3 = set_rot grp (\<lambda>_. (p_rx prm, p_ry prm, 0)) g2;
          g4 = obj_add scene grp g3;
          (body, g5) = createBody grp (f_bodyMaterial fig) g4;
          (head, g6) = createHead grp (f_headMaterial fig) g5;
          (arms, g7) = createArms body (f_headMaterial fig) (f_arms fig) g6;
          g8 = createEyes head g7;
          g9 = createLegs grp body (Hex 0xffffff) g8
      in (fig\<lparr>f_scene := Some scene, f_group := Some grp, f_body := Some body, f_head := Some head,
              f_arms := arms\<rparr>, g9))"

text \<open>\<open>animate()\<close> (lines 54--61): reading \<open>this._group.rotation\<close> before \<open>create\<close> throws.\<close>

definition Figure_animate :: "params_heap \<Rightarrow> figure \<Rightarrow> graph \<Rightarrow> js_error + graph" where
  "Figure_animate heap fig g =
     (case f_group fig of
        None \<Rightarrow> Inl TypeError
      | Some grp \<Rightarrow>
          (let prm = heap (f_params fig);
               g1 = set_rot grp (set_y (p_ry prm)) g;
               g2 = set_pos grp (set_y (p_y prm)) g1
           in Inr (fold (\<lambda>(i, arm) g. set_rot arm (set_z (armRotation prm * mirror i)) g)
                    (enumerate 0 (f_arms fig)) g2)))"


subsection \<open>Producer (classes/producer.class.ts)\<close>

text \<open>The browser window the producer reads (\<open>innerWidth\<close>, \<open>innerHeight\<close>,
  \<open>devicePixelRatio\<close>).\<close>

record window =
  innerWidth :: real
  innerHeight :: real
  devicePixelRatio :: real

text \<open>The renderer as its drawing-buffer size and pixel ratio; \<open>pr_frames\<close> records the
  scene graph at every \<open>render\<close> call, which is what the canvas shows.\<close>

record renderer =
  r_width :: real
  r_height :: real
  r_pixelRatio :: real

record producer =
  pr_figures :: "figure list"
  pr_renderer :: "renderer option"
  pr_camera :: "nat option"
  pr_sizes :: TSizes
  pr_scene :: "nat option"
  pr_frames :: "graph list"

definition Producer_new :: "TSizes \<Rightarrow> producer" where
  "Producer_new sizes = \<lparr>pr_figures = [], pr_renderer = None, pr_camera = None, pr_sizes = sizes,
     pr_scene = None, pr_frames = []\<rparr>"

definition initScene :: "producer \<Rightarrow> graph \<Rightarrow> producer \<times> graph" where
  "initScene pr g =
     (let (scene, g1) = new_obj Scene g;
          (camera, g2) = new_obj (PerspectiveCamera 75 (width (pr_sizes pr) / height (pr_sizes pr)) 0.1 1000) g1;
          g3 = set_pos camera (set_z 7) g2;
          g4 = set_pos camera (set_x 1) g3
      in (pr\<lparr>pr_scene := Some scene, pr_camera := Some camera\<rparr>, obj_add scene camera g4))"

definition createRenderer :: "window \<Rightarrow> producer \<Rightarrow> graph \<Rightarrow> producer" where
  "createRenderer win pr g =
     pr\<lparr>pr_renderer := Some \<lparr>r_width = innerWidth win, r_height = innerHeight win,
                              r_pixelRatio = min (devicePixelRatio win) 2\<rparr>,
        pr_frames := pr_frames pr @ [g]\<rparr>"

definition createLight :: "nat \<Rightarrow> graph \<Rightarrow> graph" where
  "createLight scene g =
     (let (lightDirectional, g1) = new_obj (DirectionalLight 0xffffff 1) g;
          g2 = obj_add scene lightDirectional g1;
          g3 = set_pos lightDirectional (\<lambda>_. (5, 5, 5)) g2;
          (lightAmbient, g4) = new_obj (AmbientLight 0x9eaeff 0.2) g3
      in obj_add scene lightAmbient g4)"

definition set_aspect :: "real \<Rightarrow> obj_kind \<Rightarrow> obj_kind" where
  "set_aspect a k = (case k of PerspectiveCamera fov _ near far \<Rightarrow> PerspectiveCamera fov a near far | _ \<Rightarrow> k)"

definition initEvents :: "window \<Rightarrow> nat \<Rightarrow> producer \<Rightarrow> graph \<Rightarrow> producer \<times> graph" where
  "initEvents win camera pr g =
     (let sizes = \<lparr>width = innerWidth win, height = innerHeight win\<rparr>
      in (pr\<lparr>pr_sizes := sizes\<rparr>,
          set_kind camera (set_aspect (width sizes / height sizes) (kind (g ! camera))) g))"

text \<open>\<open>_render()\<close> (lines 116--120): reading \<open>this._renderer\<close> before \<open>create\<close> throws.\<close>

definition render :: "window \<Rightarrow> producer \<Rightarrow> graph \<Rightarrow> js_error + producer" where
  "render win pr g =
     (case pr_renderer pr of
        None \<Rightarrow> Inl TypeError
      | Some _ \<Rightarrow> Inr (pr\<lparr>pr_renderer := Some \<lparr>r_width = width (pr_sizes pr), r_height = height (pr_sizes pr),
                                   r_pixelRatio = min (devicePixelRatio win) 2\<rparr>,
                       pr_frames := pr_frames pr @ [g]\<rparr>))"

text \<open>\<open>create()\<close> (lines 40--49).\<close>

definition Producer_create :: "window \<Rightarrow> producer \<Rightarrow> graph \<Rightarrow> js_error + producer \<times> graph" where
  "Producer_create win pr g =
     (let (pr1, g1) = initScene pr g;
          scene = the (pr_scene pr1); camera = the (pr_camera pr1);
          pr2 = createRenderer win pr1 g1;
          g2 = createLight scene g1;
          (pr3, g3) = initEvents win camera pr2 g2
      in map_sum id (\<lambda>pr4. (pr4, g3)) (render win pr3 g3))"

text \<open>\<open>addFigure(figure)\<close> (lines 51--57): \<open>figure.create(this._scene)\<close> with no scene throws
  inside \<open>create\<close>.\<close>

definition addFigure ::
  "window \<Rightarrow> params_heap \<Rightarrow> figure \<Rightarrow> producer \<Rightarrow> graph \<Rightarrow> js_error + producer \<times> graph" where
  "addFigure win heap fig pr g =
     (case pr_scene pr of
        None \<Rightarrow> Inl TypeError
      | Some scene \<Rightarrow>
          (let (fig', g1) = Figure_create heap scene fig g
           in map_sum id (\<lambda>pr'. (pr', g1)) (render win (pr\<lparr>pr_figures := pr_figures pr @ [fig']\<rparr>) g1)))"

text \<open>\<open>animateFigures()\<close> (lines 59--66): pose every figure in order (the first that throws
  stops the loop), then render; nothing at all when there is no figure.\<close>

fun animate_all :: "params_heap \<Rightarrow> figure list \<Rightarrow> graph \<Rightarrow> js_error + graph" where
  "animate_all heap [] g = Inr g"
| "animate_all heap (f # fs) g =
     (case Figure_animate heap f g of Inl e \<Rightarrow> Inl e | Inr g' \<Rightarrow> animate_all heap fs g')"

definition animateFigures ::
  "window \<Rightarrow> params_heap \<Rightarrow> producer \<Rightarrow> graph \<Rightarrow> js_error + producer \<times> graph" where
  "animateFigures win heap pr g =
     (if pr_figures pr \<noteq> []
      then (case animate_all heap (pr_figures pr) g of
              Inl e \<Rightarrow> Inl e
            | Inr g' \<Rightarrow> map_sum id (\<lambda>pr'. (pr', g')) (render win pr g'))
      else Inr (pr, g))"


subsection \<open>The part of gsap the page script uses\<close>

text \<open>
  A tween with \<open>repeat: -1\<close> runs its cycle of \<open>d\<close> seconds forever; with \<open>yoyo\<close> every
  second cycle runs backwards. The default ease is \<open>power1.out\<close>. The start value is the
  property's value when the tween starts.
\<close>

definition power1_out :: "real \<Rightarrow> real" where
  "power1_out p = 1 - (1 - p)\<^sup>2"

definition tween_progress :: "real \<Rightarrow> bool \<Rightarrow> real \<Rightarrow> real" where
  "tween_progress d yoyo t =
     (let c = \<lfloor>t / d\<rfloor>; fr = t / d - of_int c in if yoyo \<and> odd c then 1 - fr else fr)"

definition tween_value :: "real \<Rightarrow> real \<Rightarrow> real \<Rightarrow> bool \<Rightarrow> real \<Rightarrow> real" where
  "tween_value a b d yoyo t = a + (b - a) * power1_out (tween_progress d yoyo t)"

subsection \<open>The page script (index.ts)\<close>

text \<open>\<open>animateProps\<close> (line 161), the one parameter object, stored at address 0.\<close>

definition animateProps :: TFigureParams where
  "animateProps = \<lparr>p_x = 0, p_y = 0, p_z = 1, p_rx = 0.5, p_ry = 0.8, armRotation = 1\<rparr>"

definition heap0 :: params_heap where
  "heap0 = (\<lambda>_. animateProps)"

record app =
  a_heap :: params_heap
  a_producer :: producer
  a_graph :: graph

text \<open>Lines 1--168: the producer created, the figure built on \<open>animateProps\<close> and added,
  then \<open>gsap.set(animateProps, {y: -1.5})\<close>.\<close>

definition index_main :: "window \<Rightarrow> real \<Rightarrow> real \<Rightarrow> js_error + app" where
  "index_main win u1 u2 =
     (let sizes = \<lparr>width = innerWidth win, height = innerHeight win\<rparr>;
          producer = Producer_new sizes
      in case Producer_create win producer [] of
           Inl e \<Rightarrow> Inl e
         | Inr (pr, g) \<Rightarrow>
             (let figure = Figure_new 0 u1 u2
              in case addFigure win heap0 figure pr g of
                   Inl e \<Rightarrow> Inl e
                 | Inr (pr', g') \<Rightarrow>
                     Inr \<lparr>a_heap = heap0(0 := (heap0 0)\<lparr>p_y := -1.5\<rparr>), a_producer = pr', a_graph = g'\<rparr>))"

text \<open>Lines 170--182: the two tweens on \<open>animateProps\<close> at time \<open>t\<close> seconds after they
  started, from the values \<open>p0\<close> the object had then.\<close>

definition gsap_tweens :: "TFigureParams \<Rightarrow> real \<Rightarrow> TFigureParams \<Rightarrow> TFigureParams" where
  "gsap_tweens p0 t p =
     p\<lparr>p_ry := tween_value (p_ry p0) (pi * 2) 20 False t,
       p_y := tween_value (p_y p0) 0 0.5 True t,
       armRotation := tween_value (armRotation p0) pi 0.5 True t\<rparr>"

text \<open>Lines 184--186: on every tick gsap first brings its tweens to the tick's time, then
  calls the listener, \<open>producer.animateFigures()\<close>.\<close>

definition tick :: "window \<Rightarrow> TFigureParams \<Rightarrow> real \<Rightarrow> app \<Rightarrow> js_error + app" where
  "tick win p0 t st =
     (let heap' = (a_heap st)(0 := gsap_tweens p0 t (a_heap st 0))
      in case animateFigures win heap' (a_producer st) (a_graph st) of
           Inl e \<Rightarrow> Inl e
         | Inr (pr, g) \<Rightarrow> Inr (st\<lparr>a_heap := heap', a_producer := pr, a_graph := g\<rparr>))"

fun run_ticks :: "window \<Rightarrow> TFigureParams \<Rightarrow> real list \<Rightarrow> app \<Rightarrow> js_error + app" where
  "run_ticks win p0 [] st = Inr st"
| "run_ticks win p0 (t # ts) st =
     (case tick win p0 t st of Inl e \<Rightarrow> Inl e | Inr st' \<Rightarrow> run_ticks win p0 ts st')"


subsection \<open>Reference definitions for the properties\<close>

text \<open>An object of the scene graph by its fields, and the children appended to an object.\<close>

definition obj :: "obj_kind \<Rightarrow> nat option \<Rightarrow> nat list \<Rightarrow> vec3 \<Rightarrow> vec3 \<Rightarrow> object3d" where
  "obj k p cs pos rot = \<lparr>kind = k, parent = p, children = cs, position = pos, rotation = rot\<rparr>"

definition add_kids :: "nat \<Rightarrow> nat list \<Rightarrow> graph \<Rightarrow> graph" where
  "add_kids p cs g = g[p := (g ! p)\<lparr>children := children (g ! p) @ cs\<rparr>]"

text \<open>The objects \<open>create\<close> appends to a graph of \<open>n\<close> objects, in the order it makes
  them: group, body, head, two arm groups each holding its arm, the eyes group with two
  eyes, the legs group with two legs; each with its parent, children, position and
  rotation.\<close>

definition figure_objs :: "TFigureParams \<Rightarrow> figure \<Rightarrow> nat \<Rightarrow> nat \<Rightarrow> graph" where
  "figure_objs prm fig s n =
     [obj Group (Some s) [n + 1, n + 2] (p_x prm, p_y prm, p_z prm) (p_rx prm, p_ry prm, 0),
      obj (Mesh (BoxGeometry 1 1.5 1) (f_bodyMaterial fig)) (Some n) [n + 3, n + 5, n + 10] (0, 0, 0) (0, 0, 0),
      obj (Mesh (BoxGeometry 1.4 1.4 1.4) (f_headMaterial fig)) (Some n) [n + 7] (0, 1.65, 0) (0, 0, 0),
      obj Group (Some (n + 1)) [n + 4] (0.8, 0.6, 0) (0, 0, pi / 5 * 30),
      obj (Mesh (BoxGeometry 0.25 0.85 0.25) (f_headMaterial fig)) (Some (n + 3)) [] (0, -0.425, 0) (0, 0, 0),
      obj Group (Some (n + 1)) [n + 6] (-0.8, 0.6, 0) (0, 0, pi / 5 * 30),
      obj (Mesh (BoxGeometry 0.25 0.85 0.25) (f_headMaterial fig)) (Some (n + 5)) [] (0, -0.425, 0) (0, 0, 0),
      obj Group (Some (n + 2)) [n + 8, n + 9] (0, 0, 0.7) (0, 0, 0),
      obj (Mesh (SphereGeometry 0.15 12 8) (Hex 0x44445c)) (Some (n + 7)) [] (0.36, 0, 0) (0, 0, 0),
      obj (Mesh (SphereGeometry 0.15 12 8) (Hex 0x44445c)) (Some (n + 7)) [] (-0.36, 0, 0) (0, 0, 0),
      obj Group (Some (n + 1)) [n + 11, n + 12] (0, -1.15, 0) (0, 0, 0),
      obj (Mesh (BoxGeometry 0.25 0.4 0.25) (Hex 0xffffff)) (Some (n + 10)) [] (0.22, 0, 0) (0, 0, 0),
      obj (Mesh (BoxGeometry 0.25 0.4 0.25) (Hex 0xffffff)) (Some (n + 10)) [] (-0.22, 0, 0) (0, 0, 0)]"

text \<open>The scene, camera and lights \<open>Producer.create\<close> makes, and the graph when the page
  script has added the figure.\<close>

definition stage_objs :: "window \<Rightarrow> graph" where
  "stage_objs win =
     [obj Scene None [1, 2, 3] (0, 0, 0) (0, 0, 0),
      obj (PerspectiveCamera 75 (innerWidth win / innerHeight win) 0.1 1000) (Some 0) [] (1, 0, 7) (0, 0, 0),
      obj (DirectionalLight 0xffffff 1) (Some 0) [] (5, 5, 5) (0, 0, 0),
      obj (AmbientLight 0x9eaeff 0.2) (Some 0) [] (0, 0, 0) (0, 0, 0)]"

definition first_frame :: "window \<Rightarrow> graph" where
  "first_frame win =
     [obj Scene None [1] (0, 0, 0) (0, 0, 0),
      obj (PerspectiveCamera 75 (innerWidth win / innerHeight win) 0.1 1000) (Some 0) [] (1, 0, 7) (0, 0, 0)]"

definition main_graph :: "window \<Rightarrow> real \<Rightarrow> real \<Rightarrow> graph" where
  "main_graph win u1 u2 = add_kids 0 [4] (stage_objs win) @ figure_objs animateProps (Figure_new 0 u1 u2) 0 4"

text \<open>The pose \<open>animate\<close> gives from parameters \<open>prm\<close> to a figure with group \<open>grp\<close> and
  arm groups \<open>a0\<close>, \<open>a1\<close>; and a page state whose producer holds that one figure.\<close>

definition pose :: "TFigureParams \<Rightarrow> nat \<Rightarrow> nat \<Rightarrow> nat \<Rightarrow> graph \<Rightarrow> graph" where
  "pose prm grp a0 a1 g =
     set_rot a1 (set_z (- armRotation prm)) (set_rot a0 (set_z (armRotation prm))
       (set_pos grp (set_y (p_y prm)) (set_rot grp (set_y (p_ry prm)) g)))"

definition figure_at :: "figure \<Rightarrow> nat \<Rightarrow> nat \<Rightarrow> nat \<Rightarrow> app \<Rightarrow> bool" where
  "figure_at F grp a0 a1 st =
     (pr_figures (a_producer st) = [F] \<and> pr_renderer (a_producer st) \<noteq> None \<and> f_params F = 0 \<and>
      f_group F = Some grp \<and> f_arms F = [a0, a1])"

text \<open>The links of a scene graph (each object's parent and children) and their
  consistency: every child of \<open>i\<close> exists and has parent \<open>i\<close>, no child is listed twice,
  and an object with a parent is among that parent's children.\<close>

definition links :: "graph \<Rightarrow> (nat option \<times> nat list) list" where
  "links g = map (\<lambda>x. (parent x, children x)) g"

definition wf_links :: "(nat option \<times> nat list) list \<Rightarrow> bool" where
  "wf_links ls =
     list_all (\<lambda>(i, p, cs). list_all (\<lambda>c. c < length ls \<and> fst (ls ! c) = Some i) cs \<and> distinct cs \<and>
                  (case p of None \<Rightarrow> True | Some q \<Rightarrow> q < length ls \<and> i \<in> set (snd (ls ! q))))
       (enumerate 0 ls)"

subsection \<open>Lemmas: the scene graph operations\<close>

lemma length_obj_add [simp]: "length (obj_add p c g) = length g"
  by (simp add: obj_add_def Let_def split: option.split)

lemma length_set_pos [simp]: "length (set_pos i f g) = length g"
  by (simp add: set_pos_def)

lemma length_set_rot [simp]: "length (set_rot i f g) = length g"
  by (simp add: set_rot_def)

lemma obj_add_fresh:
  "p < length g \<Longrightarrow> c < length g \<Longrightarrow> p \<noteq> c \<Longrightarrow> parent (g ! c) = None \<Longrightarrow>
   obj_add p c g = g[c := (g ! c)\<lparr>parent := Some p\<rparr>, p := (g ! p)\<lparr>children := children (g ! p) @ [c]\<rparr>]"
  by (simp add: obj_add_def nth_list_update)

lemma obj_add_moved:
  "p < length g \<Longrightarrow> c < length g \<Longrightarrow> p \<noteq> c \<Longrightarrow> parent (g ! c) \<noteq> None \<Longrightarrow>
   the (parent (g ! c)) < length g \<Longrightarrow> the (parent (g ! c)) \<noteq> c \<Longrightarrow> the (parent (g ! c)) \<noteq> p \<Longrightarrow>
   obj_add p c g =
     g[the (parent (g ! c)) := (g ! the (parent (g ! c)))\<lparr>children := remove1 c (children (g ! the (parent (g ! c))))\<rparr>,
       c := (g ! c)\<lparr>parent := Some p\<rparr>, p := (g ! p)\<lparr>children := children (g ! p) @ [c]\<rparr>]"
  by (auto simp: obj_add_def nth_list_update)

lemma upt_0_2: "[0..<2] = [0, 1]" by (simp add: numeral_2_eq_2)

lemmas graph_eval = new_obj_def set_pos_def set_rot_def set_kind_def obj_add_fresh obj_add_moved
  nth_append list_update_append upt_0_2

subsection \<open>Lemmas: what create builds\<close>

lemma createArm_eq:
  "b < length g \<Longrightarrow> createArm b mat i g =
     (length g, add_kids b [length g] g @
       [obj Group (Some b) [Suc (length g)] (mirror i * 0.8, 0.6, 0) (0, 0, pi / 5 * 30),
        obj (Mesh (BoxGeometry 0.25 0.85 0.25) mat) (Some (length g)) [] (0, -0.425, 0) (0, 0, 0)])"
  by (simp add: createArm_def graph_eval Let_def obj_def add_kids_def set_x_def set_y_def set_z_def)

lemma createArms_eq:
  "b < length g \<Longrightarrow> createArms b mat arms g =
     (arms @ [length g, Suc (Suc (length g))], add_kids b [length g, Suc (Suc (length g))] g @
       [obj Group (Some b) [Suc (length g)] (0.8, 0.6, 0) (0, 0, pi / 5 * 30),
        obj (Mesh (BoxGeometry 0.25 0.85 0.25) mat) (Some (length g)) [] (0, -0.425, 0) (0, 0, 0),
        obj Group (Some b) [Suc (Suc (Suc (length g)))] (-0.8, 0.6, 0) (0, 0, pi / 5 * 30),
        obj (Mesh (BoxGeometry 0.25 0.85 0.25) mat) (Some (Suc (Suc (length g)))) [] (0, -0.425, 0) (0, 0, 0)])"
  by (simp add: createArms_def createArm_eq add_kids_def nth_append list_update_append mirror_def upt_0_2)

lemma createBody_eq:
  "grp < length g \<Longrightarrow> createBody grp mat g =
     (length g, add_kids grp [length g] g @ [obj (Mesh (BoxGeometry 1 1.5 1) mat) (Some grp) [] (0, 0, 0) (0, 0, 0)])"
  by (simp add: createBody_def graph_eval obj_def add_kids_def)

lemma createHead_eq:
  "grp < length g \<Longrightarrow> createHead grp mat g =
     (length g, add_kids grp [length g] g @ [obj (Mesh (BoxGeometry 1.4 1.4 1.4) mat) (Some grp) [] (0, 1.65, 0) (0, 0, 0)])"
  by (simp add: createHead_def graph_eval Let_def obj_def add_kids_def set_y_def)

lemma createEyes_eq:
  "h < length g \<Longrightarrow> createEyes h g =
     add_kids h [length g] g @
       [obj Group (Some h) [Suc (length g), Suc (Suc (length g))] (0, 0, 0.7) (0, 0, 0),
        obj (Mesh (SphereGeometry 0.15 12 8) (Hex 0x44445c)) (Some (length g)) [] (0.36, 0, 0) (0, 0, 0),
        obj (Mesh (SphereGeometry 0.15 12 8) (Hex 0x44445c)) (Some (length g)) [] (-0.36, 0, 0) (0, 0, 0)]"
  by (simp add: createEyes_def graph_eval Let_def obj_def add_kids_def set_x_def set_z_def mirror_def)

lemma createLegs_eq:
  "grp < length g \<Longrightarrow> b < length g \<Longrightarrow> grp \<noteq> b \<Longrightarrow> length g \<notin> set (children (g ! grp)) \<Longrightarrow>
   createLegs grp b mat g =
     add_kids b [length g] g @
       [obj Group (Some b) [Suc (length g), Suc (Suc (length g))] (0, -1.15, 0) (0, 0, 0),
        obj (Mesh (BoxGeometry 0.25 0.4 0.25) mat) (Some (length g)) [] (0.22, 0, 0) (0, 0, 0),
        obj (Mesh (BoxGeometry 0.25 0.4 0.25) mat) (Some (length g)) [] (-0.22, 0, 0) (0, 0, 0)]"
  by (simp add: createLegs_def graph_eval Let_def obj_def add_kids_def set_x_def set_y_def mirror_def
    remove1_append)

lemma plus_numeral_Suc: "(n::nat) + numeral k = Suc (n + pred_numeral k)"
  by (simp add: numeral_eq_Suc)

lemma Figure_create_eq:
  "s < length g \<Longrightarrow> Figure_create heap s fig g =
     (fig\<lparr>f_scene := Some s, f_group := Some (length g), f_body := Some (length g + 1),
          f_head := Some (length g + 2), f_arms := f_arms fig @ [length g + 3, length g + 5]\<rparr>,
      add_kids s [length g] g @ figure_objs (heap (f_params fig)) fig s (length g))"
  by (simp add: Figure_create_def createBody_eq createHead_eq createArms_eq createEyes_eq createLegs_eq
    new_obj_def set_pos_def set_rot_def obj_add_fresh Let_def add_kids_def nth_append list_update_append
    figure_objs_def obj_def plus_numeral_Suc)

subsection \<open>Lemmas: the producer and the page script\<close>

lemma length_stage [simp]: "length (stage_objs win) = 4"
  by (simp add: stage_objs_def)

lemma Producer_create_eq:
  "Producer_create win (Producer_new \<lparr>width = innerWidth win, height = innerHeight win\<rparr>) [] =
     Inr (\<lparr>pr_figures = [],
           pr_renderer = Some \<lparr>r_width = innerWidth win, r_height = innerHeight win,
                               r_pixelRatio = min (devicePixelRatio win) 2\<rparr>,
           pr_camera = Some 1, pr_sizes = \<lparr>width = innerWidth win, height = innerHeight win\<rparr>,
           pr_scene = Some 0,
           pr_frames = [first_frame win,
                        stage_objs win]\<rparr>,
          stage_objs win)"
  by (simp add: Producer_create_def Producer_new_def initScene_def createRenderer_def createLight_def
    initEvents_def render_def set_aspect_def new_obj_def set_pos_def set_kind_def obj_add_fresh Let_def
    nth_append list_update_append stage_objs_def first_frame_def obj_def set_x_def set_z_def)

lemma index_main_shape:
  "\<exists>pr. index_main win u1 u2 =
     Inr \<lparr>a_heap = heap0(0 := animateProps\<lparr>p_y := -1.5\<rparr>), a_producer = pr, a_graph = main_graph win u1 u2\<rparr> \<and>
     pr_figures pr = [(Figure_new 0 u1 u2)\<lparr>f_scene := Some 0, f_group := Some 4, f_body := Some 5,
        f_head := Some 6, f_arms := [7, 9]\<rparr>] \<and>
     pr_renderer pr \<noteq> None \<and>
     pr_frames pr = [first_frame win,
                     stage_objs win, main_graph win u1 u2]"
  by (simp add: index_main_def Producer_create_eq addFigure_def Figure_create_eq render_def
    length_stage main_graph_def heap0_def Figure_new_def Let_def)

subsection \<open>Lemmas: tweens and ticks\<close>

lemma power1_out_bounds: "0 \<le> p \<Longrightarrow> p \<le> 1 \<Longrightarrow> 0 \<le> power1_out p \<and> power1_out p \<le> 1"
  by (simp add: power1_out_def power2_eq_square mult_le_one)

lemma tween_progress_bounds: "0 \<le> tween_progress d yoyo t \<and> tween_progress d yoyo t \<le> 1"
proof -
  have "0 \<le> t / d - of_int \<lfloor>t / d\<rfloor>" "t / d - of_int \<lfloor>t / d\<rfloor> < 1"
    using of_int_floor_le [of "t / d"] real_of_int_floor_add_one_gt [of "t / d"] by linarith+
  then show ?thesis by (simp add: tween_progress_def Let_def)
qed

lemma tween_value_bounds:
  assumes "a \<le> b"
  shows "a \<le> tween_value a b d yoyo t \<and> tween_value a b d yoyo t \<le> b"
proof -
  let ?e = "power1_out (tween_progress d yoyo t)"
  have "0 \<le> ?e" "?e \<le> 1" using power1_out_bounds tween_progress_bounds by blast+
  then have "0 \<le> (b - a) * ?e" "(b - a) * ?e \<le> b - a"
    using assms(1) by (simp_all add: mult_left_le)
  then show ?thesis by (simp add: tween_value_def)
qed

lemma Figure_animate_eq:
  "f_group F = Some grp \<Longrightarrow> f_arms F = [a0, a1] \<Longrightarrow>
   Figure_animate heap F g = Inr (pose (heap (f_params F)) grp a0 a1 g)"
  by (simp add: Figure_animate_def mirror_def Let_def pose_def)

lemma length_pose [simp]: "length (pose prm grp a0 a1 g) = length g"
  by (simp add: pose_def)

lemma tick_eq:
  "figure_at F grp a0 a1 st \<Longrightarrow>
   tick win p0 t st =
     Inr (st\<lparr>a_heap := (a_heap st)(0 := gsap_tweens p0 t (a_heap st 0)),
            a_producer := (a_producer st)\<lparr>pr_renderer := Some \<lparr>r_width = width (pr_sizes (a_producer st)),
                r_height = height (pr_sizes (a_producer st)), r_pixelRatio = min (devicePixelRatio win) 2\<rparr>,
              pr_frames := pr_frames (a_producer st) @ [pose (gsap_tweens p0 t (a_heap st 0)) grp a0 a1 (a_graph st)]\<rparr>,
            a_graph := pose (gsap_tweens p0 t (a_heap st 0)) grp a0 a1 (a_graph st)\<rparr>)"
  by (auto simp: figure_at_def tick_def animateFigures_def Figure_animate_eq render_def)

subsection \<open>Lemmas: runs of ticks\<close>

lemma links_set_pos [simp]: "links (set_pos i f g) = links g"
  by (simp add: links_def set_pos_def map_update map_update_self [where f = "\<lambda>x. (parent x, children x)", simplified])

lemma links_set_rot [simp]: "links (set_rot i f g) = links g"
  by (simp add: links_def set_rot_def map_update map_update_self [where f = "\<lambda>x. (parent x, children x)", simplified])

lemma links_pose [simp]: "links (pose prm grp a0 a1 g) = links g"
  by (simp add: pose_def)

lemma figure_at_tick:
  "figure_at F grp a0 a1 st \<Longrightarrow> figure_at F grp a0 a1 (st\<lparr>a_heap := h,
     a_producer := (a_producer st)\<lparr>pr_renderer := Some r, pr_frames := fs\<rparr>, a_graph := g\<rparr>)"
  by (simp add: figure_at_def)

lemma run_ticks_pose:
  "figure_at F grp a0 a1 st \<Longrightarrow>
   \<exists>st'. run_ticks win p0 ts st = Inr st' \<and> figure_at F grp a0 a1 st' \<and>
     links (a_graph st') = links (a_graph st) \<and> length (a_graph st') = length (a_graph st) \<and>
     (\<exists>fs. pr_frames (a_producer st') = pr_frames (a_producer st) @ fs \<and>
        list_all (\<lambda>g. links g = links (a_graph st)) fs) \<and>
     (ts \<noteq> [] \<longrightarrow> last (pr_frames (a_producer st')) = a_graph st' \<and>
        (\<exists>p g. length g = length (a_graph st) \<and> a_graph st' = pose (gsap_tweens p0 (last ts) p) grp a0 a1 g))"
proof (induction ts arbitrary: st)
  case Nil
  then show ?case by simp
next
  case (Cons t ts)
  let ?p = "gsap_tweens p0 t (a_heap st 0)"
  let ?st1 = "st\<lparr>a_heap := (a_heap st)(0 := ?p),
     a_producer := (a_producer st)\<lparr>pr_renderer := Some \<lparr>r_width = width (pr_sizes (a_producer st)),
       r_height = height (pr_sizes (a_producer st)), r_pixelRatio = min (devicePixelRatio win) 2\<rparr>,
       pr_frames := pr_frames (a_producer st) @ [pose ?p grp a0 a1 (a_graph st)]\<rparr>,
     a_graph := pose ?p grp a0 a1 (a_graph st)\<rparr>"
  have t1: "tick win p0 t st = Inr ?st1" using Cons.prems by (rule tick_eq)
  have f1: "figure_at F grp a0 a1 ?st1" using Cons.prems by (rule figure_at_tick)
  obtain st' fs where st': "run_ticks win p0 ts ?st1 = Inr st'" "figure_at F grp a0 a1 st'"
      "links (a_graph st') = links (a_graph ?st1)" "length (a_graph st') = length (a_graph ?st1)"
      "pr_frames (a_producer st') = pr_frames (a_producer ?st1) @ fs"
      "list_all (\<lambda>g. links g = links (a_graph ?st1)) fs"
      "ts \<noteq> [] \<longrightarrow> last (pr_frames (a_producer st')) = a_graph st' \<and>
        (\<exists>p g. length g = length (a_graph ?st1) \<and> a_graph st' = pose (gsap_tweens p0 (last ts) p) grp a0 a1 g)"
    using Cons.IH [OF f1] by blast
  show ?case
  proof (intro exI conjI)
    show "run_ticks win p0 (t # ts) st = Inr st'" using t1 st'(1) by simp
    show "figure_at F grp a0 a1 st'" by (rule st'(2))
    show "links (a_graph st') = links (a_graph st)" using st'(3) by simp
    show "length (a_graph st') = length (a_graph st)" using st'(4) by simp
    show "pr_frames (a_producer st') = pr_frames (a_producer st) @ (pose ?p grp a0 a1 (a_graph st) # fs)"
      using st'(5) by simp
    show "list_all (\<lambda>g. links g = links (a_graph st)) (pose ?p grp a0 a1 (a_graph st) # fs)"
      using st'(6) by simp
    show "t # ts \<noteq> [] \<longrightarrow> last (pr_frames (a_producer st')) = a_graph st' \<and>
        (\<exists>p g. length g = length (a_graph st) \<and> a_graph st' = pose (gsap_tweens p0 (last (t # ts)) p) grp a0 a1 g)"
    proof (cases "ts = []")
      case True
      then have "st' = ?st1" "fs = []" using st'(1,5) by simp_all
      then show ?thesis using True by (auto intro!: exI [where x = "a_heap st 0"] exI [where x = "a_graph st"])
    next
      case False
      then show ?thesis using st'(7) by auto
    qed
  qed
qed

lemma pose_values:
  "grp \<noteq> a0 \<Longrightarrow> grp \<noteq> a1 \<Longrightarrow> a0 \<noteq> a1 \<Longrightarrow> grp < length g \<Longrightarrow> a0 < length g \<Longrightarrow> a1 < length g \<Longrightarrow>
   fst (snd (rotation (pose prm grp a0 a1 g ! grp))) = p_ry prm \<and>
   fst (snd (position (pose prm grp a0 a1 g ! grp))) = p_y prm \<and>
   snd (snd (rotation (pose prm grp a0 a1 g ! a0))) = armRotation prm \<and>
   snd (snd (rotation (pose prm grp a0 a1 g ! a1))) = - armRotation prm"
  by (simp add: pose_def set_rot_def set_pos_def set_y_def set_z_def nth_list_update)

lemma length_main_graph [simp]: "length (main_graph win u1 u2) = 17"
  by (simp add: main_graph_def figure_objs_def add_kids_def)

lemma main_figure_at:
  "figure_at ((Figure_new 0 u1 u2)\<lparr>f_scene := Some 0, f_group := Some 4, f_body := Some 5,
      f_head := Some 6, f_arms := [7, 9]\<rparr>) 4 7 9 st \<longleftrightarrow>
   pr_figures (a_producer st) = [(Figure_new 0 u1 u2)\<lparr>f_scene := Some 0, f_group := Some 4, f_body := Some 5,
      f_head := Some 6, f_arms := [7, 9]\<rparr>] \<and> pr_renderer (a_producer st) \<noteq> None"
  by (simp add: figure_at_def Figure_new_def Let_def)

lemma wf_main_frames:
  "wf_links (links (main_graph win u1 u2))" "wf_links (links (stage_objs win))"
  "wf_links (links (first_frame win))"
  by (simp_all add: wf_links_def links_def main_graph_def figure_objs_def stage_objs_def first_frame_def
    add_kids_def obj_def)

text \<open>The spin tween starts over every 20 seconds from the value \<open>ry\<close> had when it
  started (0.8), not from 0.\<close>

lemma spin_restarts: "tween_value a b d False (of_int k * d) = a" if "0 < d"
  using that by (simp add: tween_value_def tween_progress_def power1_out_def)

subsection \<open>Properties\<close>

text \<open>In exact arithmetic, random(min, max) draws an integer in [min, max - 1] when float is false and a number in [min, max) when it is true, for every value Math.random() can return (double rounding is not modelled).\<close>

theorem random_bounds:
  assumes "0 \<le> u" "u < 1" "a < b"
  shows "(\<exists>k. random_js (of_int a) (of_int b) False u = of_int k \<and> a \<le> k \<and> k < b) \<and>
    of_int a \<le> random_js (of_int a) (of_int b) True u \<and> random_js (of_int a) (of_int b) True u < of_int b"
proof -
  let ?v = "u * (of_int b - of_int a) + of_int a :: real"
  have d: "0 < (of_int b - of_int a :: real)" using assms(3) by simp
  have lo: "of_int a \<le> ?v" using assms(1) d by simp
  have hi: "?v < of_int b"
  proof -
    have "u * (of_int b - of_int a) < 1 * (of_int b - of_int a)"
      using assms(2) d by (rule mult_strict_right_mono)
    then show ?thesis by simp
  qed
  have f: "a \<le> \<lfloor>?v\<rfloor>" "\<lfloor>?v\<rfloor> < b"
    using le_floor_iff [THEN iffD2, OF lo] floor_less_iff [THEN iffD2, OF hi] .
  have "random_js (of_int a) (of_int b) False u = of_int \<lfloor>?v\<rfloor>"
    by (simp add: random_js_def)
  then have "\<exists>k. random_js (of_int a) (of_int b) False u = of_int k \<and> a \<le> k \<and> k < b"
    using f by blast
  moreover have "random_js (of_int a) (of_int b) True u = ?v" by (simp add: random_js_def)
  ultimately show ?thesis using lo hi by simp
qed

theorem random_bounds_witness:
  "(\<exists>k. random_js 0 360 False (1 / 2) = of_int k \<and> 0 \<le> k \<and> k < 360) \<and>
    0 \<le> random_js 0 360 True (1 / 2) \<and> random_js 0 360 True (1 / 2) < 360"
  using random_bounds [of "1 / 2" 0 360] by simp

text \<open>C34: Figure.create hangs the character under the scene: the group holds body and head, the body holds both arm groups and the legs (the add to the group on line 139 is undone by the add to the body on line 142), the head holds the eyes, and each arm group starts rotated by pi/5*30 = 6*pi, three full turns.\<close>

theorem create_scene_tree:
  assumes "s < length g"
  shows "let g' = snd (Figure_create heap s fig g); n = length g in
     children (g' ! s) = children (g ! s) @ [n] \<and> children (g' ! n) = [n + 1, n + 2] \<and>
     children (g' ! (n + 1)) = [n + 3, n + 5, n + 10] \<and> children (g' ! (n + 2)) = [n + 7] \<and>
     parent (g' ! (n + 10)) = Some (n + 1) \<and>
     rotation (g' ! (n + 3)) = (0, 0, 6 * pi) \<and> rotation (g' ! (n + 5)) = (0, 0, 6 * pi)"
  using assms by (simp add: Figure_create_eq figure_objs_def obj_def add_kids_def nth_append)

theorem create_scene_tree_witness:
  "let g' = snd (Figure_create heap0 0 (Figure_new 0 0 0) [obj Scene None [] (0, 0, 0) (0, 0, 0)]);
       n = length [obj Scene None [] (0, 0, 0) (0, 0, 0)] in
     children (g' ! 0) = children ([obj Scene None [] (0, 0, 0) (0, 0, 0)] ! 0) @ [n] \<and>
     children (g' ! n) = [n + 1, n + 2] \<and>
     children (g' ! (n + 1)) = [n + 3, n + 5, n + 10] \<and> children (g' ! (n + 2)) = [n + 7] \<and>
     parent (g' ! (n + 10)) = Some (n + 1) \<and>
     rotation (g' ! (n + 3)) = (0, 0, 6 * pi) \<and> rotation (g' ! (n + 5)) = (0, 0, 6 * pi)"
  by (rule create_scene_tree) simp

text \<open>C11: The page script runs without error, and every frame rendered on a gsap tick shows the character turned by an angle in [0.8, 2*pi], raised to a height in [-1.5, 0], and with its arms mirrored at an angle in [1, pi].\<close>

theorem pose_bounds:
  "\<exists>st st'. index_main win u1 u2 = Inr st \<and> run_ticks win (a_heap st 0) ts st = Inr st' \<and>
     (ts \<noteq> [] \<longrightarrow>
       (let g = last (pr_frames (a_producer st')) in
          4 / 5 \<le> fst (snd (rotation (g ! 4))) \<and> fst (snd (rotation (g ! 4))) \<le> 2 * pi \<and>
          - 3 / 2 \<le> fst (snd (position (g ! 4))) \<and> fst (snd (position (g ! 4))) \<le> 0 \<and>
          1 \<le> snd (snd (rotation (g ! 7))) \<and> snd (snd (rotation (g ! 7))) \<le> pi \<and>
          snd (snd (rotation (g ! 9))) = - snd (snd (rotation (g ! 7)))))"
proof -
  let ?F = "(Figure_new 0 u1 u2)\<lparr>f_scene := Some 0, f_group := Some 4, f_body := Some 5,
      f_head := Some 6, f_arms := [7, 9]\<rparr>"
  obtain pr where pr: "index_main win u1 u2 =
      Inr \<lparr>a_heap = heap0(0 := animateProps\<lparr>p_y := -1.5\<rparr>), a_producer = pr, a_graph = main_graph win u1 u2\<rparr>"
      "pr_figures pr = [?F]" "pr_renderer pr \<noteq> None"
    using index_main_shape [of win u1 u2] by blast
  let ?st = "\<lparr>a_heap = heap0(0 := animateProps\<lparr>p_y := -1.5\<rparr>), a_producer = pr, a_graph = main_graph win u1 u2\<rparr>"
  let ?p0 = "a_heap ?st 0"
  have "figure_at ?F 4 7 9 ?st" using pr(2,3) by (simp add: main_figure_at)
  then obtain st' where st': "run_ticks win ?p0 ts ?st = Inr st'"
      "ts \<noteq> [] \<longrightarrow> last (pr_frames (a_producer st')) = a_graph st' \<and>
        (\<exists>p g. length g = 17 \<and> a_graph st' = pose (gsap_tweens ?p0 (last ts) p) 4 7 9 g)"
    using run_ticks_pose [of ?F 4 7 9 ?st win ?p0 ts] by auto
  have pi: "4 / 5 \<le> pi * 2" "1 \<le> pi" using pi_ge_two by linarith+
  have "let g = last (pr_frames (a_producer st')) in
          4 / 5 \<le> fst (snd (rotation (g ! 4))) \<and> fst (snd (rotation (g ! 4))) \<le> 2 * pi \<and>
          - 3 / 2 \<le> fst (snd (position (g ! 4))) \<and> fst (snd (position (g ! 4))) \<le> 0 \<and>
          1 \<le> snd (snd (rotation (g ! 7))) \<and> snd (snd (rotation (g ! 7))) \<le> pi \<and>
          snd (snd (rotation (g ! 9))) = - snd (snd (rotation (g ! 7)))" if ne: "ts \<noteq> []"
  proof -
    obtain p g where g: "last (pr_frames (a_producer st')) = pose (gsap_tweens ?p0 (last ts) p) 4 7 9 g"
        "length g = 17"
      using st'(2) ne by auto
    let ?q = "gsap_tweens ?p0 (last ts) p"
    have v: "fst (snd (rotation (pose ?q 4 7 9 g ! 4))) = p_ry ?q"
        "fst (snd (position (pose ?q 4 7 9 g ! 4))) = p_y ?q"
        "snd (snd (rotation (pose ?q 4 7 9 g ! 7))) = armRotation ?q"
        "snd (snd (rotation (pose ?q 4 7 9 g ! 9))) = - armRotation ?q"
      using pose_values [of 4 7 9 g ?q] g(2) by simp_all
    have "4 / 5 \<le> p_ry ?q \<and> p_ry ?q \<le> pi * 2"
      using tween_value_bounds [OF pi(1)] by (simp add: gsap_tweens_def heap0_def animateProps_def)
    moreover have "- 3 / 2 \<le> p_y ?q \<and> p_y ?q \<le> 0"
      using tween_value_bounds [of "- 3 / 2" 0] by (simp add: gsap_tweens_def heap0_def)
    moreover have "1 \<le> armRotation ?q \<and> armRotation ?q \<le> pi"
      using tween_value_bounds [OF pi(2)] by (simp add: gsap_tweens_def heap0_def animateProps_def)
    ultimately show ?thesis using g(1) v by (simp add: mult.commute)
  qed
  then show ?thesis using pr(1) st'(1) by blast
qed

theorem pose_bounds_witness:
  "\<exists>st st'. index_main \<lparr>innerWidth = 800, innerHeight = 600, devicePixelRatio = 1\<rparr> (1 / 2) (1 / 4) = Inr st \<and>
     run_ticks \<lparr>innerWidth = 800, innerHeight = 600, devicePixelRatio = 1\<rparr> (a_heap st 0) [1 / 4] st = Inr st' \<and>
     (let g = last (pr_frames (a_producer st')) in
        4 / 5 \<le> fst (snd (rotation (g ! 4))) \<and> fst (snd (rotation (g ! 4))) \<le> 2 * pi \<and>
        - 3 / 2 \<le> fst (snd (position (g ! 4))) \<and> fst (snd (position (g ! 4))) \<le> 0 \<and>
        1 \<le> snd (snd (rotation (g ! 7))) \<and> snd (snd (rotation (g ! 7))) \<le> pi \<and>
        snd (snd (rotation (g ! 9))) = - snd (snd (rotation (g ! 7))))"
  using pose_bounds [of "\<lparr>innerWidth = 800, innerHeight = 600, devicePixelRatio = 1\<rparr>" "1 / 2" "1 / 4" "[1 / 4]"]
  by simp

text \<open>Every scene graph the page renders, from the first render in Producer.create through any number of ticks, is consistent: each child exists and points back to its parent, no child is listed twice, and each object with a parent is among that parent's children.\<close>

theorem scene_graph_wf:
  "\<exists>st st'. index_main win u1 u2 = Inr st \<and> run_ticks win (a_heap st 0) ts st = Inr st' \<and>
     wf_links (links (a_graph st')) \<and> list_all (\<lambda>g. wf_links (links g)) (pr_frames (a_producer st'))"
proof -
  let ?F = "(Figure_new 0 u1 u2)\<lparr>f_scene := Some 0, f_group := Some 4, f_body := Some 5,
      f_head := Some 6, f_arms := [7, 9]\<rparr>"
  obtain pr where pr: "index_main win u1 u2 =
      Inr \<lparr>a_heap = heap0(0 := animateProps\<lparr>p_y := -1.5\<rparr>), a_producer = pr, a_graph = main_graph win u1 u2\<rparr>"
      "pr_figures pr = [?F]" "pr_renderer pr \<noteq> None"
      "pr_frames pr = [first_frame win,
        stage_objs win, main_graph win u1 u2]"
    using index_main_shape [of win u1 u2] by blast
  let ?st = "\<lparr>a_heap = heap0(0 := animateProps\<lparr>p_y := -1.5\<rparr>), a_producer = pr, a_graph = main_graph win u1 u2\<rparr>"
  have "figure_at ?F 4 7 9 ?st" using pr(2,3) by (simp add: main_figure_at)
  then obtain st' fs where st': "run_ticks win (a_heap ?st 0) ts ?st = Inr st'"
      "links (a_graph st') = links (main_graph win u1 u2)"
      "pr_frames (a_producer st') = pr_frames pr @ fs" "list_all (\<lambda>g. links g = links (main_graph win u1 u2)) fs"
    using run_ticks_pose [of ?F 4 7 9 ?st win "a_heap ?st 0" ts] by auto
  have "list_all (\<lambda>g. wf_links (links g)) fs"
    using st'(4) wf_main_frames(1) by (simp add: list_all_iff)
  then show ?thesis using pr(1,4) st' wf_main_frames by auto
qed

end
