(* ===== verification/Spec2Isabelle.thy ===== *)
theory Spec2Isabelle
  imports Dialog Cta_Style Cta_Phases Scraper Cube_Character
begin

text \<open>
  \<^bold>\<open>A verification library for the repository drimchansky/web.\<close>

  The repository holds four small front-end programs, all modelled here. Two are modal
  dialogs with a focus trap, the core of the repository; the other two are a headless-
  browser scraper and a three.js animation demo:

  \<^item> \<^emph>\<open>accessible-dialog\<close> (src/accessible-dialog/src/scripts): a \<open>Dialog\<close> class
    (dialog/index.ts) that shows and hides a dialog element, remembers and restores the
    focused element, runs registered show/hide hooks, and traps Tab inside the dialog with
    \<open>trapTabKey\<close> over the visible focusable descendants (dialog/functions.ts); a page
    script (index.ts) constructs it and opens it from a button.
  \<^item> \<^emph>\<open>web-components-modal-dialog\<close>: the \<open>cta-modal\<close> custom element
    (cta.modal/cta.modal.class.ts with its constants and shadow markup), driven by its
    \<open>active\<close>, \<open>animated\<close>, \<open>close\<close> and \<open>static\<close> attributes, with timed show/hide
    transitions, two focus-trap sentinels around the dialog, Escape and backdrop closing,
    and toggle buttons in the light DOM.
  \<^item> \<^emph>\<open>puppeteer-scraper\<close> (src/puppeteer-scraper/src/index.ts): a \<open>Scraper\<close> class
    that opens books.toscrape.com, finds three category links by their cleaned text,
    walks each category's paginated list following "next" links, scrapes every listed
    book's page, and writes data.json.
  \<^item> \<^emph>\<open>threejs-cube-character\<close> (src/threejs-cube-character/src/scripts): a
    \<open>Figure\<close> class building a cube character in a three.js scene graph and posing it from
    a parameter object, a \<open>Producer\<close> owning scene, camera and renderer, a \<open>random\<close>
    helper, and a page script animating the parameters with two gsap tweens and redrawing
    on every gsap tick.

  The programs do not call each other: each is its own group of theories on the shared
  \<open>Prelude\<close> (the two dialogs also share \<open>Dom\<close>, and \<open>Cta_Style\<close> and \<open>Cta_Phases\<close> read
  the state of \<open>Cta_Modal\<close>), and the properties that span operations (event loops, runs of
  ticks, whole runs) are stated inside each component's theory.

  \<^bold>\<open>Theories.\<close>
  \<^item> \<open>Prelude\<close>: the JavaScript array operations the code relies on (\<open>indexOf\<close> answering
    -1, reads of undefined slots as \<open>option\<close>, \<open>splice\<close>), the \<open>TypeError\<close> error value,
    generic lemmas on folds, lists and \<open>dropWhile\<close>, and the lemma collections
    \<open>js_simps\<close> and \<open>cta_simps\<close>.
  \<^item> \<open>Dom\<close>: elements (tag, attributes, classes, layout box), the document as a tree of
    element ids, CSS selectors as lists of compound selectors, \<open>querySelectorAll\<close>,
    \<open>querySelector\<close>, \<open>closest\<close>, \<open>contains\<close>, rendering (no \<open>hidden\<close> attribute on the
    path from the root) and attribute updates.
  \<^item> \<open>Focus_Trap\<close> (dialog/functions.ts): \<open>FOCUSABLE_SELECTORS\<close>, \<open>isVisible\<close>,
    \<open>getFocusableChildren\<close>, \<open>trapTabKey\<close> (\<open>trap_list\<close> is its body on the scanned
    list, returning \<open>Inl TypeError\<close> where the code calls \<open>.focus()\<close> on undefined), and a
    model of the browser's default Tab order (\<open>press_tab\<close>) to state what the trap
    achieves together with it.
  \<^item> \<open>Dialog\<close> (dialog/index.ts, scripts/index.ts): the page (DOM, focus, listeners with
    the identity of every \<open>.bind(this)\<close> result, hook calls) as a record \<open>page\<close>, the
    object as a record \<open>dialog\<close>, and one function per method: \<open>Dialog_new\<close>,
    \<open>on_event\<close>, \<open>off\<close>, \<open>destroy\<close> (its \<open>forEach\<close> over an array that \<open>off\<close> splices is
    \<open>off_each\<close>), \<open>show_dialog\<close>, \<open>hide_dialog\<close>, \<open>handleKeyDown\<close>, \<open>maintainFocus\<close>,
    \<open>moveFocusIn\<close>, \<open>page_main\<close>. Hook promises are opaque: a parameter \<open>ok\<close> says
    which hooks resolve.
  \<^item> \<open>Cta_Modal\<close> (cta.modal.*.ts): the constants, the shadow markup cloned with ids
    from a base \<open>b\<close>, the page state \<open>cta_page\<close> (light and shadow DOM, focus, inline
    styles the class writes, clock, pending timers, animation-frame queue, listeners,
    reduced-motion preference) extended by the class fields (\<open>cta_state\<close>), and every
    method: \<open>CtaModal_new\<close> (constructor), \<open>attributeChangedCallback\<close>,
    \<open>setActiveFlag\<close> and \<open>toggleModalDisplay\<close> (mutually recursive, because the
    attribute written at line 227 calls back into the class; the termination measure
    counts whether the attribute already spells the flag), \<open>toggle_display\<close> (the rest
    of \<open>_toggleModalDisplay\<close>), the flag setters, \<open>modal_label\<close>, \<open>handleClickToggle\<close>
    (its guards in \<open>click_toggle_check\<close>), \<open>handleClickOverlay\<close>, \<open>handleFocusIn\<close> (its
    decision in \<open>focusin_redirect\<close>), \<open>handleKeyDown_cta\<close>, \<open>addEvents\<close>,
    \<open>removeEvents\<close>. Events are dispatched along the composed path (through slots and
    the shadow root) to the registered handlers in order; \<open>cta_step\<close> is the event loop
    over attribute changes, clicks, key presses, focus moves, elapsed time and animation
    frames, and \<open>upgrade\<close> is the browser's upgrade of a host already in the page.
  \<^item> \<open>Cta_Style\<close> (cta.modal.style.ts): the style rules with behaviour, as data
    (\<open>animation_rules\<close>: which keyframes the overlay and the dialog play, for how long,
    while an ancestor carries \<open>data-cta-modal-show\<close> or \<open>data-cta-modal-hide\<close>), matched
    through the shadow tree and the cascade, with the reduced-motion block that turns
    animation off (\<open>css_animation\<close>).
  \<^item> \<open>Cta_Phases\<close>: the visibility machine of spec section 4.3 as an abstract
    specification (\<open>vis_phase\<close>: Hidden, Showing, Shown, Hiding; \<open>vis_trans\<close> on the
    events Show, Hide and Done, ignoring the rest), the abstraction \<open>vis_phase_of\<close> of a
    \<open>cta_state\<close> to its phase (from \<open>_isActive\<close>, \<open>_isHideShow\<close> and the container's
    inline display; \<open>None\<close> for an active element whose container is hidden), the
    quiescent states (\<open>settled\<close>: no timer, no transition, no animation attribute), and
    \<open>vis_action\<close>, which implements a request as a write of the \<open>active\<close> attribute and
    completion as \<open>ANIMATION_DURATION\<close> ms of the event loop.
  \<^item> \<open>Scraper\<close> (puppeteer-scraper/src/index.ts): the site as the data the browser reads
    (\<open>site\<close>: category links, list pages, product pages; a selector that matches
    nothing is \<open>None\<close>), the in-page clean-up regular expression of line 63 as the
    engine's left-to-right scan (\<open>regex_strip\<close>), the availability parse
    (\<open>strip_breaks\<close>, \<open>paren_group\<close>, \<open>parse_available\<close>), \<open>selectedCategory\<close>,
    \<open>pagePromise\<close>, the paginated walk \<open>scrapeCurrentPage\<close> as a
    \<open>partial_function (option)\<close> (\<open>None\<close>: the promise never settles), \<open>scraper\<close>,
    \<open>scrapeAll\<close> with its effects (\<open>browser_close\<close>; \<open>writeFile_cb\<close>, the callback
    of \<open>fs.writeFile\<close>, with the write's outcome as a parameter; the log) and
    \<open>Scraper_run\<close>. Thrown errors are \<open>Inl\<close> values of \<open>scrape_error\<close>.
  \<^item> \<open>Cube_Character\<close> (threejs-cube-character/src/scripts): the scene graph as a list of
    objects indexed by id with three.js \<open>add\<close> semantics (\<open>obj_add\<close>: an object with a
    parent is first removed from it), \<open>random_js\<close>, the \<open>Figure\<close> methods
    (\<open>Figure_new\<close>, \<open>Figure_create\<close> with one function per part builder,
    \<open>Figure_animate\<close>; the parameter object is referenced through a heap, because gsap
    changes the object the figure holds), the \<open>Producer\<close> methods (\<open>Producer_create\<close>,
    \<open>addFigure\<close>, \<open>animateFigures\<close>, \<open>render\<close>, which records the graph it draws),
    gsap's repeating tweens with the default \<open>power1.out\<close> ease, the page script
    \<open>index_main\<close>, one ticker callback \<open>tick\<close> and \<open>run_ticks\<close> over any list of tick
    times. Closed forms of every part builder (\<open>createArm_eq\<close> ... \<open>Figure_create_eq\<close>,
    \<open>index_main_shape\<close>) carry the proofs, so the graph is never unfolded operation by
    operation.

  \<^bold>\<open>What is proved.\<close> Each claim is stated right after a text block naming it.
  \<^item> accessible-dialog: the scanner returns exactly the visible matching descendants in
    document order, never a negative tabindex and nothing under a hidden root; the trap
    with the default Tab order moves focus to the cyclic successor/predecessor and N Tabs
    return to the start; Tab with nothing focusable throws \<open>TypeError\<close>; show then hide
    restores focus; \<open>destroy\<close> leaves every second hook (the equivalence with
    \<open>every_second\<close>); \<open>on\<close>/\<open>off\<close> round trip; and, as findings, the listener leak of
    \<open>hide\<close> (n cycles leave n keydown listeners), the dialog closed n times throwing n
    \<open>TypeError\<close>s on every Tab (the leak, the hidden root's empty scan and the trap's
    error composed), a second \<open>show\<close> saving the element the first one focused inside the
    dialog so that \<open>hide\<close> does not return focus to the opener, and rejecting hooks
    rejecting \<open>show\<close>.
  \<^item> cta-modal: an invariant of every reachable state (\<open>cta_reachable_inv\<close>: the
    \<open>active\<close> attribute reflects \<open>_isActive\<close>, an element in transition has a timer
    pending, every timer is due within \<open>ANIMATION_DURATION\<close>), proved by one
    preservation lemma per operation; liveness of the animation lock (after
    \<open>ANIMATION_DURATION\<close> ms all timers have fired and \<open>_isHideShow\<close> is false);
    sufficiency of the firing loop's fuel; static suppression of Escape and of the
    backdrop; showing through the attribute, immediately under reduced motion; the
    sentinel redirect of \<open>_handleFocusIn\<close>; idempotent, symmetric \<open>_addEvents\<close> /
    \<open>_removeEvents\<close>; the normal form of the aria-label; and, as findings, the missing
    re-entrancy guard on the toggle,
    the double run of the display logic (two timers per toggle) and the empty label of a
    blank heading.
  \<^item> cta-modal against the specification's machine (\<open>Cta_Phases\<close>): requests that let
    each transition finish refine the machine, from quiescent state to quiescent state
    (\<open>paced_refines_spec\<close>, by induction over the requests on one lemma per request,
    \<open>request_completes\<close>); as findings, a show request during a hide animation is
    honoured and the hide timer survives it, leaving the element active but not
    displayed for every state and every delay under \<open>ANIMATION_DURATION\<close>
    (\<open>reopen_during_hide\<close>; \<open>race_scenario\<close> plays it with clicks), and under reduced
    motion a show completes at once but a hide only when a 0 ms timer fires
    (\<open>reduced_motion_hide_deferred\<close>).
  \<^item> style and class together: on showing through the attribute, the overlay and the
    dialog play the show keyframes for exactly \<open>ANIMATION_DURATION\<close> ms when motion is
    allowed and nothing otherwise, and the class's completion timer is due after exactly
    the duration of the animation that plays.
  \<^item> scraper: the walk refines the chain of "next" pages (it returns exactly when the
    chain is finite and every page loads and parses, with the books in page order); a
    cycle of "next" links makes it never return; a missing product field makes the
    category hang; the clean-up regular expression equals a character filter
    (\<open>keep_char\<close>); the availability parse round-trips the printed count; the
    outcomes of \<open>scrapeAll\<close> on success (browser closed; data.json written and success
    logged, or only the write error logged) and on a missing category (browser left
    open, nothing written).
  \<^item> cube character: \<open>random\<close> stays in its range in exact arithmetic; \<open>create\<close> builds the documented tree
    (legs re-parented to the body, arms starting at 6\<pi>); the page runs without error
    and every frame after a tick has the turn, height and mirrored arm angles within the
    tweens' ranges; every rendered scene graph has consistent links (\<open>wf_links\<close>).

  \<^bold>\<open>Bounds and fuel.\<close> \<open>fire_due\<close> fires due timers with fuel equal to the number
  pending; every firing removes the timer that fires, so the fuel is enough
  (\<open>advance_fires_due\<close>). Focus loops of the dialog are bounded by list lengths; the
  attribute re-entry terminates by the measure above. The scraper's walk has no fuel:
  it is a partial function, and \<open>page_chain\<close> (fuel \<open>n\<close>, the number of pages) is the
  reference it is compared with, so that returning is proved, not assumed. The cube's
  bounds hold for every tick time, because a tween's progress is the fractional part of
  the elapsed cycles and \<open>power1.out\<close> maps [0, 1] into [0, 1].

  \<^bold>\<open>Assumptions about the browser.\<close> The default Tab order inside the accessible
  dialog is the scanned list; \<open>el.focus()\<close> succeeds on rendered focusable elements;
  text content and the scrollbar width are given; a custom element's reactions to its own
  \<open>setAttribute\<close> run before the call returns; a click does not move focus by itself
  (focus moves are their own action); the default action of Enter/Space on a button is
  not modelled, only whether \<open>preventDefault\<close> was called. For the scraper: a
  \<open>page.click\<close> on "next" completes its navigation before the next
  \<open>waitForSelector\<close>, and an \<open>$eval\<close> that finds nothing throws. For the cube: gsap
  updates its tweens before calling ticker listeners, and a tween's start values are the
  object's values when it starts.

  \<^bold>\<open>Not modelled.\<close> The rest of cta.modal.style.ts (box model, colours, sizes,
  custom properties, the opacity and scale inside the keyframes) is layout with no
  behaviour. \<open>scrollTo\<close> is kept
  as a scroll position only. JavaScript numbers in \<open>random\<close> and the cube are exact
  reals: double rounding is not modelled (for ranges near \<open>2^51\<close> it can make
  \<open>random\<close> return \<open>max\<close>). WebGL drawing is not modelled (a render records the scene
  graph it draws), nor \<open>updateProjectionMatrix\<close> or the identity of the geometries and
  materials the cube shares between meshes. The libraries the programs call (the DOM,
  puppeteer, three.js, gsap) are modelled only as far as the code uses them, as the
  documentation describes them.

  \<^bold>\<open>Open ends.\<close> The focus-return safety of the sentinel strategy at the frame
  level and Escape closing a non-static settled modal through the dispatch are shown on
  the demonstration page only, not for every page. The refinement of the visibility
  machine is stated for requests through the \<open>active\<close> attribute; requests through the
  toggle buttons run the display logic twice (\<open>open_arms_two_timers\<close>) and are related
  to the machine only through the invariant.
\<close>

end
